(* ===== verification/Prelude.thy ===== *)
theory Prelude
  imports Complex_Main "HOL-Library.AList"
begin

text \<open>
  Shared ground of the development. It holds what the Python language itself gives the
  program: exceptions as values, effectful calls as state-passing functions, dictionaries
  and sets with Python's behaviour, integer printing, and the bounded \<open>asyncio.Queue\<close>.

  \<^item> An asynchronous call that may raise and that changes some state of type \<open>'s\<close> is a value
    of type \<open>('s, 'a) eff\<close>, that is \<open>'s \<Rightarrow> (exn + 'a) \<times> 's\<close>. \<open>ret\<close>, \<open>raise\<close>, \<open>bindE\<close>,
    \<open>thenE\<close>, \<open>catchE\<close> and \<open>forE\<close> are \<open>return\<close>, \<open>raise\<close>, sequencing, \<open>try/except Exception\<close>
    and \<open>for\<close>. A raised exception keeps the state changes made before it, as in Python.
  \<^item> A \<open>dict\<close> is an association list in insertion order (\<open>map_of\<close> is \<open>get\<close>, \<open>dict_set\<close>
    keeps the position of an existing key, \<open>dict_pop\<close> removes the key).
  \<^item> A \<open>set\<close> is a list without repetitions; theorems never depend on its order.
\<close>

named_theorems eff_simps \<open>equations of the effect combinators\<close>
named_theorems keeps_intros \<open>compositional rules for state invariants of effects\<close>
named_theorems impl_intros \<open>compositional rules for effects that implement a function on an abstract state\<close>
named_theorems dict_simps \<open>lookup after update of dictionaries and sets\<close>

text \<open>Seconds since the epoch, the value of \<open>time.time()\<close>; arithmetic on it is exact here.\<close>

type_synonym timestamp = rat

section \<open>Exceptions\<close>

datatype exn =
    HTTPException nat string "(string \<times> string) list"
  | ValueError string
  | TypeError string
  | AttributeError string
  | IndexError string
  | NotImplementedError string
  | JSONDecodeError
  | ValidationError string
  | RedisError string
  | DatabaseError string
  | IntegrityError string
  | MultipleResultsFound
  | WebSocketError string
  | WebSocketDisconnect
  | QueueFull
  | CancelledError

text \<open>\<open>asyncio.CancelledError\<close> derives from \<open>BaseException\<close>: \<open>except Exception\<close> lets it pass.\<close>

definition is_Exception :: "exn \<Rightarrow> bool" where
  "is_Exception e \<longleftrightarrow> e \<noteq> CancelledError"

section \<open>Effects\<close>

type_synonym ('s, 'a) eff = "'s \<Rightarrow> (exn + 'a) \<times> 's"

definition ret :: "'a \<Rightarrow> ('s, 'a) eff" where
  "ret x s = (Inr x, s)"

definition raise :: "exn \<Rightarrow> ('s, 'a) eff" where
  "raise e s = (Inl e, s)"

definition bindE :: "('s, 'a) eff \<Rightarrow> ('a \<Rightarrow> ('s, 'b) eff) \<Rightarrow> ('s, 'b) eff" where
  "bindE m f s = (case m s of (Inl e, s') \<Rightarrow> (Inl e, s') | (Inr x, s') \<Rightarrow> f x s')"

definition thenE :: "('s, 'a) eff \<Rightarrow> ('s, 'b) eff \<Rightarrow> ('s, 'b) eff" where
  "thenE m n = bindE m (\<lambda>_. n)"

text \<open>\<open>try: m except Exception as e: h(e)\<close>.\<close>

definition catchE :: "('s, 'a) eff \<Rightarrow> (exn \<Rightarrow> ('s, 'a) eff) \<Rightarrow> ('s, 'a) eff" where
  "catchE m h s =
     (case m s of
        (Inl e, s') \<Rightarrow> (if is_Exception e then h e s' else (Inl e, s'))
      | (Inr x, s') \<Rightarrow> (Inr x, s'))"

text \<open>\<open>try: m finally: n\<close>; an exception of \<open>n\<close> replaces one of \<open>m\<close>.\<close>

definition finallyE :: "('s, 'a) eff \<Rightarrow> ('s, unit) eff \<Rightarrow> ('s, 'a) eff" where
  "finallyE m n s = (case m s of (r, s1) \<Rightarrow> (case n s1 of (Inl e, s2) \<Rightarrow> (Inl e, s2) | (Inr _, s2) \<Rightarrow> (r, s2)))"

fun forE :: "'b list \<Rightarrow> ('b \<Rightarrow> ('s, unit) eff) \<Rightarrow> ('s, unit) eff" where
  "forE [] f = ret ()"
| "forE (x # xs) f = thenE (f x) (forE xs f)"

text \<open>A pure computation that may raise.\<close>

definition liftX :: "exn + 'a \<Rightarrow> ('s, 'a) eff" where
  "liftX r s = (r, s)"

text \<open>An effect on one component of a larger state.\<close>

definition onE :: "('s \<Rightarrow> 'p) \<Rightarrow> (('p \<Rightarrow> 'p) \<Rightarrow> 's \<Rightarrow> 's) \<Rightarrow> ('p, 'a) eff \<Rightarrow> ('s, 'a) eff" where
  "onE get upd m s = (case m (get s) of (r, p) \<Rightarrow> (r, upd (\<lambda>_. p) s))"

lemma ret_apply [simp, eff_simps]: "ret x s = (Inr x, s)"
  by (simp add: ret_def)

lemma raise_apply [simp, eff_simps]: "raise e s = (Inl e, s)"
  by (simp add: raise_def)

lemma liftX_apply [simp, eff_simps]: "liftX r s = (r, s)"
  by (simp add: liftX_def)

lemma bindE_liftX_Inr: "bindE (liftX (Inr x)) f = f x"
  by (simp add: bindE_def fun_eq_iff)

lemma bindE_ret [simp, eff_simps]: "bindE (ret x) f = f x"
  by (simp add: bindE_def fun_eq_iff)

lemma bindE_raise [simp, eff_simps]: "bindE (raise e) f = raise e"
  by (simp add: bindE_def fun_eq_iff)

lemma bindE_assoc: "bindE (bindE m f) g = bindE m (\<lambda>x. bindE (f x) g)"
  by (simp add: bindE_def fun_eq_iff split: prod.split sum.split)

lemma bindE_Inr [eff_simps]: "m s = (Inr x, s') \<Longrightarrow> bindE m f s = f x s'"
  by (simp add: bindE_def)

lemma bindE_Inl [eff_simps]: "m s = (Inl e, s') \<Longrightarrow> bindE m f s = (Inl e, s')"
  by (simp add: bindE_def)

lemma thenE_Inr [eff_simps]: "m s = (Inr x, s') \<Longrightarrow> thenE m n s = n s'"
  by (simp add: thenE_def bindE_def)

lemma thenE_Inl [eff_simps]: "m s = (Inl e, s') \<Longrightarrow> thenE m n s = (Inl e, s')"
  by (simp add: thenE_def bindE_def)

lemma catchE_Inr [eff_simps]: "m s = (Inr x, s') \<Longrightarrow> catchE m h s = (Inr x, s')"
  by (simp add: catchE_def)

lemma catchE_Inl [eff_simps]:
  "m s = (Inl e, s') \<Longrightarrow> is_Exception e \<Longrightarrow> catchE m h s = h e s'"
  by (simp add: catchE_def)

lemma catchE_escapes [eff_simps]:
  "m s = (Inl e, s') \<Longrightarrow> \<not> is_Exception e \<Longrightarrow> catchE m h s = (Inl e, s')"
  by (simp add: catchE_def)

lemma bindE_InrE:
  assumes "bindE m f s = (Inr y, t)"
  obtains x s' where "m s = (Inr x, s')" and "f x s' = (Inr y, t)"
  using assms by (auto simp: bindE_def split: prod.splits sum.splits)

lemma thenE_InrE:
  assumes "thenE m n s = (Inr y, t)"
  obtains x s' where "m s = (Inr x, s')" and "n s' = (Inr y, t)"
  using assms by (auto simp: thenE_def elim: bindE_InrE)

subsection \<open>Invariants of effects\<close>

text \<open>\<open>keeps P m\<close>: whether it returns or raises, \<open>m\<close> leaves a state with \<open>P\<close> in a state with \<open>P\<close>.\<close>

definition keeps :: "('s \<Rightarrow> bool) \<Rightarrow> ('s, 'a) eff \<Rightarrow> bool" where
  "keeps P m \<longleftrightarrow> (\<forall>s. P s \<longrightarrow> P (snd (m s)))"

lemma keepsI: "(\<And>s. P s \<Longrightarrow> P (snd (m s))) \<Longrightarrow> keeps P m"
  by (simp add: keeps_def)

lemma keepsD: "keeps P m \<Longrightarrow> P s \<Longrightarrow> P (snd (m s))"
  by (simp add: keeps_def)

lemma keepsD_eq: "keeps P m \<Longrightarrow> P s \<Longrightarrow> m s = (r, s') \<Longrightarrow> P s'"
  by (metis keepsD snd_conv)

lemma keeps_ret [keeps_intros]: "keeps P (ret x)"
  by (simp add: keeps_def)

lemma keeps_raise [keeps_intros]: "keeps P (raise e)"
  by (simp add: keeps_def)

lemma keeps_liftX [keeps_intros]: "keeps P (liftX r)"
  by (simp add: keeps_def)

lemma keeps_bindE [keeps_intros]:
  assumes "keeps P m" and "\<And>x. keeps P (f x)"
  shows "keeps P (bindE m f)"
proof (rule keepsI)
  fix s assume "P s"
  with assms(1) have "P (snd (m s))" by (rule keepsD)
  with assms(2) show "P (snd (bindE m f s))"
    by (auto simp: bindE_def keeps_def split: prod.split sum.split)
qed

lemma keeps_thenE [keeps_intros]: "keeps P m \<Longrightarrow> keeps P n \<Longrightarrow> keeps P (thenE m n)"
  by (simp add: thenE_def keeps_bindE)

lemma keeps_catchE [keeps_intros]:
  assumes "keeps P m" and "\<And>e. keeps P (h e)"
  shows "keeps P (catchE m h)"
proof (rule keepsI)
  fix s assume "P s"
  with assms(1) have "P (snd (m s))" by (rule keepsD)
  with assms(2) show "P (snd (catchE m h s))"
    by (auto simp: catchE_def keeps_def split: prod.split sum.split)
qed

lemma keeps_finallyE [keeps_intros]:
  assumes "keeps P m" and "keeps P n"
  shows "keeps P (finallyE m n)"
proof (rule keepsI)
  fix s assume "P s"
  with assms(1) have "P (snd (m s))" by (rule keepsD)
  with assms(2) show "P (snd (finallyE m n s))"
    by (auto simp: finallyE_def keeps_def split: prod.split sum.split)
qed

lemma keeps_forE [keeps_intros]: "(\<And>x. x \<in> set xs \<Longrightarrow> keeps P (f x)) \<Longrightarrow> keeps P (forE xs f)"
  by (induction xs) (auto intro: keeps_intros)

lemma keeps_if [keeps_intros]:
  "(b \<Longrightarrow> keeps P m) \<Longrightarrow> (\<not> b \<Longrightarrow> keeps P n) \<Longrightarrow> keeps P (if b then m else n)"
  by simp

section \<open>Dictionaries\<close>

type_synonym 'v dict = "(string \<times> 'v) list"

abbreviation dict_set :: "'k \<Rightarrow> 'v \<Rightarrow> ('k \<times> 'v) list \<Rightarrow> ('k \<times> 'v) list" where
  "dict_set \<equiv> AList.update"

abbreviation dict_pop :: "'k \<Rightarrow> ('k \<times> 'v) list \<Rightarrow> ('k \<times> 'v) list" where
  "dict_pop \<equiv> AList.delete"

abbreviation keys :: "('k \<times> 'v) list \<Rightarrow> 'k list" where
  "keys d \<equiv> map fst d"

lemmas map_of_dict_set [simp, dict_simps] = update_conv'
lemmas map_of_dict_pop [simp, dict_simps] = delete_conv'

lemma distinct_keys_dict_set [simp]: "distinct (keys d) \<Longrightarrow> distinct (keys (dict_set k v d))"
  by (rule distinct_update)

lemma distinct_keys_dict_pop [simp]: "distinct (keys d) \<Longrightarrow> distinct (keys (dict_pop k d))"
  by (rule distinct_delete)

text \<open>\<open>len(d)\<close> counts the keys bound.\<close>

lemma length_dict: "distinct (keys d) \<Longrightarrow> length d = card (dom (map_of d))"
  by (metis dom_map_of_conv_image_fst distinct_card length_map set_map)

section \<open>Sets\<close>

definition set_add :: "'a \<Rightarrow> 'a list \<Rightarrow> 'a list" where
  "set_add x A = (if x \<in> set A then A else A @ [x])"

definition set_discard :: "'a \<Rightarrow> 'a list \<Rightarrow> 'a list" where
  "set_discard x A = filter (\<lambda>y. y \<noteq> x) A"

lemma set_set_add [simp, dict_simps]: "set (set_add x A) = insert x (set A)"
  by (auto simp: set_add_def)

lemma set_set_discard [simp, dict_simps]: "set (set_discard x A) = set A - {x}"
  by (auto simp: set_discard_def)

lemma distinct_set_add [simp]: "distinct A \<Longrightarrow> distinct (set_add x A)"
  by (simp add: set_add_def)

lemma distinct_set_discard [simp]: "distinct A \<Longrightarrow> distinct (set_discard x A)"
  by (simp add: set_discard_def)

lemma set_discard_Nil_iff: "set_discard x A = [] \<longleftrightarrow> set A \<subseteq> {x}"
  by (auto simp: set_discard_def filter_empty_conv)

section \<open>Printing integers\<close>

text \<open>Python's \<open>str(n)\<close> for an integer: decimal digits, a minus sign first if negative.\<close>

definition digit_char :: "nat \<Rightarrow> char" where
  "digit_char d = char_of (48 + d)"

fun str_nat :: "nat \<Rightarrow> string" where
  "str_nat n = (if n < 10 then [digit_char n] else str_nat (n div 10) @ [digit_char (n mod 10)])"

declare str_nat.simps [simp del]

definition str_int :: "int \<Rightarrow> string" where
  "str_int i = (if i < 0 then CHR ''-'' # str_nat (nat (- i)) else str_nat (nat i))"

text \<open>Reading the digits back shows that printing is injective.\<close>

definition read_digits :: "string \<Rightarrow> nat" where
  "read_digits cs = foldl (\<lambda>n c. 10 * n + (of_char c - 48)) 0 cs"

lemma of_digit_char: "d < 10 \<Longrightarrow> of_char (digit_char d) = 48 + d"
  by (simp add: digit_char_def)

lemma read_str_nat: "read_digits (str_nat n) = n"
proof (induction n rule: str_nat.induct)
  case (1 n)
  show ?case
  proof (cases "n < 10")
    case True
    then show ?thesis by (simp add: str_nat.simps [of n] read_digits_def of_digit_char)
  next
    case False
    with 1 have "read_digits (str_nat (n div 10)) = n div 10" by simp
    with False show ?thesis
      by (simp add: str_nat.simps [of n] read_digits_def of_digit_char)
  qed
qed

lemma str_nat_inject [simp]: "str_nat m = str_nat n \<longleftrightarrow> m = n"
  by (metis read_str_nat)

lemma digits_of_str_nat: "c \<in> set (str_nat n) \<Longrightarrow> \<exists>d<10. c = digit_char d"
proof (induction n rule: str_nat.induct)
  case (1 n)
  show ?case
  proof (cases "n < 10")
    case True
    with 1 show ?thesis by (auto simp: str_nat.simps [of n])
  next
    case False
    with 1 show ?thesis
      by (auto simp: str_nat.simps [of n] intro: exI [of _ "n mod 10"])
  qed
qed

lemma digit_char_not_minus: "d < 10 \<Longrightarrow> digit_char d \<noteq> CHR ''-''"
proof
  assume "d < 10" "digit_char d = CHR ''-''"
  then have "(of_char (CHR ''-'') :: nat) = 48 + d" by (metis of_digit_char)
  then show False by simp
qed

lemma str_nat_no_minus: "CHR ''-'' \<notin> set (str_nat n)"
  using digits_of_str_nat digit_char_not_minus by metis

lemma str_int_inject [simp]: "str_int i = str_int j \<longleftrightarrow> i = j"
proof -
  have [simp]: "CHR ''-'' # xs \<noteq> str_nat n" "str_nat n \<noteq> CHR ''-'' # xs" for xs n
    using str_nat_no_minus [of n] by (metis list.set_intros(1))+
  show ?thesis by (auto simp: str_int_def)
qed

section \<open>\<open>asyncio.Queue\<close>\<close>

text \<open>\<open>maxsize <= 0\<close> means an unbounded queue; \<open>put_nowait\<close> raises \<open>QueueFull\<close> on a full one.\<close>

record 'a aqueue =
  maxsize :: int
  items :: "'a list"

definition queue_new :: "int \<Rightarrow> 'a aqueue" where
  "queue_new n = \<lparr>maxsize = n, items = []\<rparr>"

definition queue_full :: "'a aqueue \<Rightarrow> bool" where
  "queue_full q \<longleftrightarrow> 0 < maxsize q \<and> maxsize q \<le> int (length (items q))"

definition put_nowait :: "'a \<Rightarrow> 'a aqueue \<Rightarrow> exn + 'a aqueue" where
  "put_nowait x q = (if queue_full q then Inl QueueFull else Inr (q\<lparr>items := items q @ [x]\<rparr>))"

text \<open>\<open>get\<close> waits while the queue is empty: \<open>None\<close>.\<close>

definition queue_get :: "'a aqueue \<Rightarrow> ('a \<times> 'a aqueue) option" where
  "queue_get q = (case items q of [] \<Rightarrow> None | x # xs \<Rightarrow> Some (x, q\<lparr>items := xs\<rparr>))"

definition queue_within :: "'a aqueue \<Rightarrow> bool" where
  "queue_within q \<longleftrightarrow> 0 < maxsize q \<longrightarrow> int (length (items q)) \<le> maxsize q"

lemma queue_within_new [simp]: "queue_within (queue_new n)"
  by (simp add: queue_within_def queue_new_def)

lemma queue_within_put: "put_nowait x q = Inr q' \<Longrightarrow> queue_within q'"
  by (auto simp: put_nowait_def queue_full_def queue_within_def split: if_splits)

lemma queue_within_get: "queue_get q = Some (x, q') \<Longrightarrow> queue_within q \<Longrightarrow> queue_within q'"
  by (auto simp: queue_get_def queue_within_def split: list.splits)

lemma put_nowait_maxsize: "put_nowait x q = Inr q' \<Longrightarrow> maxsize q' = maxsize q"
  by (auto simp: put_nowait_def split: if_splits)

end
