(* ===== verification/Uuid.thy ===== *)
theory Uuid
  imports Json
begin

text \<open>
  UUIDs as Python has them: \<open>UUID(s)\<close> reads the many spellings the constructor accepts and
  \<open>str(u)\<close> prints the canonical one. A UUID is its 128-bit number. The library's constructor
  removes \<open>urn:\<close>, \<open>uuid:\<close>, surrounding braces and all dashes, wants 32 characters and reads
  them with \<open>int(hex, 16)\<close>, which itself allows surrounding blanks, a sign, a \<open>0x\<close> prefix and
  single underscores between digits.
\<close>

datatype uuid = UUID_of nat

primrec uuid_int :: "uuid \<Rightarrow> nat" where
  "uuid_int (UUID_of n) = n"

section \<open>Printing\<close>

fun hex_digits :: "nat \<Rightarrow> nat \<Rightarrow> string" where
  "hex_digits 0 n = []"
| "hex_digits (Suc k) n = hex_digits k (n div 16) @ [hex_digit (n mod 16)]"

definition str_uuid :: "uuid \<Rightarrow> string" where
  "str_uuid u =
     (let h = hex_digits 32 (uuid_int u) in
      take 8 h @ ''-'' @ take 4 (drop 8 h) @ ''-'' @ take 4 (drop 12 h) @ ''-'' @
      take 4 (drop 16 h) @ ''-'' @ drop 20 h)"

section \<open>Reading\<close>

definition hex_value :: "char \<Rightarrow> nat option" where
  "hex_value c =
     (let n = (of_char c :: nat) in
      if 48 \<le> n \<and> n \<le> 57 then Some (n - 48)
      else if 97 \<le> n \<and> n \<le> 102 then Some (n - 87)
      else if 65 \<le> n \<and> n \<le> 70 then Some (n - 55)
      else None)"

text \<open>The digits after the first, an underscore allowed before each.\<close>

fun hex_tail :: "nat \<Rightarrow> string \<Rightarrow> nat option" where
  "hex_tail acc [] = Some acc"
| "hex_tail acc (c # cs) =
     (case hex_value c of
        Some v \<Rightarrow> hex_tail (16 * acc + v) cs
      | None \<Rightarrow>
          if c = CHR ''_'' then
            (case cs of
               [] \<Rightarrow> None
             | d # ds \<Rightarrow> (case hex_value d of None \<Rightarrow> None | Some v \<Rightarrow> hex_tail (16 * acc + v) ds))
          else None)"

definition hex_body :: "string \<Rightarrow> nat option" where
  "hex_body s =
     (case s of
        [] \<Rightarrow> None
      | c # cs \<Rightarrow> (case hex_value c of None \<Rightarrow> None | Some v \<Rightarrow> hex_tail v cs))"

definition hex_unprefixed :: "string \<Rightarrow> string" where
  "hex_unprefixed s =
     (case s of
        a # b # t \<Rightarrow>
          if a = CHR ''0'' \<and> (b = CHR ''x'' \<or> b = CHR ''X'') then
            (case t of [] \<Rightarrow> [] | c # t' \<Rightarrow> if c = CHR ''_'' then t' else t)
          else s
      | _ \<Rightarrow> s)"

text \<open>\<open>int(s, 16)\<close>.\<close>

definition int_base16 :: "string \<Rightarrow> int option" where
  "int_base16 s =
     (case strip s of
        [] \<Rightarrow> None
      | c # t \<Rightarrow>
          if c = CHR ''-'' then map_option (\<lambda>n. - int n) (hex_body (hex_unprefixed t))
          else if c = CHR ''+'' then map_option int (hex_body (hex_unprefixed t))
          else map_option int (hex_body (hex_unprefixed (c # t))))"

text \<open>\<open>s.replace(p, "")\<close>.\<close>

fun erase :: "string \<Rightarrow> string \<Rightarrow> string" where
  "erase p [] = []"
| "erase p (c # s) =
     (if p \<noteq> [] \<and> take (length p) (c # s) = p then erase p (drop (length p - 1) s) else c # erase p s)"

definition strip_braces :: "string \<Rightarrow> string" where
  "strip_braces s =
     (let brace = (\<lambda>c. c = CHR ''{'' \<or> c = CHR ''}'')
      in rev (dropWhile brace (rev (dropWhile brace s))))"

definition UUID :: "string \<Rightarrow> exn + uuid" where
  "UUID s =
     (let hex = erase ''-'' (strip_braces (erase ''uuid:'' (erase ''urn:'' s))) in
      if length hex \<noteq> 32 then Inl (ValueError ''badly formed hexadecimal UUID string'')
      else (case int_base16 hex of
              None \<Rightarrow> Inl (ValueError ''invalid literal for int() with base 16'')
            | Some i \<Rightarrow>
                if 0 \<le> i \<and> i < 2 ^ 128 then Inr (UUID_of (nat i))
                else Inl (ValueError ''int is out of range (need a 128-bit value)'')))"

text \<open>\<open>UUID(v)\<close> of a value that need not be a string.\<close>

fun UUID_json :: "json \<Rightarrow> exn + uuid" where
  "UUID_json (JStr s) = UUID s"
| "UUID_json JNull = Inl (TypeError ''one of the hex, bytes, bytes_le, fields, or int arguments must be given'')"
| "UUID_json _ = Inl (AttributeError ''replace'')"

section \<open>Round trip\<close>

lemma hex_value_digit: "d < 16 \<Longrightarrow> hex_value (hex_digit d) = Some d"
  by (cases "d < 10") (simp_all add: hex_value_def hex_digit_def Let_def)

lemma hex_value_cases: "hex_value c = Some v \<Longrightarrow> c \<notin> set ''-u{}_+xX ''"
  by (auto simp: hex_value_def)

lemma hex_tail_append: "hex_tail acc (xs @ [hex_digit d]) =
  (case hex_tail acc xs of None \<Rightarrow> None | Some v \<Rightarrow> Some (16 * v + d))"
  if "\<forall>c\<in>set xs. hex_value c \<noteq> None" "d < 16"
  using that(1)
proof (induction xs arbitrary: acc)
  case (Cons c xs)
  then show ?case by (auto split: option.split)
qed (simp add: hex_value_digit that(2))

lemma hex_digits_values: "c \<in> set (hex_digits k n) \<Longrightarrow> hex_value c \<noteq> None"
  by (induction k arbitrary: n) (auto simp: hex_value_digit)

lemma hex_tail_digits: "n < 16 ^ k \<Longrightarrow> hex_tail acc (hex_digits k n) = Some (acc * 16 ^ k + n)"
proof (induction k arbitrary: n)
  case (Suc k)
  then have "hex_tail acc (hex_digits k (n div 16)) = Some (acc * 16 ^ k + n div 16)"
    by (simp add: div_less_iff_less_mult mult.commute)
  then show ?case
    using hex_digits_values by (simp add: hex_tail_append)
qed simp

lemma length_hex_digits [simp]: "length (hex_digits k n) = k"
  by (induction k arbitrary: n) auto

lemma hex_body_digits:
  assumes "n < 16 ^ k" "0 < k" shows "hex_body (hex_digits k n) = Some n"
proof (cases "hex_digits k n")
  case Nil
  then show ?thesis using assms length_hex_digits [of k n] by simp
next
  case (Cons c cs)
  then obtain v where "hex_value c = Some v" using hex_digits_values [of c k n] by auto
  then have "hex_tail 0 (c # cs) = hex_tail v cs" by simp
  with Cons hex_tail_digits [OF assms(1), of 0] \<open>hex_value c = Some v\<close> show ?thesis
    by (simp add: hex_body_def)
qed

text \<open>Strings of hexadecimal digits have none of the characters the constructor treats specially.\<close>

lemma erase_absent: "hd p \<notin> set s \<Longrightarrow> p \<noteq> [] \<Longrightarrow> erase p s = s"
  by (induction s) (auto simp: neq_Nil_conv)

lemma erase_dash: "erase ''-'' s = filter (\<lambda>c. c \<noteq> CHR ''-'') s"
  by (induction s) auto

definition hexadecimal :: "string \<Rightarrow> bool" where
  "hexadecimal s \<longleftrightarrow> (\<forall>c\<in>set s. hex_value c \<noteq> None)"

lemma hexadecimal_digits: "hexadecimal (hex_digits k n)"
  using hex_digits_values by (auto simp: hexadecimal_def)

lemma hexadecimal_not: "hexadecimal s \<Longrightarrow> c \<in> set s \<Longrightarrow> c \<notin> set ''-u{}_+xX ''"
  using hex_value_cases unfolding hexadecimal_def by blast

lemma hex_not_space: "hex_value c \<noteq> None \<Longrightarrow> \<not> is_space c"
  by (auto simp: hex_value_def is_space_def Let_def split: if_splits)

lemma dropWhile_none: "\<forall>c\<in>set s. \<not> P c \<Longrightarrow> dropWhile P s = s"
  by (cases s) auto

lemma strip_hexadecimal: "hexadecimal s \<Longrightarrow> strip s = s"
  using hex_not_space by (simp add: strip_def hexadecimal_def dropWhile_none)

lemma hex_unprefixed_hexadecimal: "hexadecimal s \<Longrightarrow> hex_unprefixed s = s"
  using hexadecimal_not [of s] by (auto simp: hex_unprefixed_def split: list.splits)

lemma int_base16_hexadecimal:
  assumes "hexadecimal s" "s \<noteq> []" shows "int_base16 s = map_option int (hex_body s)"
proof -
  obtain c t where s: "s = c # t" using assms(2) by (cases s) auto
  then have "c \<noteq> CHR ''-''" "c \<noteq> CHR ''+''" using hexadecimal_not [OF assms(1), of c] by auto
  with s show ?thesis
    using strip_hexadecimal [OF assms(1)] hex_unprefixed_hexadecimal [OF assms(1)] by (simp add: int_base16_def)
qed

lemma dashes_removed:
  assumes "hexadecimal h" "length h = 32"
  shows "filter (\<lambda>c. c \<noteq> CHR ''-'') (take 8 h @ ''-'' @ take 4 (drop 8 h) @ ''-'' @ take 4 (drop 12 h) @ ''-'' @
      take 4 (drop 16 h) @ ''-'' @ drop 20 h) = h"
proof -
  have no: "filter (\<lambda>c. c \<noteq> CHR ''-'') xs = xs" if "set xs \<subseteq> set h" for xs
    using hexadecimal_not [OF assms(1)] that by (auto simp: filter_id_conv)
  have "take 4 (drop 16 h) @ drop 20 h = drop 16 h" "take 4 (drop 12 h) @ drop 16 h = drop 12 h"
    "take 4 (drop 8 h) @ drop 12 h = drop 8 h" "take 8 h @ drop 8 h = h"
    using append_take_drop_id [of 4 "drop 16 h"] append_take_drop_id [of 4 "drop 12 h"]
      append_take_drop_id [of 4 "drop 8 h"] append_take_drop_id [of 8 h] by simp_all
  then show ?thesis
    by (simp add: no set_take_subset set_drop_subset subset_trans [OF set_take_subset set_drop_subset])
qed

lemma str_uuid_digits: "filter (\<lambda>c. c \<noteq> CHR ''-'') (str_uuid (UUID_of n)) = hex_digits 32 n"
  unfolding str_uuid_def Let_def uuid_int.simps by (rule dashes_removed) (simp_all add: hexadecimal_digits)

lemma UUID_spelling:
  assumes "n < 2 ^ 128" and "filter (\<lambda>c. c \<noteq> CHR ''-'') s = hex_digits 32 n"
  shows "UUID s = Inr (UUID_of n)"
proof -
  let ?h = "hex_digits 32 n"
  have hex: "hexadecimal ?h" by (rule hexadecimal_digits)
  have n: "n < 16 ^ 32" using assms(1) by simp
  have val: "int_base16 ?h = Some (int n)"
    using int_base16_hexadecimal [OF hex] hex_body_digits [OF n] length_hex_digits [of 32 n]
    by (metis length_0_conv option.simps(9) zero_less_numeral zero_neq_numeral)
  have plain: "c \<notin> set ''u{}''" if "c \<in> set s" for c
  proof (cases "c = CHR ''-''")
    case False
    with that have "c \<in> set (filter (\<lambda>c. c \<noteq> CHR ''-'') s)" by simp
    with assms(2) have "c \<in> set ?h" by simp
    with hexadecimal_not [OF hex] show ?thesis by auto
  qed simp
  then have "erase ''uuid:'' (erase ''urn:'' s) = s" by (force simp: erase_absent)
  moreover have "strip_braces s = s"
    using plain by (force simp: strip_braces_def Let_def dropWhile_none)
  ultimately show ?thesis using val assms by (simp add: UUID_def erase_dash)
qed

text \<open>
  Printing a UUID and reading it back gives the same UUID, as does every spelling that differs
  only in where dashes stand.
\<close>

lemma UUID_str_uuid: "uuid_int u < 2 ^ 128 \<Longrightarrow> UUID (str_uuid u) = Inr u"
proof (cases u)
  case (UUID_of n)
  moreover assume "uuid_int u < 2 ^ 128"
  ultimately have "n < 2 ^ 128" by simp
  then have "UUID (str_uuid (UUID_of n)) = Inr (UUID_of n)"
    by (rule UUID_spelling) (rule str_uuid_digits)
  with UUID_of show ?thesis by simp
qed

end
