(* ===== verification/Database.thy ===== *)
theory Database
  imports Uuid
begin

text \<open>
  The ORM models (\<open>app/models\<close>, \<open>app/db/base.py\<close>) and the database session
  (\<open>app/db/session.py\<close>).

  SQLAlchemy and PostgreSQL are third-party, so a session is a parameter: the fields of a
  \<open>db_api\<close> on a state \<open>'d\<close>. A \<open>select\<close> statement is the function from the tables to the rows
  it denotes, which the services write out. \<open>db_add\<close> is \<open>db.add(obj)\<close> followed by
  \<open>db.flush()\<close>: it inserts the object with its generated defaults and returns it, or raises
  when a constraint of the tables forbids it. The locale \<open>database\<close> states what the program
  relies on; \<open>database_up\<close> adds that a call fails only for a reason in the data.
\<close>

section \<open>Models\<close>

datatype room_role = ADMIN | MEMBER

datatype message_type = TEXT | SYSTEM | IMAGE

fun role_value :: "room_role \<Rightarrow> string" where
  "role_value ADMIN = ''admin''"
| "role_value MEMBER = ''member''"

fun message_type_value :: "message_type \<Rightarrow> string" where
  "message_type_value TEXT = ''text''"
| "message_type_value SYSTEM = ''system''"
| "message_type_value IMAGE = ''image''"

record user =
  u_id :: uuid
  u_username :: string
  u_email :: string
  u_hashed_password :: string
  u_display_name :: "string option"
  u_is_active :: bool

record room =
  ro_id :: uuid
  ro_name :: string
  ro_description :: "string option"
  ro_is_private :: bool
  ro_created_by :: "uuid option"
  ro_created_at :: timestamp

record room_member =
  me_id :: uuid
  me_room_id :: uuid
  me_user_id :: uuid
  me_role :: room_role
  me_joined_at :: timestamp

record message =
  ms_id :: uuid
  ms_room_id :: uuid
  ms_sender_id :: "uuid option"
  ms_content :: string
  ms_message_type :: message_type
  ms_idempotency_key :: "string option"
  ms_created_at :: timestamp

record db_tables =
  users :: "user list"
  chat_rooms :: "room list"
  members :: "room_member list"
  messages :: "message list"

definition no_rows :: db_tables where
  "no_rows = \<lparr>users = [], chat_rooms = [], members = [], messages = []\<rparr>"

section \<open>Rows\<close>

datatype db_row =
    UserRow user
  | RoomRow room
  | MemberRow room_member
  | MessageRow message
  | CountRow nat
  | MemberUserRow room_member user
  | MessageUserRow message "user option"

text \<open>A new object before the defaults \<open>id\<close>, \<open>created_at\<close> and \<open>joined_at\<close> are generated.\<close>

datatype new_row =
    NewUser string string string "string option"
  | NewRoom string "string option" bool "uuid option"
  | NewMember uuid uuid room_role
  | NewMessage uuid "uuid option" string message_type "string option"

fun fill :: "uuid \<Rightarrow> timestamp \<Rightarrow> new_row \<Rightarrow> db_row" where
  "fill i t (NewUser username email pw display) =
     UserRow \<lparr>u_id = i, u_username = username, u_email = email, u_hashed_password = pw,
              u_display_name = display, u_is_active = True\<rparr>"
| "fill i t (NewRoom name description private creator) =
     RoomRow \<lparr>ro_id = i, ro_name = name, ro_description = description, ro_is_private = private,
              ro_created_by = creator, ro_created_at = t\<rparr>"
| "fill i t (NewMember rid uid role) =
     MemberRow \<lparr>me_id = i, me_room_id = rid, me_user_id = uid, me_role = role, me_joined_at = t\<rparr>"
| "fill i t (NewMessage rid sender content mtype key) =
     MessageRow \<lparr>ms_id = i, ms_room_id = rid, ms_sender_id = sender, ms_content = content,
                 ms_message_type = mtype, ms_idempotency_key = key, ms_created_at = t\<rparr>"

fun insert_row :: "db_row \<Rightarrow> db_tables \<Rightarrow> db_tables" where
  "insert_row (UserRow u) T = T\<lparr>users := users T @ [u]\<rparr>"
| "insert_row (RoomRow r) T = T\<lparr>chat_rooms := chat_rooms T @ [r]\<rparr>"
| "insert_row (MemberRow m) T = T\<lparr>members := members T @ [m]\<rparr>"
| "insert_row (MessageRow m) T = T\<lparr>messages := messages T @ [m]\<rparr>"
| "insert_row _ T = T"

fun delete_row :: "db_row \<Rightarrow> db_tables \<Rightarrow> db_tables" where
  "delete_row (MemberRow m) T = T\<lparr>members := filter (\<lambda>x. me_id x \<noteq> me_id m) (members T)\<rparr>"
| "delete_row _ T = T"

section \<open>Constraints\<close>

text \<open>Column widths: \<open>String(n)\<close> columns reject longer values.\<close>

definition fits :: "nat \<Rightarrow> string option \<Rightarrow> bool" where
  "fits n s \<longleftrightarrow> (case s of None \<Rightarrow> True | Some x \<Rightarrow> length x \<le> n)"

definition user_widths :: "string \<Rightarrow> string \<Rightarrow> string \<Rightarrow> string option \<Rightarrow> bool" where
  [simp]: "user_widths username email pw display \<longleftrightarrow>
     fits 50 (Some username) \<and> fits 255 (Some email) \<and> fits 255 (Some pw) \<and> fits 100 display"

definition room_widths :: "string \<Rightarrow> string option \<Rightarrow> bool" where
  [simp]: "room_widths name description \<longleftrightarrow> fits 100 (Some name) \<and> fits 500 description"

definition message_widths :: "string option \<Rightarrow> bool" where
  [simp]: "message_widths key \<longleftrightarrow> fits 100 key"

fun widths_ok :: "new_row \<Rightarrow> bool" where
  "widths_ok (NewUser username email pw display) \<longleftrightarrow> user_widths username email pw display"
| "widths_ok (NewRoom name description private creator) \<longleftrightarrow> room_widths name description"
| "widths_ok (NewMember rid uid role) \<longleftrightarrow> True"
| "widths_ok (NewMessage rid sender content mtype key) \<longleftrightarrow> message_widths key"

text \<open>Unique columns, \<open>UniqueConstraint("room_id", "user_id")\<close> and the foreign keys.\<close>

definition user_constraints :: "db_tables \<Rightarrow> string \<Rightarrow> string \<Rightarrow> bool" where
  [simp]: "user_constraints T username email \<longleftrightarrow>
     username \<notin> u_username ` set (users T) \<and> email \<notin> u_email ` set (users T)"

definition room_constraints :: "db_tables \<Rightarrow> uuid option \<Rightarrow> bool" where
  [simp]: "room_constraints T creator \<longleftrightarrow>
     (case creator of None \<Rightarrow> True | Some c \<Rightarrow> c \<in> u_id ` set (users T))"

definition member_constraints :: "db_tables \<Rightarrow> uuid \<Rightarrow> uuid \<Rightarrow> bool" where
  [simp]: "member_constraints T rid uid \<longleftrightarrow>
     rid \<in> ro_id ` set (chat_rooms T) \<and> uid \<in> u_id ` set (users T) \<and>
     (rid, uid) \<notin> (\<lambda>m. (me_room_id m, me_user_id m)) ` set (members T)"

definition message_constraints :: "db_tables \<Rightarrow> uuid \<Rightarrow> uuid option \<Rightarrow> string option \<Rightarrow> bool" where
  [simp]: "message_constraints T rid sender key \<longleftrightarrow>
     rid \<in> ro_id ` set (chat_rooms T) \<and>
     (case sender of None \<Rightarrow> True | Some s \<Rightarrow> s \<in> u_id ` set (users T)) \<and>
     (key \<noteq> None \<longrightarrow> key \<notin> ms_idempotency_key ` set (messages T))"

fun constraints_ok :: "db_tables \<Rightarrow> new_row \<Rightarrow> bool" where
  "constraints_ok T (NewUser username email pw display) \<longleftrightarrow> user_constraints T username email"
| "constraints_ok T (NewRoom name description private creator) \<longleftrightarrow> room_constraints T creator"
| "constraints_ok T (NewMember rid uid role) \<longleftrightarrow> member_constraints T rid uid"
| "constraints_ok T (NewMessage rid sender content mtype key) \<longleftrightarrow> message_constraints T rid sender key"

fun ids :: "db_tables \<Rightarrow> new_row \<Rightarrow> uuid set" where
  "ids T (NewUser _ _ _ _) = u_id ` set (users T)"
| "ids T (NewRoom _ _ _ _) = ro_id ` set (chat_rooms T)"
| "ids T (NewMember _ _ _) = me_id ` set (members T)"
| "ids T (NewMessage _ _ _ _ _) = ms_id ` set (messages T)"

section \<open>Sessions\<close>

record 'd db_api =
  db_execute :: "(db_tables \<Rightarrow> db_row list) \<Rightarrow> ('d, db_row list) eff"
  db_add :: "new_row \<Rightarrow> ('d, db_row) eff"
  db_delete :: "db_row \<Rightarrow> ('d, unit) eff"
  db_commit :: "('d, unit) eff"
  db_rollback :: "('d, unit) eff"

text \<open>
  \<open>view\<close> are the tables as the session sees them and \<open>stored\<close> the committed tables.
\<close>

locale database =
  fixes api :: "'d db_api" and view :: "'d \<Rightarrow> db_tables" and stored :: "'d \<Rightarrow> db_tables"
  assumes select: "db_execute api q d = (Inr rows, d') \<Longrightarrow> rows = q (view d) \<and> view d' = view d \<and> stored d' = stored d"
    and select_fail: "db_execute api q d = (Inl e, d') \<Longrightarrow> is_Exception e \<and> stored d' = stored d"
    and add: "db_add api x d = (Inr row, d') \<Longrightarrow>
      (\<exists>i t. row = fill i t x \<and> i \<notin> ids (view d) x) \<and> widths_ok x \<and> constraints_ok (view d) x
      \<and> view d' = insert_row row (view d) \<and> stored d' = stored d"
    and add_fail: "db_add api x d = (Inl e, d') \<Longrightarrow> is_Exception e \<and> stored d' = stored d"
    and delete: "db_delete api row d = (Inr u, d') \<Longrightarrow> view d' = delete_row row (view d) \<and> stored d' = stored d"
    and delete_fail: "db_delete api row d = (Inl e, d') \<Longrightarrow> is_Exception e \<and> stored d' = stored d"
    and commit: "db_commit api d = (Inr u, d') \<Longrightarrow> view d' = view d \<and> stored d' = view d"
    and commit_fail: "db_commit api d = (Inl e, d') \<Longrightarrow> is_Exception e \<and> stored d' = stored d"
    and rollback: "view (snd (db_rollback api d)) = stored d \<and> stored (snd (db_rollback api d)) = stored d"

locale database_up = database +
  assumes select_up: "\<exists>d'. db_execute api q d = (Inr (q (view d)), d')"
    and add_up: "widths_ok x \<Longrightarrow> constraints_ok (view d) x \<Longrightarrow> \<exists>row d'. db_add api x d = (Inr row, d')"
    and add_unique: "widths_ok x \<Longrightarrow> \<not> constraints_ok (view d) x \<Longrightarrow> \<exists>m d'. db_add api x d = (Inl (IntegrityError m), d')"
    and delete_up: "\<exists>d'. db_delete api row d = (Inr (), d')"
    and commit_up: "\<exists>d'. db_commit api d = (Inr (), d')"

text \<open>
  \<open>get_db_session\<close>: the body runs on a session, is committed when it returns and rolled back
  when it raises; \<open>close\<close> ends the session.
\<close>

definition with_session :: "'d db_api \<Rightarrow> ('d, 'a) eff \<Rightarrow> ('d, 'a) eff" where
  "with_session api body d =
     (case body d of
        (Inr x, d1) \<Rightarrow>
          (case db_commit api d1 of
             (Inr _, d2) \<Rightarrow> (Inr x, d2)
           | (Inl e, d2) \<Rightarrow> (Inl e, snd (db_rollback api d2)))
      | (Inl e, d1) \<Rightarrow> (Inl e, snd (db_rollback api d1)))"

text \<open>\<open>async with async_session_factory() as db\<close>: leaving the block discards what was not committed.\<close>

definition in_session :: "'d db_api \<Rightarrow> ('d, 'a) eff \<Rightarrow> ('d, 'a) eff" where
  "in_session api body d = (case body d of (r, d1) \<Rightarrow> (r, snd (db_rollback api d1)))"

section \<open>A database in memory\<close>

text \<open>Working tables, committed tables and the clock. A new row gets an identifier above all in use.\<close>

record mem_db_state =
  working :: db_tables
  committed :: db_tables
  db_clock :: timestamp

definition mem_db_init :: mem_db_state where
  "mem_db_init = \<lparr>working = no_rows, committed = no_rows, db_clock = 0\<rparr>"

definition used_ids :: "db_tables \<Rightarrow> nat list" where
  "used_ids T = map (\<lambda>u. uuid_int (u_id u)) (users T) @ map (\<lambda>r. uuid_int (ro_id r)) (chat_rooms T)
     @ map (\<lambda>m. uuid_int (me_id m)) (members T) @ map (\<lambda>m. uuid_int (ms_id m)) (messages T)"

definition fresh_id :: "db_tables \<Rightarrow> uuid" where
  "fresh_id T = UUID_of (Suc (sum_list (used_ids T)))"

definition mem_db :: "mem_db_state db_api" where
  "mem_db = \<lparr>
     db_execute = (\<lambda>q d. (Inr (q (working d)), d)),
     db_add = (\<lambda>x d.
       if \<not> widths_ok x then (Inl (DatabaseError ''value too long''), d)
       else if \<not> constraints_ok (working d) x then (Inl (IntegrityError ''constraint''), d)
       else let row = fill (fresh_id (working d)) (db_clock d) x
            in (Inr row, d\<lparr>working := insert_row row (working d), db_clock := db_clock d + 1\<rparr>)),
     db_delete = (\<lambda>row d. (Inr (), d\<lparr>working := delete_row row (working d)\<rparr>)),
     db_commit = (\<lambda>d. (Inr (), d\<lparr>committed := working d\<rparr>)),
     db_rollback = (\<lambda>d. (Inr (), d\<lparr>working := committed d\<rparr>))\<rparr>"

lemma ids_used: "i \<in> ids T x \<Longrightarrow> uuid_int i \<in> set (used_ids T)"
  by (cases x) (auto simp: used_ids_def)

lemma fresh_id_ids: "fresh_id T \<notin> ids T x"
proof
  assume "fresh_id T \<in> ids T x"
  then have "Suc (sum_list (used_ids T)) \<in> set (used_ids T)"
    using ids_used by (fastforce simp: fresh_id_def)
  then show False using member_le_sum_list [of "Suc (sum_list (used_ids T))" "used_ids T"] by simp
qed

lemma mem_db_add_Inr:
  assumes "db_add mem_db x d = (Inr row, d')"
  shows "row = fill (fresh_id (working d)) (db_clock d) x \<and> widths_ok x \<and> constraints_ok (working d) x
    \<and> working d' = insert_row row (working d) \<and> committed d' = committed d"
  using assms by (auto simp: mem_db_def Let_def split: if_splits)

interpretation mem_db: database_up mem_db working committed
proof unfold_locales
  fix x d row d' assume "db_add mem_db x d = (Inr row, d')"
  from mem_db_add_Inr [OF this]
  show "(\<exists>i t. row = fill i t x \<and> i \<notin> ids (working d) x) \<and> widths_ok x \<and> constraints_ok (working d) x
      \<and> working d' = insert_row row (working d) \<and> committed d' = committed d"
    using fresh_id_ids by blast
qed (auto simp: mem_db_def is_Exception_def Let_def split: if_splits)

end
