(* ===== verification/RoomService.thy ===== *)
theory RoomService
  imports Database Config
begin

text \<open>
  Rooms and membership (\<open>app/services/room_service.py\<close>, \<open>app/schemas/room.py\<close>).
  \<open>isoformat\<close> is \<open>datetime.isoformat()\<close>.
\<close>

section \<open>Statements\<close>

text \<open>A \<open>select\<close> whose rows all have one type.\<close>

definition select_as :: "'d db_api \<Rightarrow> (db_row \<Rightarrow> 'a option) \<Rightarrow> ('a \<Rightarrow> db_row) \<Rightarrow> (db_tables \<Rightarrow> 'a list) \<Rightarrow> ('d, 'a list) eff" where
  "select_as api dest wrap q =
     bindE (db_execute api (\<lambda>T. map wrap (q T))) (\<lambda>rows.
     (case those (map dest rows) of None \<Rightarrow> raise (TypeError ''row'') | Some xs \<Rightarrow> ret xs))"

fun dest_user :: "db_row \<Rightarrow> user option" where
  "dest_user (UserRow u) = Some u" | "dest_user _ = None"

fun dest_room :: "db_row \<Rightarrow> room option" where
  "dest_room (RoomRow r) = Some r" | "dest_room _ = None"

fun dest_member :: "db_row \<Rightarrow> room_member option" where
  "dest_member (MemberRow m) = Some m" | "dest_member _ = None"

fun dest_message :: "db_row \<Rightarrow> message option" where
  "dest_message (MessageRow m) = Some m" | "dest_message _ = None"

fun dest_count :: "db_row \<Rightarrow> nat option" where
  "dest_count (CountRow n) = Some n" | "dest_count _ = None"

fun dest_member_user :: "db_row \<Rightarrow> (room_member \<times> user) option" where
  "dest_member_user (MemberUserRow m u) = Some (m, u)" | "dest_member_user _ = None"

fun dest_message_user :: "db_row \<Rightarrow> (message \<times> user option) option" where
  "dest_message_user (MessageUserRow m u) = Some (m, u)" | "dest_message_user _ = None"

abbreviation select_users :: "'d db_api \<Rightarrow> (db_tables \<Rightarrow> user list) \<Rightarrow> ('d, user list) eff" where
  "select_users api \<equiv> select_as api dest_user UserRow"

abbreviation select_rooms :: "'d db_api \<Rightarrow> (db_tables \<Rightarrow> room list) \<Rightarrow> ('d, room list) eff" where
  "select_rooms api \<equiv> select_as api dest_room RoomRow"

abbreviation select_members :: "'d db_api \<Rightarrow> (db_tables \<Rightarrow> room_member list) \<Rightarrow> ('d, room_member list) eff" where
  "select_members api \<equiv> select_as api dest_member MemberRow"

abbreviation select_messages :: "'d db_api \<Rightarrow> (db_tables \<Rightarrow> message list) \<Rightarrow> ('d, message list) eff" where
  "select_messages api \<equiv> select_as api dest_message MessageRow"

text \<open>\<open>result.scalar_one_or_none()\<close>.\<close>

fun scalar_one_or_none :: "'a list \<Rightarrow> exn + 'a option" where
  "scalar_one_or_none [] = Inr None"
| "scalar_one_or_none [x] = Inr (Some x)"
| "scalar_one_or_none _ = Inl MultipleResultsFound"

text \<open>Adding an object and flushing gives back the row with its generated columns.\<close>

definition add_as :: "'d db_api \<Rightarrow> (db_row \<Rightarrow> 'a option) \<Rightarrow> new_row \<Rightarrow> ('d, 'a) eff" where
  "add_as api dest x = bindE (db_add api x) (\<lambda>row.
     (case dest row of None \<Rightarrow> raise (TypeError ''row'') | Some y \<Rightarrow> ret y))"

section \<open>Schemas\<close>

record room_create =
  rc_name :: string
  rc_description :: "string option"
  rc_is_private :: bool

record room_response =
  rr_id :: uuid
  rr_name :: string
  rr_description :: "string option"
  rr_is_private :: bool
  rr_created_by :: "uuid option"
  rr_created_at :: timestamp
  rr_member_count :: nat

definition RoomResponse :: "room \<Rightarrow> nat \<Rightarrow> room_response" where
  "RoomResponse r n = \<lparr>rr_id = ro_id r, rr_name = ro_name r, rr_description = ro_description r,
     rr_is_private = ro_is_private r, rr_created_by = ro_created_by r, rr_created_at = ro_created_at r,
     rr_member_count = n\<rparr>"

record room_list_response =
  rl_rooms :: "room_response list"
  rl_total :: nat

section \<open>The service\<close>

definition rooms_with_id :: "uuid \<Rightarrow> db_tables \<Rightarrow> room list" where
  "rooms_with_id rid T = filter (\<lambda>r. ro_id r = rid) (chat_rooms T)"

definition memberships_of :: "uuid \<Rightarrow> uuid \<Rightarrow> db_tables \<Rightarrow> room_member list" where
  "memberships_of rid uid T = filter (\<lambda>m. me_room_id m = rid \<and> me_user_id m = uid) (members T)"

text \<open>\<open>order_by(Room.created_at.desc())\<close>.\<close>

definition newest_first :: "room list \<Rightarrow> room list" where
  "newest_first rs = sort_key (\<lambda>r. - ro_created_at r) rs"

definition rs_create_room :: "'d db_api \<Rightarrow> room_create \<Rightarrow> uuid \<Rightarrow> ('d, room) eff" where
  "rs_create_room api req uid =
     bindE (add_as api dest_room (NewRoom (rc_name req) (rc_description req) (rc_is_private req) (Some uid))) (\<lambda>room.
     bindE (add_as api dest_member (NewMember (ro_id room) uid ADMIN)) (\<lambda>member.
     ret room))"

definition rs_get_room :: "'d db_api \<Rightarrow> uuid \<Rightarrow> ('d, room) eff" where
  "rs_get_room api rid =
     bindE (select_rooms api (rooms_with_id rid)) (\<lambda>rows.
     bindE (liftX (scalar_one_or_none rows)) (\<lambda>room.
     (case room of None \<Rightarrow> raise (NotFoundError ''Room'') | Some r \<Rightarrow> ret r)))"

text \<open>The loop that adds the member count to each room.\<close>

definition count_members :: "uuid \<Rightarrow> db_tables \<Rightarrow> nat" where
  "count_members rid T = length (filter (\<lambda>m. me_room_id m = rid) (members T))"

fun room_responses :: "'d db_api \<Rightarrow> room list \<Rightarrow> ('d, room_response list) eff" where
  "room_responses api [] = ret []"
| "room_responses api (r # rs) =
     bindE (select_as api dest_count CountRow (\<lambda>T. [count_members (ro_id r) T])) (\<lambda>ns.
     bindE (room_responses api rs) (\<lambda>rest.
     ret (RoomResponse r (case ns of [] \<Rightarrow> 0 | n # _ \<Rightarrow> n) # rest)))"

definition rs_list_user_rooms :: "'d db_api \<Rightarrow> uuid \<Rightarrow> ('d, room_response list) eff" where
  "rs_list_user_rooms api uid =
     bindE (select_rooms api (\<lambda>T. newest_first
       [r. r \<leftarrow> chat_rooms T, m \<leftarrow> members T, ro_id r = me_room_id m \<and> me_user_id m = uid])) (\<lambda>rooms.
     room_responses api rooms)"

definition rs_list_public_rooms :: "'d db_api \<Rightarrow> ('d, room_response list) eff" where
  "rs_list_public_rooms api =
     bindE (select_rooms api (\<lambda>T. newest_first (filter (\<lambda>r. \<not> ro_is_private r) (chat_rooms T)))) (\<lambda>rooms.
     room_responses api rooms)"

definition rs_join_room :: "'d db_api \<Rightarrow> uuid \<Rightarrow> uuid \<Rightarrow> ('d, room_member) eff" where
  "rs_join_room api rid uid =
     bindE (rs_get_room api rid) (\<lambda>room.
     bindE (select_members api (memberships_of rid uid)) (\<lambda>rows.
     bindE (liftX (scalar_one_or_none rows)) (\<lambda>existing.
     if existing \<noteq> None then raise (ConflictError ''Already a member of this room'')
     else add_as api dest_member (NewMember rid uid MEMBER))))"

definition rs_leave_room :: "'d db_api \<Rightarrow> uuid \<Rightarrow> uuid \<Rightarrow> ('d, unit) eff" where
  "rs_leave_room api rid uid =
     bindE (select_members api (memberships_of rid uid)) (\<lambda>rows.
     bindE (liftX (scalar_one_or_none rows)) (\<lambda>member.
     (case member of
        None \<Rightarrow> raise (NotFoundError ''Room membership'')
      | Some m \<Rightarrow> db_delete api (MemberRow m))))"

definition rs_is_member :: "'d db_api \<Rightarrow> uuid \<Rightarrow> uuid \<Rightarrow> ('d, bool) eff" where
  "rs_is_member api rid uid =
     bindE (select_members api (memberships_of rid uid)) (\<lambda>rows.
     bindE (liftX (scalar_one_or_none rows)) (\<lambda>member. ret (member \<noteq> None)))"

definition member_entry :: "(timestamp \<Rightarrow> string) \<Rightarrow> room_member \<times> user \<Rightarrow> json" where
  "member_entry isoformat mu = (case mu of (m, u) \<Rightarrow>
     JObj [(''user_id'', JStr (str_uuid (u_id u))), (''username'', JStr (u_username u)),
           (''display_name'', case u_display_name u of None \<Rightarrow> JNull | Some n \<Rightarrow> JStr n),
           (''role'', JStr (role_value (me_role m))), (''joined_at'', JStr (isoformat (me_joined_at m)))])"

definition member_users :: "uuid \<Rightarrow> db_tables \<Rightarrow> (room_member \<times> user) list" where
  "member_users rid T = sort_key (\<lambda>(m, u). me_joined_at m)
     [(m, u). m \<leftarrow> members T, u \<leftarrow> users T, me_user_id m = u_id u \<and> me_room_id m = rid]"

definition rs_get_room_members :: "'d db_api \<Rightarrow> (timestamp \<Rightarrow> string) \<Rightarrow> uuid \<Rightarrow> ('d, json list) eff" where
  "rs_get_room_members api isoformat rid =
     bindE (select_as api dest_member_user (\<lambda>(m, u). MemberUserRow m u) (member_users rid)) (\<lambda>rows.
     ret (map (member_entry isoformat) rows))"

section \<open>Consistent tables\<close>

text \<open>What the constraints of the tables guarantee at every moment: foreign keys and unique columns.\<close>

definition references_ok :: "db_tables \<Rightarrow> bool" where
  "references_ok T \<longleftrightarrow>
     (\<forall>r\<in>set (chat_rooms T). ro_created_by r \<in> insert None (Some ` u_id ` set (users T))) \<and>
     (\<forall>m\<in>set (members T). me_room_id m \<in> ro_id ` set (chat_rooms T) \<and> me_user_id m \<in> u_id ` set (users T)) \<and>
     (\<forall>m\<in>set (messages T). ms_room_id m \<in> ro_id ` set (chat_rooms T)
        \<and> ms_sender_id m \<in> insert None (Some ` u_id ` set (users T)))"

definition tables_ok :: "db_tables \<Rightarrow> bool" where
  "tables_ok T \<longleftrightarrow> references_ok T \<and>
     distinct (map u_id (users T)) \<and> distinct (map u_username (users T)) \<and> distinct (map u_email (users T)) \<and>
     distinct (map ro_id (chat_rooms T)) \<and>
     distinct (map me_id (members T)) \<and> distinct (map (\<lambda>m. (me_room_id m, me_user_id m)) (members T)) \<and>
     distinct (map ms_id (messages T)) \<and>
     distinct (filter (\<lambda>k. k \<noteq> None) (map ms_idempotency_key (messages T)))"

lemma tables_ok_empty: "tables_ok no_rows"
  by (simp add: tables_ok_def references_ok_def no_rows_def)

lemma tables_ok_insert:
  assumes "tables_ok T" "constraints_ok T x" "i \<notin> ids T x"
  shows "tables_ok (insert_row (fill i t x) T)"
  using assms by (cases x) (auto simp: tables_ok_def references_ok_def split: option.splits)

lemma tables_ok_delete: "tables_ok T \<Longrightarrow> tables_ok (delete_row row T)"
  by (cases row) (auto simp: tables_ok_def references_ok_def distinct_map_filter)

lemma filter_unique:
  "distinct (map f xs) \<Longrightarrow> x \<in> set xs \<Longrightarrow> filter (\<lambda>y. f y = f x) xs = [x]"
proof (induction xs)
  case (Cons y ys)
  then show ?case by (cases "x = y") (auto simp: filter_empty_conv image_iff)
qed simp

lemma filter_key_cases:
  assumes "distinct (map f xs)"
  obtains "filter (\<lambda>y. f y = k) xs = []" "k \<notin> f ` set xs"
  | x where "filter (\<lambda>y. f y = k) xs = [x]" "x \<in> set xs" "f x = k"
proof (cases "k \<in> f ` set xs")
  case True
  then obtain x where "x \<in> set xs" "f x = k" by auto
  with filter_unique [OF assms, of x] show thesis by (intro that(2)) auto
next
  case False
  then show thesis by (intro that(1)) (auto simp: filter_empty_conv)
qed

lemma those_map_dest: "(\<And>x. dest (wrap x) = Some x) \<Longrightarrow> those (map dest (map wrap xs)) = Some xs"
  by (induction xs) auto

text \<open>Who is a member of which room.\<close>

definition memberships :: "db_tables \<Rightarrow> (uuid \<times> uuid) set" where
  "memberships T = (\<lambda>m. (me_room_id m, me_user_id m)) ` set (members T)"

context database_up begin

lemma select_as_runs:
  assumes "\<And>x. dest (wrap x) = Some x"
  obtains d' where "select_as api dest wrap q d = (Inr (q (view d)), d')" "view d' = view d" "stored d' = stored d"
proof -
  obtain d' where "db_execute api (\<lambda>T. map wrap (q T)) d = (Inr (map wrap (q (view d))), d')"
    using select_up by blast
  moreover from this have "view d' = view d" "stored d' = stored d" by (auto dest: select)
  moreover have "those (map dest (map wrap (q (view d)))) = Some (q (view d))"
    by (rule those_map_dest) (rule assms)
  ultimately show thesis by (intro that [of d']) (simp_all only: select_as_def bindE_def prod.case sum.case option.case ret_apply)
qed

lemma rs_get_room_runs:
  assumes "tables_ok (view d)"
  obtains d' where "view d' = view d" "stored d' = stored d"
    and "rs_get_room api rid d = (case rooms_with_id rid (view d) of [] \<Rightarrow> Inl (NotFoundError ''Room'') | r # _ \<Rightarrow> Inr r, d')"
proof -
  obtain d' where d': "select_rooms api (rooms_with_id rid) d = (Inr (rooms_with_id rid (view d)), d')"
    "view d' = view d" "stored d' = stored d"
    by (rule select_as_runs [of dest_room RoomRow "rooms_with_id rid" d]) auto
  have "distinct (map ro_id (chat_rooms (view d)))" using assms by (simp add: tables_ok_def)
  then show thesis
    by (rule filter_key_cases [where k = rid])
      (use d' in \<open>auto intro!: that [of d'] simp: rs_get_room_def bindE_def rooms_with_id_def\<close>)
qed

lemma memberships_of_cases:
  assumes "tables_ok T"
  obtains "memberships_of rid uid T = []" "(rid, uid) \<notin> memberships T"
  | m where "memberships_of rid uid T = [m]" "m \<in> set (members T)" "me_room_id m = rid" "me_user_id m = uid"
proof -
  have "distinct (map (\<lambda>m. (me_room_id m, me_user_id m)) (members T))" using assms by (simp add: tables_ok_def)
  then show thesis
    by (rule filter_key_cases [where k = "(rid, uid)"])
      (auto intro: that simp: memberships_of_def memberships_def)
qed

lemma select_memberships:
  obtains d' where "select_members api (memberships_of rid uid) d = (Inr (memberships_of rid uid (view d)), d')"
    "view d' = view d" "stored d' = stored d"
  by (rule select_as_runs [of dest_member MemberRow "memberships_of rid uid" d]) auto

lemma rs_is_member_runs:
  assumes "tables_ok (view d)"
  obtains d' where "rs_is_member api rid uid d = (Inr ((rid, uid) \<in> memberships (view d)), d')"
    "view d' = view d" "stored d' = stored d"
proof -
  obtain d' where d': "select_members api (memberships_of rid uid) d = (Inr (memberships_of rid uid (view d)), d')"
    "view d' = view d" "stored d' = stored d" by (rule select_memberships)
  show thesis
  proof (cases rule: memberships_of_cases [OF assms, of rid uid])
    case 1
    with d' show thesis by (intro that [of d']) (simp_all add: rs_is_member_def bindE_def)
  next
    case (2 m)
    then have "(rid, uid) \<in> memberships (view d)" by (auto simp: memberships_def)
    with 2 d' show thesis by (intro that [of d']) (simp_all add: rs_is_member_def bindE_def)
  qed
qed

lemma add_as_runs:
  assumes "widths_ok x" "constraints_ok (view d) x" and "\<And>i t. \<exists>y. dest (fill i t x) = Some y"
  obtains i t y d' where "add_as api dest x d = (Inr y, d')" "dest (fill i t x) = Some y" "i \<notin> ids (view d) x"
    "view d' = insert_row (fill i t x) (view d)" "stored d' = stored d"
proof -
  obtain row d' where run: "db_add api x d = (Inr row, d')" using add_up [OF assms(1,2)] by blast
  from add [OF run] obtain i t where "row = fill i t x" "i \<notin> ids (view d) x" "view d' = insert_row row (view d)"
    "stored d' = stored d" by blast
  moreover obtain y where "dest (fill i t x) = Some y" using assms(3) by blast
  ultimately show thesis using run by (intro that [of y d' i t]) (simp_all add: add_as_def bindE_def)
qed

lemma rooms_with_id_Nil: "rooms_with_id rid T = [] \<longleftrightarrow> rid \<notin> ro_id ` set (chat_rooms T)"
  by (auto simp: rooms_with_id_def filter_empty_conv)

lemma rs_join_room_outcome:
  assumes ok: "tables_ok (view d)" and user: "uid \<in> u_id ` set (users (view d))"
    and run: "rs_join_room api rid uid d = (res, d')"
  shows "if rid \<notin> ro_id ` set (chat_rooms (view d)) then res = Inl (NotFoundError ''Room'') \<and> view d' = view d
    else if (rid, uid) \<in> memberships (view d) then
      res = Inl (ConflictError ''Already a member of this room'') \<and> view d' = view d
    else (\<exists>m. res = Inr m \<and> me_role m = MEMBER) \<and> memberships (view d') = insert (rid, uid) (memberships (view d))
      \<and> tables_ok (view d')"
proof (cases "rooms_with_id rid (view d)")
  case Nil
  then have "rid \<notin> ro_id ` set (chat_rooms (view d))" by (simp add: rooms_with_id_Nil)
  moreover have "res = Inl (NotFoundError ''Room'')" "view d' = view d"
    by (rule rs_get_room_runs [OF ok, of rid]; use run Nil in \<open>simp add: rs_join_room_def bindE_def\<close>)+
  ultimately show ?thesis by simp
next
  case (Cons r rs)
  then have room: "rid \<in> ro_id ` set (chat_rooms (view d))" using rooms_with_id_Nil [of rid "view d"] by auto
  obtain d1 where d1: "rs_get_room api rid d = (Inr r, d1)" "view d1 = view d"
    by (rule rs_get_room_runs [OF ok, of rid]) (use Cons in auto)
  obtain d2 where d2: "select_members api (memberships_of rid uid) d1 = (Inr (memberships_of rid uid (view d)), d2)"
    "view d2 = view d" using select_memberships [of rid uid d1] d1(2) by metis
  show ?thesis
  proof (cases rule: memberships_of_cases [OF ok, of rid uid])
    case 1
    let ?x = "NewMember rid uid MEMBER"
    obtain i t y d3 where d3: "add_as api dest_member ?x d2 = (Inr y, d3)" "dest_member (fill i t ?x) = Some y"
      "i \<notin> ids (view d2) ?x" "view d3 = insert_row (fill i t ?x) (view d2)"
      by (rule add_as_runs [of ?x d2 dest_member]) (use room user 1 d2(2) in \<open>auto simp: memberships_def\<close>)
    with run d1 d2 1 have "res = Inr y" "d' = d3" by (simp_all add: rs_join_room_def bindE_def)
    moreover have "tables_ok (view d3)"
      unfolding d3(4) by (rule tables_ok_insert) (use ok d2 d3(3) room user 1 in \<open>auto simp: memberships_def\<close>)
    ultimately show ?thesis using d3 d2(2) room 1 by (auto simp: memberships_def)
  next
    case (2 m)
    then have "(rid, uid) \<in> memberships (view d)" by (auto simp: memberships_def)
    with 2 run d1 d2 room show ?thesis by (auto simp: rs_join_room_def bindE_def)
  qed
qed

lemma rs_leave_room_outcome:
  assumes ok: "tables_ok (view d)" and run: "rs_leave_room api rid uid d = (res, d')"
  shows "if (rid, uid) \<in> memberships (view d) then
      res = Inr () \<and> memberships (view d') = memberships (view d) - {(rid, uid)} \<and> tables_ok (view d')
    else res = Inl (NotFoundError ''Room membership'') \<and> view d' = view d"
proof -
  obtain d1 where d1: "select_members api (memberships_of rid uid) d = (Inr (memberships_of rid uid (view d)), d1)"
    "view d1 = view d" by (rule select_memberships)
  show ?thesis
  proof (cases rule: memberships_of_cases [OF ok, of rid uid])
    case 1
    with run d1 show ?thesis by (auto simp: rs_leave_room_def bindE_def)
  next
    case (2 m)
    obtain d2 where d2: "db_delete api (MemberRow m) d1 = (Inr (), d2)" using delete_up by blast
    have v2: "view d2 = delete_row (MemberRow m) (view d)" using delete [OF d2] d1(2) by simp
    have ids: "me_id x = me_id m \<longleftrightarrow> x = m" and pairs: "(me_room_id x, me_user_id x) = (rid, uid) \<longleftrightarrow> x = m"
      if "x \<in> set (members (view d))" for x
      using ok 2 that by (auto simp: tables_ok_def distinct_map inj_on_def)
    have "memberships (view d2) = (\<lambda>m. (me_room_id m, me_user_id m)) ` {x \<in> set (members (view d)). x \<noteq> m}"
      using ids by (auto simp: v2 memberships_def)
    also have "\<dots> = memberships (view d) - {(rid, uid)}"
      using pairs by (force simp: memberships_def)
    finally have "memberships (view d2) = memberships (view d) - {(rid, uid)}" .
    moreover have "(rid, uid) \<in> memberships (view d)" using 2 by (auto simp: memberships_def)
    moreover have "res = Inr ()" "d' = d2" using run d1 d2 2 by (simp_all add: rs_leave_room_def bindE_def)
    ultimately show ?thesis using tables_ok_delete [OF ok, of "MemberRow m"] v2 by simp
  qed
qed

end

section \<open>Properties\<close>

text \<open>
  Joining a room through the API has exactly three outcomes: an unknown room is reported
  with status 404 and a second join with status 409, both leaving the tables unchanged, and
  otherwise the user, and nobody else, becomes a member. Rooms marked private are no exception.
\<close>

theorem room_join_exact:
  assumes "database_up api view stored" and "tables_ok (view d)" and "uid \<in> u_id ` set (users (view d))"
    and "rs_join_room api rid uid d = (res, d')"
  shows "if rid \<notin> ro_id ` set (chat_rooms (view d)) then res = Inl (NotFoundError ''Room'') \<and> view d' = view d
    else if (rid, uid) \<in> memberships (view d) then
      res = Inl (ConflictError ''Already a member of this room'') \<and> view d' = view d
    else (\<exists>m. res = Inr m \<and> me_role m = MEMBER) \<and> memberships (view d') = insert (rid, uid) (memberships (view d))
      \<and> tables_ok (view d')"
  using assms by (rule database_up.rs_join_room_outcome)

text \<open>Two users and a private room of the first.\<close>

definition sample_tables :: db_tables where
  "sample_tables = \<lparr>
     users = [\<lparr>u_id = UUID_of 1, u_username = ''ann'', u_email = ''a@x.org'', u_hashed_password = ''h1'',
               u_display_name = None, u_is_active = True\<rparr>,
              \<lparr>u_id = UUID_of 2, u_username = ''bob'', u_email = ''b@x.org'', u_hashed_password = ''h2'',
               u_display_name = None, u_is_active = True\<rparr>],
     chat_rooms = [\<lparr>ro_id = UUID_of 3, ro_name = ''den'', ro_description = None, ro_is_private = True,
                    ro_created_by = Some (UUID_of 1), ro_created_at = 0\<rparr>],
     members = [\<lparr>me_id = UUID_of 4, me_room_id = UUID_of 3, me_user_id = UUID_of 1, me_role = ADMIN, me_joined_at = 0\<rparr>],
     messages = []\<rparr>"

definition sample_db :: mem_db_state where
  "sample_db = \<lparr>working = sample_tables, committed = sample_tables, db_clock = 1\<rparr>"

lemma sample_ok: "tables_ok sample_tables"
  by (simp add: tables_ok_def references_ok_def sample_tables_def)

theorem room_join_exact_witness:
  "memberships (working (snd (rs_join_room mem_db (UUID_of 3) (UUID_of 2) sample_db)))
     = insert (UUID_of 3, UUID_of 2) (memberships sample_tables)"
  using room_join_exact [OF mem_db.database_up_axioms, of sample_db "UUID_of 2" "UUID_of 3"
      "fst (rs_join_room mem_db (UUID_of 3) (UUID_of 2) sample_db)" "snd (rs_join_room mem_db (UUID_of 3) (UUID_of 2) sample_db)"]
    sample_ok
  by (simp add: sample_db_def sample_tables_def memberships_def)

text \<open>
  Leaving a room removes exactly that membership, and is reported with status 404 and no
  change when there is none. Joining and then leaving restores the membership relation.
\<close>

theorem room_leave_exact:
  assumes "database_up api view stored" and "tables_ok (view d)"
    and "rs_leave_room api rid uid d = (res, d')"
  shows "if (rid, uid) \<in> memberships (view d) then
      res = Inr () \<and> memberships (view d') = memberships (view d) - {(rid, uid)} \<and> tables_ok (view d')
    else res = Inl (NotFoundError ''Room membership'') \<and> view d' = view d"
  using assms by (rule database_up.rs_leave_room_outcome)

theorem room_leave_exact_witness:
  "memberships (working (snd (rs_leave_room mem_db (UUID_of 3) (UUID_of 1) sample_db))) = {}"
  using room_leave_exact [OF mem_db.database_up_axioms, of sample_db "UUID_of 3" "UUID_of 1"
      "fst (rs_leave_room mem_db (UUID_of 3) (UUID_of 1) sample_db)" "snd (rs_leave_room mem_db (UUID_of 3) (UUID_of 1) sample_db)"]
    sample_ok
  by (simp add: sample_db_def sample_tables_def memberships_def)

context database begin

lemma add_as_cases:
  assumes "\<And>i t. \<exists>y. dest (fill i t x) = Some y"
  obtains e d' where "add_as api dest x d = (Inl e, d')" "stored d' = stored d"
  | i t y d' where "add_as api dest x d = (Inr y, d')" "dest (fill i t x) = Some y" "constraints_ok (view d) x"
    "i \<notin> ids (view d) x" "view d' = insert_row (fill i t x) (view d)" "stored d' = stored d"
proof (cases "db_add api x d")
  case (Pair res d')
  show thesis
  proof (cases res)
    case (Inl e)
    with Pair add_fail show thesis by (intro that(1) [of e d']) (auto simp: add_as_def bindE_def)
  next
    case (Inr row)
    with Pair add obtain i t where "row = fill i t x" "i \<notin> ids (view d) x" "constraints_ok (view d) x"
      "view d' = insert_row row (view d)" "stored d' = stored d" by blast
    moreover obtain y where "dest (fill i t x) = Some y" using assms by blast
    ultimately show thesis using Pair Inr by (intro that(2) [of y d' i t]) (simp_all add: add_as_def bindE_def)
  qed
qed

lemma with_session_Inl:
  "with_session api body d = (Inl e, d') \<Longrightarrow> stored (snd (body d)) = stored d \<Longrightarrow> stored d' = stored d"
  by (auto simp: with_session_def rollback dest: commit_fail split: prod.splits sum.splits)

lemma with_session_Inr:
  assumes "with_session api body d = (Inr x, d')"
  shows "fst (body d) = Inr x \<and> stored d' = view (snd (body d))"
  using assms by (auto simp: with_session_def dest: commit split: prod.splits sum.splits)

lemma rs_create_room_cases:
  obtains e d' where "rs_create_room api req uid d = (Inl e, d')" "stored d' = stored d"
  | room m d' where "rs_create_room api req uid d = (Inr room, d')" "stored d' = stored d"
    "ro_id room \<notin> ro_id ` set (chat_rooms (view d))" "ro_name room = rc_name req" "ro_is_private room = rc_is_private req"
    "ro_created_by room = Some uid" "me_room_id m = ro_id room" "me_user_id m = uid" "me_role m = ADMIN"
    "view d' = (view d)\<lparr>chat_rooms := chat_rooms (view d) @ [room], members := members (view d) @ [m]\<rparr>"
proof -
  let ?x = "NewRoom (rc_name req) (rc_description req) (rc_is_private req) (Some uid)"
  have x: "\<exists>y. dest_room (fill i t ?x) = Some y" for i t by simp
  have m: "\<exists>y. dest_member (fill i t (NewMember rid uid ADMIN)) = Some y" for i t rid by simp
  show thesis
  proof (cases rule: add_as_cases [of dest_room ?x d, OF x])
    case (1 e d')
    then show thesis by (intro that(1) [of e d']) (simp_all add: rs_create_room_def bindE_def)
  next
    case first: (2 i t room d1)
    show thesis
    proof (cases rule: add_as_cases [of dest_member "NewMember (ro_id room) uid ADMIN" d1, OF m])
      case (1 e d')
      with first show thesis by (intro that(1) [of e d']) (simp_all add: rs_create_room_def bindE_def)
    next
      case (2 j s m d2)
      with first show thesis by (intro that(2) [of room d2 m]) (auto simp: rs_create_room_def bindE_def)
    qed
  qed
qed

end

text \<open>
  Creating a room is all or nothing: in its session, either the request fails and the
  stored tables are as before, or the stored tables gain one new room and one membership that
  makes its creator the admin.
\<close>

theorem room_create_atomic:
  assumes "database api view stored" and "with_session api (rs_create_room api req uid) d = (res, d')"
  shows "case res of
      Inl e \<Rightarrow> stored d' = stored d
    | Inr room \<Rightarrow> \<exists>m. me_room_id m = ro_id room \<and> me_user_id m = uid \<and> me_role m = ADMIN
        \<and> ro_id room \<notin> ro_id ` set (chat_rooms (view d)) \<and> ro_name room = rc_name req
        \<and> stored d' = (view d)\<lparr>chat_rooms := chat_rooms (view d) @ [room], members := members (view d) @ [m]\<rparr>"
proof (cases res)
  case (Inl e)
  have "stored (snd (rs_create_room api req uid d)) = stored d"
    by (rule database.rs_create_room_cases [OF assms(1), of req uid d]) auto
  with assms Inl database.with_session_Inl [OF assms(1)] show ?thesis by auto
next
  case (Inr room)
  have "fst (rs_create_room api req uid d) = Inr room \<and> stored d' = view (snd (rs_create_room api req uid d))"
    by (rule database.with_session_Inr [OF assms(1) assms(2) [unfolded Inr]])
  then show ?thesis
    unfolding Inr by (rule_tac database.rs_create_room_cases [OF assms(1), of req uid d]) auto
qed

theorem room_create_atomic_witness:
  "\<exists>m. me_user_id m = UUID_of 2 \<and> me_role m = ADMIN \<and>
     m \<in> set (members (committed (snd (with_session mem_db
       (rs_create_room mem_db \<lparr>rc_name = ''new'', rc_description = None, rc_is_private = False\<rparr> (UUID_of 2)) sample_db))))"
proof -
  let ?run = "with_session mem_db
       (rs_create_room mem_db \<lparr>rc_name = ''new'', rc_description = None, rc_is_private = False\<rparr> (UUID_of 2)) sample_db"
  have "\<not> isl (fst ?run)" by code_simp
  then obtain room where "fst ?run = Inr room" by (cases "fst ?run") auto
  then have run: "?run = (Inr room, snd ?run)" by (simp add: prod_eq_iff)
  have "working sample_db = sample_tables" by (simp add: sample_db_def)
  with room_create_atomic [OF mem_db.database_axioms run]
  obtain m where "me_user_id m = UUID_of 2" "me_role m = ADMIN"
    "committed (snd ?run) = sample_tables\<lparr>chat_rooms := chat_rooms sample_tables @ [room], members := members sample_tables @ [m]\<rparr>"
    by auto
  then show ?thesis by auto
qed

end
