(* ===== verification/MessageService.thy ===== *)
theory MessageService
  imports RoomService "HOL-Library.Multiset"
begin

text \<open>
  Message persistence and history (\<open>app/services/message_service.py\<close>,
  \<open>app/schemas/message.py\<close>). \<open>isoformat\<close> and \<open>fromisoformat\<close> are the methods of
  \<open>datetime\<close>; \<open>fromisoformat\<close> is \<open>None\<close> where Python raises \<open>ValueError\<close>.
\<close>

section \<open>Saving\<close>

text \<open>The value bound to the column \<open>idempotency_key\<close>: a string or \<open>NULL\<close>, the driver rejects anything else.\<close>

fun key_param :: "json \<Rightarrow> exn + string option" where
  "key_param JNull = Inr None"
| "key_param (JStr s) = Inr (Some s)"
| "key_param _ = Inl (DatabaseError ''invalid input for query argument'')"

definition messages_with_key :: "string option \<Rightarrow> db_tables \<Rightarrow> message list" where
  "messages_with_key key T = filter (\<lambda>m. key \<noteq> None \<and> ms_idempotency_key m = key) (messages T)"

text \<open>\<open>db.add(message)\<close>, \<open>flush\<close> and \<open>refresh\<close>.\<close>

definition ms_insert :: "'d db_api \<Rightarrow> uuid \<Rightarrow> uuid option \<Rightarrow> string \<Rightarrow> message_type \<Rightarrow> json \<Rightarrow> ('d, message) eff" where
  "ms_insert api rid sender content mtype key =
     bindE (liftX (key_param key)) (\<lambda>k. add_as api dest_message (NewMessage rid sender content mtype k))"

definition ms_save_message :: "'d db_api \<Rightarrow> uuid \<Rightarrow> uuid \<Rightarrow> string \<Rightarrow> message_type \<Rightarrow> json \<Rightarrow> ('d, message) eff" where
  "ms_save_message api rid sender content mtype key =
     (if truthy key then
        bindE (liftX (key_param key)) (\<lambda>k.
        bindE (select_messages api (messages_with_key k)) (\<lambda>rows.
        bindE (liftX (scalar_one_or_none rows)) (\<lambda>existing.
        (case existing of
           Some m \<Rightarrow> ret m
         | None \<Rightarrow> ms_insert api rid (Some sender) content mtype key))))
      else ms_insert api rid (Some sender) content mtype key)"

definition ms_save_system_message :: "'d db_api \<Rightarrow> uuid \<Rightarrow> string \<Rightarrow> ('d, message) eff" where
  "ms_save_system_message api rid content = ms_insert api rid None content SYSTEM JNull"

section \<open>History\<close>

record message_response =
  mr_id :: uuid
  mr_room_id :: uuid
  mr_sender_id :: "uuid option"
  mr_sender_username :: "string option"
  mr_content :: string
  mr_message_type :: message_type
  mr_created_at :: timestamp

definition MessageResponse :: "message \<times> user option \<Rightarrow> message_response" where
  "MessageResponse mu = (case mu of (m, u) \<Rightarrow>
     \<lparr>mr_id = ms_id m, mr_room_id = ms_room_id m, mr_sender_id = ms_sender_id m,
      mr_sender_username = map_option u_username u, mr_content = ms_content m,
      mr_message_type = ms_message_type m, mr_created_at = ms_created_at m\<rparr>)"

record message_list_response =
  ml_messages :: "message_response list"
  ml_has_more :: bool
  ml_next_cursor :: "string option"

text \<open>\<open>outerjoin(User, Message.sender_id == User.id)\<close>.\<close>

definition with_sender :: "db_tables \<Rightarrow> message \<Rightarrow> (message \<times> user option) list" where
  "with_sender T m =
     (case filter (\<lambda>u. Some (u_id u) = ms_sender_id m) (users T) of
        [] \<Rightarrow> [(m, None)]
      | us \<Rightarrow> map (\<lambda>u. (m, Some u)) us)"

text \<open>The statement: room, cursor, newest first, at most \<open>n\<close> rows.\<close>

definition history_query :: "uuid \<Rightarrow> timestamp option \<Rightarrow> nat \<Rightarrow> db_tables \<Rightarrow> (message \<times> user option) list" where
  "history_query rid cursor n T =
     take n (sort_key (\<lambda>(m, u). - ms_created_at m)
       (concat (map (with_sender T)
         (filter (\<lambda>m. ms_room_id m = rid \<and> (case cursor of None \<Rightarrow> True | Some c \<Rightarrow> ms_created_at m < c))
           (messages T)))))"

text \<open>An empty or unreadable cursor is ignored.\<close>

definition cursor_of :: "(string \<Rightarrow> timestamp option) \<Rightarrow> string option \<Rightarrow> timestamp option" where
  "cursor_of fromisoformat before =
     (case before of None \<Rightarrow> None | Some s \<Rightarrow> if s = [] then None else fromisoformat s)"

definition ms_get_room_messages ::
  "'d db_api \<Rightarrow> (timestamp \<Rightarrow> string) \<Rightarrow> (string \<Rightarrow> timestamp option) \<Rightarrow> uuid \<Rightarrow> nat \<Rightarrow> string option \<Rightarrow> ('d, message_list_response) eff" where
  "ms_get_room_messages api isoformat fromisoformat rid limit0 before =
     (let limit = min limit0 100 in
      bindE (select_as api dest_message_user (\<lambda>(m, u). MessageUserRow m u)
               (history_query rid (cursor_of fromisoformat before) (limit + 1))) (\<lambda>rows.
      let has_more = length rows > limit;
          rows1 = (if has_more then take limit rows else rows);
          msgs = rev (map MessageResponse rows1)
      in ret \<lparr>ml_messages = msgs, ml_has_more = has_more,
              ml_next_cursor = (if has_more then (case msgs of [] \<Rightarrow> None | m # _ \<Rightarrow> Some (isoformat (mr_created_at m)))
                                else None)\<rparr>))"

section \<open>Idempotency\<close>

lemma distinct_map_filter_key:
  assumes "distinct (filter (\<lambda>k. k \<noteq> None) (map f xs))"
  shows "distinct (map f (filter (\<lambda>x. f x \<noteq> None) xs))"
  using assms by (simp add: filter_map comp_def)

lemma messages_with_key_cases:
  assumes "tables_ok T"
  obtains "messages_with_key (Some k) T = []" "Some k \<notin> ms_idempotency_key ` set (messages T)"
  | m where "messages_with_key (Some k) T = [m]" "m \<in> set (messages T)" "ms_idempotency_key m = Some k"
proof -
  let ?xs = "filter (\<lambda>m. ms_idempotency_key m \<noteq> None) (messages T)"
  have dist: "distinct (map ms_idempotency_key ?xs)"
    by (rule distinct_map_filter_key) (use assms in \<open>simp add: tables_ok_def\<close>)
  have eq: "messages_with_key (Some k) T = filter (\<lambda>m. ms_idempotency_key m = Some k) ?xs"
    by (auto simp: messages_with_key_def intro: filter_cong)
  show thesis
  proof (cases rule: filter_key_cases [OF dist, of "Some k"])
    case 1
    then have "ms_idempotency_key m \<noteq> Some k" if "m \<in> set (messages T)" for m using that by force
    then have "Some k \<notin> ms_idempotency_key ` set (messages T)" by (metis imageE)
    with 1(1) eq show thesis by (intro that(1)) simp_all
  next
    case (2 m)
    with eq show thesis by (intro that(2) [of m]) auto
  qed
qed

context database_up begin

lemma select_with_key:
  obtains d' where "select_messages api (messages_with_key k) d = (Inr (messages_with_key k (view d)), d')"
    "view d' = view d" "stored d' = stored d"
  by (rule select_as_runs [of dest_message MessageRow "messages_with_key k" d]) auto

lemma save_existing:
  assumes "messages_with_key (Some k) (view d) = [m]" and "k \<noteq> []"
  obtains d' where "ms_save_message api rid sender content mtype (JStr k) d = (Inr m, d')" "view d' = view d"
proof -
  obtain d' where "select_messages api (messages_with_key (Some k)) d = (Inr [m], d')" "view d' = view d"
    using select_with_key [of "Some k" d] assms(1) by metis
  with assms(2) show thesis by (intro that [of d']) (simp_all add: ms_save_message_def bindE_def)
qed

lemma save_new:
  assumes "messages_with_key (Some k) (view d) = []" and "k \<noteq> []"
    and "ms_save_message api rid sender content mtype (JStr k) d = (Inr m, d')"
  shows "ms_idempotency_key m = Some k \<and> view d' = (view d)\<lparr>messages := messages (view d) @ [m]\<rparr>
    \<and> ms_id m \<notin> ms_id ` set (messages (view d)) \<and> constraints_ok (view d) (NewMessage rid (Some sender) content mtype (Some k))"
proof -
  let ?x = "NewMessage rid (Some sender) content mtype (Some k)"
  obtain d1 where d1: "select_messages api (messages_with_key (Some k)) d = (Inr [], d1)" "view d1 = view d"
    using select_with_key [of "Some k" d] assms(1) by metis
  with assms(2,3) have run: "add_as api dest_message ?x d1 = (Inr m, d')"
    by (simp add: ms_save_message_def ms_insert_def bindE_def)
  have x: "\<exists>y. dest_message (fill i t ?x) = Some y" for i t by simp
  show ?thesis
    by (cases rule: add_as_cases [of dest_message ?x d1, OF x]) (use run d1 in auto)
qed

end



section \<open>Pagination\<close>

text \<open>All rows of a room in the order of time.\<close>

definition row_time :: "message \<times> user option \<Rightarrow> timestamp" where
  "row_time p = ms_created_at (fst p)"

definition room_rows :: "uuid \<Rightarrow> db_tables \<Rightarrow> (message \<times> user option) list" where
  "room_rows rid T = concat (map (with_sender T) (filter (\<lambda>m. ms_room_id m = rid) (messages T)))"

definition chronicle :: "uuid \<Rightarrow> db_tables \<Rightarrow> (message \<times> user option) list" where
  "chronicle rid T = sort_key row_time (room_rows rid T)"

definition before_cursor :: "timestamp option \<Rightarrow> message \<times> user option \<Rightarrow> bool" where
  "before_cursor cursor p \<longleftrightarrow> (case cursor of None \<Rightarrow> True | Some c \<Rightarrow> row_time p < c)"

lemma concat_map_filter:
  assumes "\<And>x y. y \<in> set (g x) \<Longrightarrow> Q y = P x"
  shows "concat (map g (filter P xs)) = filter Q (concat (map g xs))"
  using assms by (induction xs) (auto simp: filter_empty_conv filter_id_conv intro!: sym [OF filter_True])

lemma with_sender_fst: "p \<in> set (with_sender T m) \<Longrightarrow> fst p = m"
  by (auto simp: with_sender_def split: list.splits)

lemma sort_desc:
  assumes "inj_on f (set xs)"
  shows "sort_key (\<lambda>x. - f x :: timestamp) xs = rev (sort_key f xs)"
proof (rule sort_key_inj_key_eq)
  show "inj_on (\<lambda>x. - f x) (set xs)" using assms by (auto simp: inj_on_def)
  have "sorted (map f (sort_key f xs))" by (rule sorted_sort_key)
  then show "sorted (map (\<lambda>x. - f x) (rev (sort_key f xs)))"
    by (simp add: sorted_wrt_rev sorted_wrt_map rev_map [symmetric])
qed simp

lemma history_query_eq:
  "history_query rid cursor n T = take n (sort_key (\<lambda>p. - row_time p) (filter (before_cursor cursor) (room_rows rid T)))"
proof -
  let ?P = "\<lambda>m. case cursor of None \<Rightarrow> True | Some c \<Rightarrow> ms_created_at m < c"
  have "concat (map (with_sender T) (filter (\<lambda>m. ms_room_id m = rid \<and> ?P m) (messages T)))
      = concat (map (with_sender T) (filter ?P (filter (\<lambda>m. ms_room_id m = rid) (messages T))))"
    by (simp add: conj_commute)
  also have "\<dots> = filter (before_cursor cursor) (room_rows rid T)"
    unfolding room_rows_def
    by (rule concat_map_filter) (auto simp: before_cursor_def row_time_def dest: with_sender_fst split: option.split)
  finally have rows: "concat (map (with_sender T) (filter (\<lambda>m. ms_room_id m = rid \<and> ?P m) (messages T)))
      = filter (before_cursor cursor) (room_rows rid T)" .
  have "(\<lambda>(m, u). - ms_created_at m) = (\<lambda>p. - row_time p)" by (auto simp: row_time_def)
  with rows show ?thesis by (simp add: history_query_def)
qed

lemma history_query_rows:
  assumes "inj_on row_time (set (room_rows rid T))"
  shows "history_query rid cursor n T = take n (rev (filter (before_cursor cursor) (chronicle rid T)))"
proof -
  have "inj_on row_time (set (filter (before_cursor cursor) (room_rows rid T)))"
    using assms by (rule inj_on_subset) auto
  then show ?thesis by (simp add: history_query_eq sort_desc chronicle_def filter_sort)
qed

lemma chronicle_increasing:
  assumes "distinct (map row_time (room_rows rid T))"
  shows "sorted_wrt (<) (map row_time (chronicle rid T))"
proof -
  have "distinct (map row_time (chronicle rid T))"
    using assms by (metis chronicle_def distinct_map mset_sort set_sort distinct_sort)
  then show ?thesis by (simp add: chronicle_def strict_sorted_iff)
qed

lemma filter_below:
  fixes f :: "'a \<Rightarrow> 'b::linorder"
  assumes "sorted_wrt (<) (map f xs)" and "j < length xs"
  shows "filter (\<lambda>x. f x < f (xs ! j)) xs = take j xs"
proof -
  have "\<forall>x\<in>set (take j xs). f x < f (xs ! j)"
    using assms by (auto simp: in_set_conv_nth sorted_wrt_iff_nth_less)
  moreover have "\<forall>x\<in>set (drop j xs). \<not> f x < f (xs ! j)"
  proof
    fix x assume "x \<in> set (drop j xs)"
    then obtain i where i: "j + i < length xs" "x = xs ! (j + i)"
      by (auto simp: in_set_conv_nth less_diff_conv) (metis add.commute)
    show "\<not> f x < f (xs ! j)"
    proof (cases i)
      case (Suc i')
      then have "f (xs ! j) < f (xs ! (j + i))" using assms i(1) by (auto simp: sorted_wrt_iff_nth_less)
      with i show ?thesis by simp
    qed (use i in simp)
  qed
  ultimately have "filter (\<lambda>x. f x < f (xs ! j)) (take j xs @ drop j xs) = take j xs @ []"
    unfolding filter_append by (metis (no_types, lifting) filter_False filter_True)
  then show ?thesis by simp
qed

text \<open>The rows of a page and the rows before its cursor are apart.\<close>

lemma mset_filter_split: "mset (filter P xs) + mset (filter (\<lambda>x. \<not> P x) xs) = mset xs"
  by (induction xs) auto

lemma page_split:
  fixes f :: "'a \<Rightarrow> timestamp"
  assumes "0 < l" "l < length (sort_key (\<lambda>x. - f x) xs)"
  defines "Q \<equiv> sort_key (\<lambda>x. - f x) xs" and "c \<equiv> f (sort_key (\<lambda>x. - f x) xs ! (l - 1))"
  shows "\<forall>x\<in>set (take l Q). c \<le> f x" and "mset (take l Q) \<subseteq># mset (filter (\<lambda>x. \<not> f x < c) xs)"
    and "length (filter (\<lambda>x. f x < c) xs) < length xs"
proof -
  have srt: "sorted (map (\<lambda>x. - f x) Q)" by (simp add: Q_def)
  show ge: "\<forall>x\<in>set (take l Q). c \<le> f x"
  proof
    fix x assume "x \<in> set (take l Q)"
    then obtain i where "i < l" "i < length Q" "x = Q ! i" by (auto simp: in_set_conv_nth)
    with assms(1,2) sorted_nth_mono [OF srt, of i "l - 1"] show "c \<le> f x" by (simp add: c_def Q_def)
  qed
  have "filter (\<lambda>x. \<not> f x < c) (take l Q) = take l Q" using ge by (intro filter_True) auto
  moreover have "mset (filter (\<lambda>x. \<not> f x < c) (take l Q)) \<subseteq># mset (filter (\<lambda>x. \<not> f x < c) xs)"
    by (metis Q_def append_take_drop_id filter_append mset_append mset_filter mset_sort mset_subset_eq_add_left)
  ultimately show "mset (take l Q) \<subseteq># mset (filter (\<lambda>x. \<not> f x < c) xs)" by simp
  have "Q ! (l - 1) \<in> set Q" by (rule nth_mem) (use assms(2) in \<open>simp add: Q_def\<close>)
  then show "length (filter (\<lambda>x. f x < c) xs) < length xs"
    by (intro length_filter_less [of "Q ! (l - 1)"]) (simp_all add: Q_def c_def)
qed

text \<open>
  A client that follows the cursors from the newest page back, with at most \<open>n\<close> requests;
  \<open>None\<close> when they do not suffice.
\<close>

fun fetch_pages ::
  "'d db_api \<Rightarrow> (timestamp \<Rightarrow> string) \<Rightarrow> (string \<Rightarrow> timestamp option) \<Rightarrow> uuid \<Rightarrow> nat \<Rightarrow> nat \<Rightarrow> string option \<Rightarrow>
   ('d, message_response list option) eff" where
  "fetch_pages api iso_f from_f rid limit 0 before = ret None"
| "fetch_pages api iso_f from_f rid limit (Suc n) before =
     bindE (ms_get_room_messages api iso_f from_f rid limit before) (\<lambda>page.
     (case ml_next_cursor page of
        None \<Rightarrow> ret (Some (ml_messages page))
      | Some c \<Rightarrow>
          bindE (fetch_pages api iso_f from_f rid limit n (Some c)) (\<lambda>older.
          ret (map_option (\<lambda>ms. ms @ ml_messages page) older))))"

context database_up begin

lemma get_page:
  assumes inj: "inj_on row_time (set (room_rows rid (view d)))"
    and cur: "filter (before_cursor (cursor_of from_f before)) (chronicle rid (view d)) = take k (chronicle rid (view d))"
    and "k \<le> length (chronicle rid (view d))" "1 \<le> limit0"
  defines "A \<equiv> chronicle rid (view d)" and "limit \<equiv> min limit0 100"
  obtains page d' where "ms_get_room_messages api iso_f from_f rid limit0 before d = (Inr page, d')" "view d' = view d"
    and "ml_messages page = map MessageResponse (drop (k - limit) (take k A))"
    and "ml_next_cursor page = (if limit < k then Some (iso_f (row_time (A ! (k - limit)))) else None)"
proof -
  let ?q = "history_query rid (cursor_of from_f before) (limit + 1)"
  have rows: "?q (view d) = take (limit + 1) (rev (take k A))"
    using history_query_rows [OF inj] cur by (simp add: A_def)
  obtain d' where d': "select_as api dest_message_user (\<lambda>(m, u). MessageUserRow m u) ?q d = (Inr (?q (view d)), d')"
    "view d' = view d"
    by (rule select_as_runs [of dest_message_user "\<lambda>(m, u). MessageUserRow m u" ?q d]) auto
  have k: "length (take k A) = k" using assms(3) by (simp add: A_def)
  let ?rows = "take (limit + 1) (rev (take k A))"
  let ?page = "\<lparr>ml_messages = map MessageResponse (drop (k - limit) (take k A)), ml_has_more = limit < k,
     ml_next_cursor = (if limit < k then Some (iso_f (row_time (A ! (k - limit)))) else None)\<rparr>"
  have more: "limit < length ?rows \<longleftrightarrow> limit < k" using k by auto
  have cut: "rev (if limit < length ?rows then take limit ?rows else ?rows) = drop (k - limit) (take k A)"
  proof (cases "limit < k")
    case True
    have "rev (take limit (rev B)) = drop (length B - limit) B" for B :: "(message \<times> user option) list"
      by (simp add: rev_take)
    from this [of "take k A"] True more k show ?thesis by (simp only: if_True take_take min_def) simp
  next
    case False
    with more k show ?thesis by simp
  qed
  have first: "(case map MessageResponse (drop (k - limit) (take k A)) of [] \<Rightarrow> None | m # _ \<Rightarrow> Some (iso_f (mr_created_at m)))
      = Some (iso_f (row_time (A ! (k - limit))))" if "limit < k"
  proof -
    have "k - limit < k" using that assms(4) by (simp add: limit_def)
    then have "drop (k - limit) (take k A) = A ! (k - limit) # drop (Suc (k - limit)) (take k A)"
      using k by (metis Cons_nth_drop_Suc nth_take)
    then show ?thesis by (simp add: MessageResponse_def row_time_def split_beta)
  qed
  have "ms_get_room_messages api iso_f from_f rid limit0 before d = (Inr ?page, d')"
    unfolding ms_get_room_messages_def limit_def [symmetric] Let_def bindE_def d'(1) rows rev_map [symmetric]
      prod.case sum.case ret_apply
    by (simp only: rev_map cut) (simp only: more first cong: if_cong)
  then show thesis by (rule that [OF _ d'(2)]) simp_all
qed

lemma history_runs:
  obtains page d' where "ms_get_room_messages api iso_f from_f rid n before d = (Inr page, d')"
proof -
  let ?q = "history_query rid (cursor_of from_f before) (min n 100 + 1)"
  obtain d' where "select_as api dest_message_user (\<lambda>(m, u). MessageUserRow m u) ?q d = (Inr (?q (view d)), d')"
    by (rule select_as_runs [of dest_message_user "\<lambda>(m, u). MessageUserRow m u" ?q d]) auto
  then show thesis using that by (simp only: ms_get_room_messages_def Let_def bindE_def prod.case sum.case ret_apply)
qed

lemma fetch_pages_complete:
  assumes "distinct (map row_time (room_rows rid (view d)))"
    and iso_ok: "\<And>t. iso_f t \<noteq> [] \<and> from_f (iso_f t) = Some t" and "1 \<le> limit"
    and "filter (before_cursor (cursor_of from_f before)) (chronicle rid (view d)) = take k (chronicle rid (view d))"
    and "k \<le> length (chronicle rid (view d))" "k < n"
  shows "fst (fetch_pages api iso_f from_f rid limit n before d) = Inr (Some (map MessageResponse (take k (chronicle rid (view d)))))"
  using assms(1,4-)
proof (induction n arbitrary: before k d)
  case (Suc n)
  let ?A = "chronicle rid (view d)" and ?l = "min limit 100"
  have inj: "inj_on row_time (set (room_rows rid (view d)))" using Suc.prems(1) by (simp add: distinct_map)
  obtain page d' where page: "ms_get_room_messages api iso_f from_f rid limit before d = (Inr page, d')" "view d' = view d"
    "ml_messages page = map MessageResponse (drop (k - ?l) (take k ?A))"
    "ml_next_cursor page = (if ?l < k then Some (iso_f (row_time (?A ! (k - ?l)))) else None)"
    by (rule get_page [OF inj Suc.prems(2,3) assms(3)])
  show ?case
  proof (cases "?l < k")
    case False
    then have "k - ?l = 0" by auto
    with False page show ?thesis by (simp add: bindE_def)
  next
    case True
    let ?c = "iso_f (row_time (?A ! (k - ?l)))"
    have lt: "k - ?l < length ?A" using True Suc.prems(3) assms(3) by auto
    have "filter (before_cursor (cursor_of from_f (Some ?c))) ?A = take (k - ?l) ?A"
      using filter_below [OF chronicle_increasing [OF Suc.prems(1)] lt] iso_ok
      by (simp add: cursor_of_def before_cursor_def [abs_def])
    then have "fst (fetch_pages api iso_f from_f rid limit n (Some ?c) d')
        = Inr (Some (map MessageResponse (take (k - ?l) ?A)))"
      using Suc.IH [of d' "Some ?c" "k - ?l"] Suc.prems lt True assms(3) page(2) by simp
    then obtain d'' where "fetch_pages api iso_f from_f rid limit n (Some ?c) d'
        = (Inr (Some (map MessageResponse (take (k - ?l) ?A))), d'')" by (metis prod.collapse)
    moreover have "take (k - ?l) ?A @ drop (k - ?l) (take k ?A) = take k ?A"
      by (metis append_take_drop_id diff_le_self min.absorb2 min.commute take_take)
    ultimately show ?thesis using page True
      by (simp add: bindE_def flip: map_append)
  qed
qed simp

text \<open>A page in general: the newest rows before the cursor, oldest first.\<close>

lemma any_page:
  fixes rid from_f before d limit0
  defines "Q \<equiv> sort_key (\<lambda>p. - row_time p) (filter (before_cursor (cursor_of from_f before)) (room_rows rid (view d)))"
    and "limit \<equiv> min limit0 100"
  obtains page d' where "ms_get_room_messages api iso_f from_f rid limit0 before d = (Inr page, d')" "view d' = view d"
    and "ml_messages page = map MessageResponse (rev (take limit Q))"
    and "ml_next_cursor page = (if limit < length Q \<and> limit \<noteq> 0 then Some (iso_f (row_time (Q ! (limit - 1)))) else None)"
proof -
  let ?q = "history_query rid (cursor_of from_f before) (limit + 1)"
  obtain d' where d': "select_as api dest_message_user (\<lambda>(m, u). MessageUserRow m u) ?q d = (Inr (?q (view d)), d')"
    "view d' = view d"
    by (rule select_as_runs [of dest_message_user "\<lambda>(m, u). MessageUserRow m u" ?q d]) auto
  have rows: "?q (view d) = take (limit + 1) Q" by (simp add: history_query_eq Q_def)
  let ?page = "\<lparr>ml_messages = map MessageResponse (rev (take limit Q)), ml_has_more = limit < length Q,
     ml_next_cursor = (if limit < length Q \<and> limit \<noteq> 0 then Some (iso_f (row_time (Q ! (limit - 1)))) else None)\<rparr>"
  have more: "limit < length (take (limit + 1) Q) \<longleftrightarrow> limit < length Q" by auto
  have cut: "(if limit < length Q then take limit (take (limit + 1) Q) else take (limit + 1) Q) = take limit Q" by simp
  have first: "(case map MessageResponse (rev (take limit Q)) of [] \<Rightarrow> None | m # _ \<Rightarrow> Some (iso_f (mr_created_at m)))
      = (if limit \<noteq> 0 then Some (iso_f (row_time (Q ! (limit - 1)))) else None)" if "limit < length Q"
  proof (cases limit)
    case (Suc n)
    with that have "take limit Q = take n Q @ [Q ! n]" by (simp add: take_Suc_conv_app_nth)
    with Suc show ?thesis by (simp add: MessageResponse_def row_time_def split_beta)
  qed simp
  have "ms_get_room_messages api iso_f from_f rid limit0 before d = (Inr ?page, d')"
    unfolding ms_get_room_messages_def limit_def [symmetric] Let_def bindE_def d'(1) rows rev_map [symmetric]
      prod.case sum.case ret_apply more cut
    by (simp only: rev_map) (simp add: first)
  then show thesis by (rule that [OF _ d'(2)]) simp_all
qed

lemma fetch_pages_ends:
  assumes iso_ok: "\<And>t. iso_f t \<noteq> [] \<and> from_f (iso_f t) = Some t"
    and "length (filter (before_cursor (cursor_of from_f before)) (room_rows rid (view d))) < n"
  shows "\<exists>rows. fst (fetch_pages api iso_f from_f rid limit n before d) = Inr (Some (map MessageResponse rows))
    \<and> sorted (map row_time rows) \<and> mset rows \<subseteq># mset (filter (before_cursor (cursor_of from_f before)) (room_rows rid (view d)))"
  using assms(2)
proof (induction n arbitrary: before d)
  case (Suc n)
  let ?B = "filter (before_cursor (cursor_of from_f before)) (room_rows rid (view d))" and ?l = "min limit 100"
  let ?Q = "sort_key (\<lambda>p. - row_time p) ?B"
  obtain page d' where page: "ms_get_room_messages api iso_f from_f rid limit before d = (Inr page, d')" "view d' = view d"
    "ml_messages page = map MessageResponse (rev (take ?l ?Q))"
    "ml_next_cursor page = (if ?l < length ?Q \<and> ?l \<noteq> 0 then Some (iso_f (row_time (?Q ! (?l - 1)))) else None)"
    by (rule any_page)
  have "sorted_wrt (\<lambda>x y. - row_time x \<le> - row_time y) (take ?l ?Q)"
    using sorted_sort_key [of "\<lambda>p. - row_time p" ?B] by (simp add: sorted_wrt_map sorted_wrt_take)
  then have srt: "sorted (map row_time (rev (take ?l ?Q)))" by (simp add: sorted_wrt_rev sorted_wrt_map rev_map [symmetric])
  show ?case
  proof (cases "?l < length ?Q \<and> ?l \<noteq> 0")
    case False
    have "mset (rev (take ?l ?Q)) \<subseteq># mset ?B"
      by (metis append_take_drop_id mset_append mset_rev mset_sort mset_subset_eq_add_left)
    moreover have "ml_next_cursor page = None" using page(4) False by (simp only: if_False)
    then have "fst (fetch_pages api iso_f from_f rid limit (Suc n) before d) = Inr (Some (map MessageResponse (rev (take ?l ?Q))))"
      by (simp add: bindE_def page(1,3))
    ultimately show ?thesis using srt by blast
  next
    case True
    let ?c = "row_time (?Q ! (?l - 1))"
    have "0 < ?l" "?l < length ?Q" using True by auto
    note split = page_split [OF this]
    have lt: "?c \<le> row_time x" if "x \<in> set (take ?l ?Q)" for x using split(1) that by blast
    have below: "row_time x < ?c \<Longrightarrow> before_cursor (cursor_of from_f before) x" for x
    proof -
      have "?Q ! (?l - 1) \<in> set ?Q" by (rule nth_mem) (use True in auto)
      then have "before_cursor (cursor_of from_f before) (?Q ! (?l - 1))" by simp
      then show "row_time x < ?c \<Longrightarrow> before_cursor (cursor_of from_f before) x" by (auto simp: before_cursor_def split: option.splits)
    qed
    have next_rows: "filter (before_cursor (cursor_of from_f (Some (iso_f ?c)))) (room_rows rid (view d')) = filter (\<lambda>x. row_time x < ?c) ?B"
    proof -
      have "cursor_of from_f (Some (iso_f ?c)) = Some ?c" using iso_ok [of ?c] by (simp only: cursor_of_def option.case if_False simp_thms)
      then have "before_cursor (cursor_of from_f (Some (iso_f ?c))) = (\<lambda>x. before_cursor (cursor_of from_f before) x \<and> row_time x < ?c)"
        using below by (auto simp only: before_cursor_def option.case fun_eq_iff)
      then show ?thesis by (simp only: filter_filter page(2) conj_commute)
    qed
    have "length (filter (before_cursor (cursor_of from_f (Some (iso_f ?c)))) (room_rows rid (view d'))) < n"
      unfolding next_rows using split(3) Suc.prems by linarith
    from Suc.IH [OF this] obtain old where old: "fst (fetch_pages api iso_f from_f rid limit n (Some (iso_f ?c)) d') = Inr (Some (map MessageResponse old))"
      "sorted (map row_time old)" "mset old \<subseteq># mset (filter (\<lambda>x. row_time x < ?c) ?B)" unfolding next_rows by blast
    obtain d'' where run: "fetch_pages api iso_f from_f rid limit n (Some (iso_f ?c)) d' = (Inr (Some (map MessageResponse old)), d'')"
      using old(1) by (metis prod.collapse)
    have "row_time x < ?c" if "x \<in> set old" for x
      using mset_subset_eqD [OF old(3), of x] that by simp
    with lt have "sorted (map row_time (old @ rev (take ?l ?Q)))"
      using old(2) srt by (fastforce simp: sorted_append)
    moreover have "mset (old @ rev (take ?l ?Q)) \<subseteq># mset ?B"
      using subset_mset.add_mono [OF old(3) split(2)] by (simp only: mset_filter_split mset_append mset_rev)
    moreover have "ml_next_cursor page = Some (iso_f ?c)" using page(4) True by (simp only: if_True simp_thms)
    then have "fst (fetch_pages api iso_f from_f rid limit (Suc n) before d) = Inr (Some (map MessageResponse (old @ rev (take ?l ?Q))))"
      by (simp add: bindE_def page(1,3) run del: One_nat_def)
    ultimately show ?thesis by blast
  qed
qed simp

end

text \<open>
  C19. Following the cursors from the newest page back gives the whole history of a room, each
  message once and in the order of time, when no two messages of the room carry the same time
  stamp: pages overlap nowhere and leave nothing out.
\<close>

theorem pagination_complete:
  assumes "database_up api view stored"
    and "\<And>t. isoformat t \<noteq> [] \<and> fromisoformat (isoformat t) = Some t"
    and "distinct (map row_time (room_rows rid (view d)))" and "1 \<le> limit"
  shows "fst (fetch_pages api isoformat fromisoformat rid limit (Suc (length (room_rows rid (view d)))) None d)
    = Inr (Some (map MessageResponse (chronicle rid (view d))))"
proof -
  let ?A = "chronicle rid (view d)"
  have "filter (before_cursor (cursor_of fromisoformat None)) ?A = take (length ?A) ?A"
    by (simp add: cursor_of_def before_cursor_def [abs_def])
  from database_up.fetch_pages_complete [OF assms(1,3,2,4) this, of "Suc (length (room_rows rid (view d)))"]
  show ?thesis by (simp add: chronicle_def)
qed

text \<open>A time written in unary, numerator and denominator, and read back.\<close>

definition unary_iso :: "timestamp \<Rightarrow> string" where
  "unary_iso t = (case quotient_of t of (a, b) \<Rightarrow>
     (if a < 0 then CHR ''-'' else CHR ''+'') # replicate (nat \<bar>a\<bar>) CHR ''1'' @ CHR ''/'' # replicate (nat b) CHR ''1'')"

definition unary_from :: "string \<Rightarrow> timestamp option" where
  "unary_from s =
     (case s of
        [] \<Rightarrow> None
      | c # r \<Rightarrow>
          let n = length (takeWhile (\<lambda>x. x = CHR ''1'') r); m = length r - n - 1
          in Some (of_int (if c = CHR ''-'' then - int n else int n) / of_int (int m)))"

lemma takeWhile_replicate_append: "P x \<Longrightarrow> \<not> P y \<Longrightarrow> takeWhile P (replicate n x @ y # ys) = replicate n x"
  by (induction n) auto

lemma unary_roundtrip: "unary_iso t \<noteq> [] \<and> unary_from (unary_iso t) = Some t"
proof -
  obtain a b where q: "quotient_of t = (a, b)" by (cases "quotient_of t")
  then have "0 < b" "t = of_int a / of_int b" by (rule quotient_of_denom_pos, rule quotient_of_div)
  with q show ?thesis
    by (simp add: unary_iso_def unary_from_def takeWhile_replicate_append split_beta)
qed

definition busy_tables :: db_tables where
  "busy_tables = sample_tables\<lparr>messages := map (\<lambda>n.
     \<lparr>ms_id = UUID_of (10 + n), ms_room_id = UUID_of 3, ms_sender_id = Some (UUID_of 1), ms_content = str_nat n,
      ms_message_type = TEXT, ms_idempotency_key = None, ms_created_at = of_nat n\<rparr>) [2, 0, 4, 1, 3]\<rparr>"

theorem pagination_complete_witness:
  "fst (fetch_pages mem_db unary_iso unary_from (UUID_of 3) 2 6 None
       \<lparr>working = busy_tables, committed = busy_tables, db_clock = 9\<rparr>)
   = Inr (Some (map MessageResponse (chronicle (UUID_of 3) busy_tables)))
   \<and> map (\<lambda>p. ms_content (fst p)) (chronicle (UUID_of 3) busy_tables) = map str_nat [0, 1, 2, 3, 4]"
proof -
  let ?d = "\<lparr>working = busy_tables, committed = busy_tables, db_clock = 9\<rparr> :: mem_db_state"
  have "distinct (map row_time (room_rows (UUID_of 3) (working ?d)))"
    and "Suc (length (room_rows (UUID_of 3) (working ?d))) = 6"
    and names: "map (\<lambda>p. ms_content (fst p)) (chronicle (UUID_of 3) busy_tables) = map str_nat [0, 1, 2, 3, 4]"
    by code_simp+
  with pagination_complete [OF mem_db.database_up_axioms unary_roundtrip, of "UUID_of 3" ?d 2]
  show ?thesis by (simp del: fetch_pages.simps)
qed

text \<open>Two messages with one time stamp.\<close>

definition tied_tables :: db_tables where
  "tied_tables = sample_tables\<lparr>messages := map (\<lambda>n.
     \<lparr>ms_id = UUID_of (10 + n), ms_room_id = UUID_of 3, ms_sender_id = Some (UUID_of 1), ms_content = str_nat n,
      ms_message_type = TEXT, ms_idempotency_key = None, ms_created_at = 7\<rparr>) [0, 1]\<rparr>"

text \<open>
  C20. Following the cursors always comes to an end: whatever the time stamps and the page size,
  a client is done after at most one request more than the room has rows, and no row is sent to
  it twice or out of the order of time. With simultaneous messages some may be missing.
\<close>

theorem pagination_terminates:
  assumes "database_up api view stored"
    and "\<And>t. isoformat t \<noteq> [] \<and> fromisoformat (isoformat t) = Some t"
  shows "\<exists>rows. fst (fetch_pages api isoformat fromisoformat rid limit (Suc (length (room_rows rid (view d)))) None d)
      = Inr (Some (map MessageResponse rows))
    \<and> sorted (map row_time rows) \<and> mset rows \<subseteq># mset (room_rows rid (view d))"
proof -
  have "filter (before_cursor (cursor_of fromisoformat None)) (room_rows rid (view d)) = room_rows rid (view d)"
    by (simp add: cursor_of_def before_cursor_def [abs_def])
  from database_up.fetch_pages_ends [OF assms, of None rid d "Suc (length (room_rows rid (view d)))" limit, unfolded this]
  show ?thesis by (simp del: fetch_pages.simps)
qed

theorem pagination_terminates_witness:
  "\<exists>rows. fst (fetch_pages mem_db unary_iso unary_from (UUID_of 3) 1 3 None
       \<lparr>working = tied_tables, committed = tied_tables, db_clock = 9\<rparr>) = Inr (Some (map MessageResponse rows))
     \<and> sorted (map row_time rows) \<and> mset rows \<subseteq># mset (room_rows (UUID_of 3) tied_tables)"
proof -
  let ?d = "\<lparr>working = tied_tables, committed = tied_tables, db_clock = 9\<rparr> :: mem_db_state"
  have "Suc (length (room_rows (UUID_of 3) (working ?d))) = 3" by code_simp
  with pagination_terminates [OF mem_db.database_up_axioms unary_roundtrip, of "UUID_of 3" 1 ?d]
  show ?thesis by (simp del: fetch_pages.simps)
qed

text \<open>
  Messages that share a time stamp can be lost at a page boundary: with pages of one, a
  client that follows the cursors of a room with two simultaneous messages sees only one of them.
\<close>

lemma pagination_skips_ties:
  "length (messages tied_tables) = 2 \<and>
   map_sum id (map_option length) (fst (fetch_pages mem_db unary_iso unary_from (UUID_of 3) 1 10 None
       \<lparr>working = tied_tables, committed = tied_tables, db_clock = 9\<rparr>)) = Inr (Some 1)"
  by code_simp

end
