(* ===== verification/Auth.thy ===== *)
theory Auth
  imports RoomService
begin

text \<open>
  Passwords and tokens (\<open>app/core/security.py\<close>), accounts
  (\<open>app/services/auth_service.py\<close>, \<open>app/schemas/auth.py\<close>) and the dependencies that find the
  current user (\<open>app/api/deps.py\<close>).

  bcrypt and python-jose are third-party: \<open>bcrypt_api\<close> and \<open>jwt_api\<close> hold the functions the
  program calls, the locales what it relies on. Passwords reach bcrypt as UTF-8 bytes. \<open>now\<close>
  is the current time.
\<close>

section \<open>Third-party cryptography\<close>

record bcrypt_api =
  bc_hashpw :: "nat list \<Rightarrow> string \<Rightarrow> exn + string"
  bc_checkpw :: "nat list \<Rightarrow> string \<Rightarrow> exn + bool"

locale bcrypt =
  fixes bc :: bcrypt_api
  assumes checks: "bc_hashpw bc pw salt = Inr h \<Longrightarrow> bc_checkpw bc pw h = Inr True"

type_synonym claims = "json dict"

record jwt_api =
  jwt_encode :: "claims \<Rightarrow> string \<Rightarrow> string \<Rightarrow> string"
  jwt_decode :: "timestamp \<Rightarrow> string \<Rightarrow> string \<Rightarrow> string \<Rightarrow> claims option"

text \<open>The claim \<open>exp\<close> is a number of seconds; a token is refused when that second has passed.\<close>

definition expired_at :: "timestamp \<Rightarrow> claims \<Rightarrow> bool" where
  "expired_at now c \<longleftrightarrow> (case map_of c ''exp'' of Some (JInt e) \<Rightarrow> e < \<lfloor>now\<rfloor> | _ \<Rightarrow> False)"

text \<open>The claims the program issues: strings and numbers.\<close>

definition flat :: "claims \<Rightarrow> bool" where
  "flat c \<longleftrightarrow> (\<forall>(k, v)\<in>set c. case v of JStr _ \<Rightarrow> True | JInt _ \<Rightarrow> True | _ \<Rightarrow> False)"

text \<open>Decoding with the signing key gives the claims back until they expire, and never an expired token.\<close>

locale jwt =
  fixes jw :: jwt_api
  assumes decodes: "flat c \<Longrightarrow>
      jwt_decode jw now (jwt_encode jw c key alg) key alg = (if expired_at now c then None else Some c)"
    and fresh: "jwt_decode jw now tok key alg = Some c \<Longrightarrow> \<not> expired_at now c"
    and not_empty: "jwt_encode jw c key alg \<noteq> []"

section \<open>Passwords\<close>

text \<open>UTF-8 of the code points below 256.\<close>

definition utf8 :: "string \<Rightarrow> nat list" where
  "utf8 s = concat (map (\<lambda>c. let n = (of_char c :: nat) in if n < 128 then [n] else [192 + n div 64, 128 + n mod 64]) s)"

definition hash_password :: "bcrypt_api \<Rightarrow> string \<Rightarrow> string \<Rightarrow> exn + string" where
  "hash_password bc salt password =
     (let password = (if length password > 72 then take 72 password else password)
      in bc_hashpw bc (utf8 password) salt)"

definition verify_password :: "bcrypt_api \<Rightarrow> string \<Rightarrow> string \<Rightarrow> exn + bool" where
  "verify_password bc plain_password hashed_password =
     (let plain_password = (if length plain_password > 72 then take 72 plain_password else plain_password)
      in bc_checkpw bc (utf8 plain_password) hashed_password)"

section \<open>Tokens\<close>

text \<open>\<open>expires_delta or timedelta(minutes=...)\<close>: a zero duration counts as none.\<close>

definition create_access_token :: "jwt_api \<Rightarrow> settings \<Rightarrow> timestamp \<Rightarrow> string \<Rightarrow> string \<Rightarrow> timestamp option \<Rightarrow> string" where
  "create_access_token jw cfg now user_id username expires_delta =
     (let delta = (case expires_delta of Some d \<Rightarrow> if d \<noteq> 0 then d else of_int (ACCESS_TOKEN_EXPIRE_MINUTES cfg * 60)
                   | None \<Rightarrow> of_int (ACCESS_TOKEN_EXPIRE_MINUTES cfg * 60));
          expire = now + delta
      in jwt_encode jw [(''sub'', JStr user_id), (''username'', JStr username), (''exp'', JInt \<lfloor>expire\<rfloor>),
                        (''type'', JStr ''access'')] (JWT_SECRET_KEY cfg) (JWT_ALGORITHM cfg))"

definition create_refresh_token :: "jwt_api \<Rightarrow> settings \<Rightarrow> timestamp \<Rightarrow> string \<Rightarrow> string" where
  "create_refresh_token jw cfg now user_id =
     (let expire = now + of_int (REFRESH_TOKEN_EXPIRE_DAYS cfg * 86400)
      in jwt_encode jw [(''sub'', JStr user_id), (''exp'', JInt \<lfloor>expire\<rfloor>), (''type'', JStr ''refresh'')]
           (JWT_SECRET_KEY cfg) (JWT_ALGORITHM cfg))"

definition decode_token :: "jwt_api \<Rightarrow> settings \<Rightarrow> timestamp \<Rightarrow> string \<Rightarrow> claims option" where
  "decode_token jw cfg now token = jwt_decode jw now token (JWT_SECRET_KEY cfg) (JWT_ALGORITHM cfg)"

definition decode_typed :: "string \<Rightarrow> jwt_api \<Rightarrow> settings \<Rightarrow> timestamp \<Rightarrow> string \<Rightarrow> claims option" where
  "decode_typed ty jw cfg now token =
     (case decode_token jw cfg now token of
        None \<Rightarrow> None
      | Some payload \<Rightarrow> if payload \<noteq> [] \<and> map_of payload ''type'' = Some (JStr ty) then Some payload else None)"

definition decode_access_token :: "jwt_api \<Rightarrow> settings \<Rightarrow> timestamp \<Rightarrow> string \<Rightarrow> claims option" where
  "decode_access_token = decode_typed ''access''"

definition decode_refresh_token :: "jwt_api \<Rightarrow> settings \<Rightarrow> timestamp \<Rightarrow> string \<Rightarrow> claims option" where
  "decode_refresh_token = decode_typed ''refresh''"

section \<open>Accounts\<close>

record user_register =
  ur_username :: string
  ur_email :: string
  ur_password :: string
  ur_display_name :: "string option"

record user_login =
  ul_username :: string
  ul_password :: string

record token_response =
  tr_access_token :: string
  tr_refresh_token :: string
  tr_token_type :: string

definition users_with_id :: "uuid \<Rightarrow> db_tables \<Rightarrow> user list" where
  "users_with_id i T = filter (\<lambda>u. u_id u = i) (users T)"

definition users_named :: "string \<Rightarrow> db_tables \<Rightarrow> user list" where
  "users_named n T = filter (\<lambda>u. u_username u = n) (users T)"

definition users_clashing :: "string \<Rightarrow> string \<Rightarrow> db_tables \<Rightarrow> user list" where
  "users_clashing n m T = filter (\<lambda>u. u_username u = n \<or> u_email u = m) (users T)"

definition as_register :: "'d db_api \<Rightarrow> bcrypt_api \<Rightarrow> string \<Rightarrow> user_register \<Rightarrow> ('d, user) eff" where
  "as_register api bc salt req =
     bindE (select_users api (users_clashing (ur_username req) (ur_email req))) (\<lambda>rows.
     bindE (liftX (scalar_one_or_none rows)) (\<lambda>existing.
     (case existing of
        Some u \<Rightarrow>
          if u_username u = ur_username req then raise (ConflictError ''Username already taken'')
          else raise (ConflictError ''Email already registered'')
      | None \<Rightarrow>
          bindE (liftX (hash_password bc salt (ur_password req))) (\<lambda>h.
          add_as api dest_user (NewUser (ur_username req) (ur_email req) h
            (case ur_display_name req of Some n \<Rightarrow> if n \<noteq> [] then Some n else Some (ur_username req)
             | None \<Rightarrow> Some (ur_username req)))))))"

definition issue_tokens :: "jwt_api \<Rightarrow> settings \<Rightarrow> timestamp \<Rightarrow> user \<Rightarrow> token_response" where
  "issue_tokens jw cfg now u =
     \<lparr>tr_access_token = create_access_token jw cfg now (str_uuid (u_id u)) (u_username u) None,
      tr_refresh_token = create_refresh_token jw cfg now (str_uuid (u_id u)),
      tr_token_type = ''bearer''\<rparr>"

definition as_login :: "'d db_api \<Rightarrow> bcrypt_api \<Rightarrow> jwt_api \<Rightarrow> settings \<Rightarrow> timestamp \<Rightarrow> user_login \<Rightarrow> ('d, token_response) eff" where
  "as_login api bc jw cfg now req =
     bindE (select_users api (users_named (ul_username req))) (\<lambda>rows.
     bindE (liftX (scalar_one_or_none rows)) (\<lambda>found.
     (case found of
        None \<Rightarrow> raise (AuthenticationError ''Invalid username or password'')
      | Some u \<Rightarrow>
          bindE (liftX (verify_password bc (ul_password req) (u_hashed_password u))) (\<lambda>good.
          if \<not> good then raise (AuthenticationError ''Invalid username or password'')
          else if \<not> u_is_active u then raise (AuthenticationError ''Account is deactivated'')
          else ret (issue_tokens jw cfg now u)))))"

text \<open>\<open>payload.get("sub")\<close> and \<open>UUID(...)\<close> of it.\<close>

definition claim_sub :: "claims \<Rightarrow> json" where
  "claim_sub c = (case map_of c ''sub'' of None \<Rightarrow> JNull | Some v \<Rightarrow> v)"

text \<open>The active user with an identifier, or the error the callers raise.\<close>

definition find_active :: "'d db_api \<Rightarrow> uuid \<Rightarrow> ('d, user) eff" where
  "find_active api i =
     bindE (select_users api (users_with_id i)) (\<lambda>rows.
     bindE (liftX (scalar_one_or_none rows)) (\<lambda>found.
     (case found of
        None \<Rightarrow> raise (AuthenticationError ''User not found or deactivated'')
      | Some u \<Rightarrow> if u_is_active u then ret u else raise (AuthenticationError ''User not found or deactivated''))))"

definition as_refresh_token :: "'d db_api \<Rightarrow> jwt_api \<Rightarrow> settings \<Rightarrow> timestamp \<Rightarrow> string \<Rightarrow> ('d, token_response) eff" where
  "as_refresh_token api jw cfg now token =
     (case decode_refresh_token jw cfg now token of
        None \<Rightarrow> raise (AuthenticationError ''Invalid or expired refresh token'')
      | Some payload \<Rightarrow>
          bindE (liftX (UUID_json (claim_sub payload))) (\<lambda>i.
          bindE (find_active api i) (\<lambda>u.
          ret (issue_tokens jw cfg now u))))"

definition as_get_user_by_id :: "'d db_api \<Rightarrow> uuid \<Rightarrow> ('d, user option) eff" where
  "as_get_user_by_id api i =
     bindE (select_users api (users_with_id i)) (\<lambda>rows. liftX (scalar_one_or_none rows))"

section \<open>The current user\<close>

definition get_current_user ::
  "'d db_api \<Rightarrow> jwt_api \<Rightarrow> settings \<Rightarrow> timestamp \<Rightarrow> string option \<Rightarrow> ('d, user) eff" where
  "get_current_user api jw cfg now authorization =
     (case authorization of
        None \<Rightarrow> raise (AuthenticationError ''Missing or invalid Authorization header'')
      | Some h \<Rightarrow>
          if take 7 h \<noteq> ''Bearer '' then raise (AuthenticationError ''Missing or invalid Authorization header'')
          else
            let token = drop 7 h in
            (case decode_access_token jw cfg now token of
               None \<Rightarrow> raise (AuthenticationError ''Invalid or expired access token'')
             | Some payload \<Rightarrow>
                 if \<not> truthy (claim_sub payload) then raise (AuthenticationError ''Invalid token payload'')
                 else
                   bindE (liftX (UUID_json (claim_sub payload))) (\<lambda>i. find_active api i)))"

definition get_ws_user :: "'d db_api \<Rightarrow> jwt_api \<Rightarrow> settings \<Rightarrow> timestamp \<Rightarrow> string \<Rightarrow> ('d, user) eff" where
  "get_ws_user api jw cfg now token =
     (case decode_access_token jw cfg now token of
        None \<Rightarrow> raise (AuthenticationError ''Invalid or expired token'')
      | Some payload \<Rightarrow> bindE (liftX (UUID_json (claim_sub payload))) (\<lambda>i. find_active api i))"

end
