(* ===== verification/Auth_Props.thy ===== *)
theory Auth_Props
  imports Auth
begin

text \<open>
  Properties of accounts and tokens, and concrete stand-ins for bcrypt and python-jose on which
  they can be run: \<open>plain_bcrypt\<close> stores the bytes of the password, \<open>plain_jwt\<close> packs
  algorithm, key and claims into a string.
\<close>

section \<open>Stand-ins for the libraries\<close>

definition plain_bcrypt :: bcrypt_api where
  "plain_bcrypt = \<lparr>bc_hashpw = (\<lambda>pw salt. Inr (map char_of pw)), bc_checkpw = (\<lambda>pw h. Inr (map char_of pw = h))\<rparr>"

interpretation plain_bcrypt: bcrypt plain_bcrypt
  by unfold_locales (auto simp: plain_bcrypt_def)

text \<open>Strings packed one after the other: every character announced by \<open>1\<close>, every end by \<open>0\<close>.\<close>

fun pack :: "string list \<Rightarrow> string" where
  "pack [] = []"
| "pack (s # ss) = concat (map (\<lambda>c. [CHR ''1'', c]) s) @ CHR ''0'' # pack ss"

fun unpack :: "string \<Rightarrow> string \<Rightarrow> string list" where
  "unpack acc [] = []"
| "unpack acc (b # r) =
     (if b = CHR ''0'' then rev acc # unpack [] r
      else (case r of [] \<Rightarrow> [] | c # r' \<Rightarrow> unpack (c # acc) r'))"

lemma unpack_string: "unpack acc (concat (map (\<lambda>c. [CHR ''1'', c]) s) @ CHR ''0'' # r) = (rev acc @ s) # unpack [] r"
  by (induction s arbitrary: acc) simp_all

lemma unpack_pack: "unpack [] (pack ss) = ss"
  by (induction ss) (simp_all add: unpack_string)

definition read_int :: "string \<Rightarrow> int" where
  "read_int s = (case s of [] \<Rightarrow> 0 | c # r \<Rightarrow> if c = CHR ''-'' then - int (read_digits r) else int (read_digits s))"

lemma read_str_int: "read_int (str_int i) = i"
proof -
  obtain c r where n: "str_nat (nat i) = c # r"
    by (cases "str_nat (nat i)") (auto simp: str_nat.simps [of "nat i"] split: if_splits)
  then have "c \<noteq> CHR ''-''" using str_nat_no_minus [of "nat i"] by auto
  then show ?thesis
    using n read_str_nat [of "nat i"] by (simp add: str_int_def read_int_def read_str_nat)
qed

fun claim_text :: "json \<Rightarrow> string" where
  "claim_text (JStr s) = CHR ''s'' # s"
| "claim_text (JInt i) = CHR ''i'' # str_int i"
| "claim_text _ = []"

definition text_claim :: "string \<Rightarrow> json" where
  "text_claim s = (case s of [] \<Rightarrow> JNull | c # r \<Rightarrow> if c = CHR ''s'' then JStr r else JInt (read_int r))"

fun pairs_of :: "string list \<Rightarrow> claims" where
  "pairs_of (k # v # r) = (k, text_claim v) # pairs_of r"
| "pairs_of _ = []"

lemma pairs_of_flat: "flat c \<Longrightarrow> pairs_of (concat (map (\<lambda>(k, v). [k, claim_text v]) c)) = c"
proof (induction c)
  case (Cons p c)
  obtain k v where p: "p = (k, v)" by (cases p)
  with Cons have "pairs_of (concat (map (\<lambda>(k, v). [k, claim_text v]) c)) = c" by (simp add: flat_def)
  moreover have "text_claim (claim_text v) = v"
    using Cons.prems p by (cases v) (auto simp: flat_def text_claim_def read_str_int)
  ultimately show ?case using p by simp
qed simp

definition plain_jwt :: jwt_api where
  "plain_jwt = \<lparr>
     jwt_encode = (\<lambda>c key alg. pack (alg # key # concat (map (\<lambda>(k, v). [k, claim_text v]) c))),
     jwt_decode = (\<lambda>now tok key alg.
       (case unpack [] tok of
          a # k # r \<Rightarrow> if a = alg \<and> k = key \<and> \<not> expired_at now (pairs_of r) then Some (pairs_of r) else None
        | _ \<Rightarrow> None))\<rparr>"

interpretation plain_jwt: jwt plain_jwt
proof unfold_locales
  fix now c key alg assume "flat c"
  then show "jwt_decode plain_jwt now (jwt_encode plain_jwt c key alg) key alg = (if expired_at now c then None else Some c)"
    using unpack_pack [of "alg # key # concat (map (\<lambda>(k, v). [k, claim_text v]) c)"]
    by (simp add: plain_jwt_def pairs_of_flat)
qed (auto simp: plain_jwt_def split: list.splits if_splits)

section \<open>Tokens\<close>

definition access_claims :: "settings \<Rightarrow> timestamp \<Rightarrow> user \<Rightarrow> claims" where
  "access_claims cfg t u = [(''sub'', JStr (str_uuid (u_id u))), (''username'', JStr (u_username u)),
     (''exp'', JInt \<lfloor>t + of_int (ACCESS_TOKEN_EXPIRE_MINUTES cfg * 60)\<rfloor>), (''type'', JStr ''access'')]"

definition refresh_claims :: "settings \<Rightarrow> timestamp \<Rightarrow> user \<Rightarrow> claims" where
  "refresh_claims cfg t u = [(''sub'', JStr (str_uuid (u_id u))),
     (''exp'', JInt \<lfloor>t + of_int (REFRESH_TOKEN_EXPIRE_DAYS cfg * 86400)\<rfloor>), (''type'', JStr ''refresh'')]"

lemma flat_claims: "flat (access_claims cfg t u)" "flat (refresh_claims cfg t u)"
  by (simp_all add: flat_def access_claims_def refresh_claims_def)

lemma issued:
  "tr_access_token (issue_tokens jw cfg t u) = jwt_encode jw (access_claims cfg t u) (JWT_SECRET_KEY cfg) (JWT_ALGORITHM cfg)"
  "tr_refresh_token (issue_tokens jw cfg t u) = jwt_encode jw (refresh_claims cfg t u) (JWT_SECRET_KEY cfg) (JWT_ALGORITHM cfg)"
  by (simp_all add: issue_tokens_def create_access_token_def create_refresh_token_def access_claims_def refresh_claims_def)

context jwt begin

lemma decode_issued:
  "decode_token jw cfg now (tr_access_token (issue_tokens jw cfg t u))
     = (if expired_at now (access_claims cfg t u) then None else Some (access_claims cfg t u))"
  "decode_token jw cfg now (tr_refresh_token (issue_tokens jw cfg t u))
     = (if expired_at now (refresh_claims cfg t u) then None else Some (refresh_claims cfg t u))"
  by (simp_all add: decode_token_def issued decodes flat_claims)

lemma decode_issued_typed:
  "decode_access_token jw cfg now (tr_access_token (issue_tokens jw cfg t u))
     = (if expired_at now (access_claims cfg t u) then None else Some (access_claims cfg t u))"
  "decode_refresh_token jw cfg now (tr_refresh_token (issue_tokens jw cfg t u))
     = (if expired_at now (refresh_claims cfg t u) then None else Some (refresh_claims cfg t u))"
  "decode_access_token jw cfg now (tr_refresh_token (issue_tokens jw cfg t u)) = None"
  "decode_refresh_token jw cfg now (tr_access_token (issue_tokens jw cfg t u)) = None"
  by (simp_all add: decode_access_token_def decode_refresh_token_def decode_typed_def decode_issued
      access_claims_def refresh_claims_def)

end

context database_up begin

lemma find_active_runs:
  assumes "tables_ok (view d)" "u \<in> set (users (view d))" "u_is_active u"
  obtains d' where "find_active api (u_id u) d = (Inr u, d')" "view d' = view d" "stored d' = stored d"
proof -
  obtain d' where "select_users api (users_with_id (u_id u)) d = (Inr (users_with_id (u_id u) (view d)), d')"
    "view d' = view d" "stored d' = stored d"
    by (rule select_as_runs [of dest_user UserRow "users_with_id (u_id u)" d]) auto
  moreover have "users_with_id (u_id u) (view d) = [u]"
    unfolding users_with_id_def by (rule filter_unique) (use assms in \<open>auto simp: tables_ok_def\<close>)
  ultimately show thesis using assms(3) by (intro that [of d']) (simp_all add: find_active_def bindE_def)
qed

end

lemma str_uuid_not_Nil [simp]: "str_uuid u \<noteq> []"
  by (simp add: str_uuid_def Let_def)

text \<open>A bearer token as issued, while it is valid and after.\<close>

lemma current_user_issued:
  assumes "jwt jw" and "database_up api view stored" and "tables_ok (view d)"
    and "u \<in> set (users (view d))" "u_is_active u" "uuid_int (u_id u) < 2 ^ 128"
    and "\<not> \<lfloor>t + of_int (ACCESS_TOKEN_EXPIRE_MINUTES cfg * 60)\<rfloor> < \<lfloor>now\<rfloor>"
  obtains d' where "get_current_user api jw cfg now (Some (''Bearer '' @ tr_access_token (issue_tokens jw cfg t u))) d = (Inr u, d')"
    "view d' = view d" "stored d' = stored d"
proof -
  have "\<not> expired_at now (access_claims cfg t u)"
    using assms(7) by (simp add: expired_at_def access_claims_def)
  moreover have "claim_sub (access_claims cfg t u) = JStr (str_uuid (u_id u))"
    by (simp add: claim_sub_def access_claims_def)
  moreover have "UUID (str_uuid (u_id u)) = Inr (u_id u)" by (rule UUID_str_uuid [OF assms(6)])
  moreover obtain d' where "find_active api (u_id u) d = (Inr u, d')" "view d' = view d" "stored d' = stored d"
    by (rule database_up.find_active_runs [OF assms(2-5)])
  ultimately show thesis
    using jwt.decode_issued_typed(1) [OF assms(1), of cfg now t u]
    by (intro that [of d']) (simp_all add: get_current_user_def Let_def bindE_def)
qed

lemma current_user_expired:
  assumes "jwt jw" and "\<lfloor>t + of_int (ACCESS_TOKEN_EXPIRE_MINUTES cfg * 60)\<rfloor> < \<lfloor>now\<rfloor>"
  shows "get_current_user api jw cfg now (Some (''Bearer '' @ tr_access_token (issue_tokens jw cfg t u))) d
    = (Inl (AuthenticationError ''Invalid or expired access token''), d)"
proof -
  have "expired_at now (access_claims cfg t u)"
    using assms(2) by (simp add: expired_at_def access_claims_def)
  then show ?thesis
    using jwt.decode_issued_typed(1) [OF assms(1), of cfg now t u] by (simp add: get_current_user_def Let_def)
qed

text \<open>
  C30. An access token authenticates its user for the configured time and not longer: presented
  as a bearer token while the account is active, it gives back exactly that user until the
  second its expiry falls into has passed, and from then on status 401.
\<close>

theorem access_token_lifetime:
  assumes "jwt jw" and "database_up api view stored" and "tables_ok (view d)"
    and "u \<in> set (users (view d))" "u_is_active u" "uuid_int (u_id u) < 2 ^ 128"
  shows "fst (get_current_user api jw cfg now (Some (''Bearer '' @ tr_access_token (issue_tokens jw cfg t u))) d)
    = (if \<lfloor>t + of_int (ACCESS_TOKEN_EXPIRE_MINUTES cfg * 60)\<rfloor> < \<lfloor>now\<rfloor>
       then Inl (AuthenticationError ''Invalid or expired access token'') else Inr u)"
proof (cases "\<lfloor>t + of_int (ACCESS_TOKEN_EXPIRE_MINUTES cfg * 60)\<rfloor> < \<lfloor>now\<rfloor>")
  case True
  show ?thesis unfolding current_user_expired [OF assms(1) True] if_P [OF True] by (rule fst_conv)
next
  case False
  show ?thesis unfolding if_not_P [OF False]
    by (rule current_user_issued [OF assms False]) (simp only: fst_conv)
qed

theorem access_token_lifetime_witness:
  "let u = hd (users sample_tables); h = ''Bearer '' @ tr_access_token (issue_tokens plain_jwt default_settings 1000 u)
   in fst (get_current_user mem_db plain_jwt default_settings 2000 (Some h) sample_db) = Inr u \<and>
      fst (get_current_user mem_db plain_jwt default_settings 2801 (Some h) sample_db)
        = Inl (AuthenticationError ''Invalid or expired access token'')"
proof -
  let ?u = "hd (users sample_tables)"
  have "tables_ok (working sample_db)" "?u \<in> set (users (working sample_db))" "u_is_active ?u" "uuid_int (u_id ?u) < 2 ^ 128"
    using sample_ok by (simp_all add: sample_db_def sample_tables_def)
  note ok = access_token_lifetime [OF plain_jwt.jwt_axioms mem_db.database_up_axioms this, of default_settings _ 1000]
  show ?thesis using ok [of 2000] ok [of 2801] by (simp add: Let_def default_settings_def)
qed

text \<open>
  C31. Access and refresh tokens are not interchangeable: whoever they were issued for and
  whenever they are presented, a refresh token is refused as a bearer token and an access token
  is refused by the refresh endpoint.
\<close>

theorem tokens_not_interchangeable:
  assumes "jwt jw"
  shows "get_current_user api jw cfg now (Some (''Bearer '' @ tr_refresh_token (issue_tokens jw cfg t u))) d
      = (Inl (AuthenticationError ''Invalid or expired access token''), d)
    \<and> as_refresh_token api jw cfg now (tr_access_token (issue_tokens jw cfg t u)) d
      = (Inl (AuthenticationError ''Invalid or expired refresh token''), d)"
  using jwt.decode_issued_typed [OF assms, of cfg now t u]
  by (simp add: get_current_user_def as_refresh_token_def Let_def)

theorem tokens_not_interchangeable_witness:
  "as_refresh_token mem_db plain_jwt default_settings 5
     (tr_access_token (issue_tokens plain_jwt default_settings 0 (hd (users sample_tables)))) sample_db
   = (Inl (AuthenticationError ''Invalid or expired refresh token''), sample_db)"
  using tokens_not_interchangeable [OF plain_jwt.jwt_axioms, of mem_db default_settings 5 0
      "hd (users sample_tables)" sample_db] by (rule conjunct2)

section \<open>Accounts\<close>

lemma verify_hashed:
  assumes "bcrypt bc" "hash_password bc salt pw = Inr h" "take 72 pw' = take 72 pw"
  shows "verify_password bc pw' h = Inr True"
proof -
  have "(if length p > 72 then take 72 p else p) = take 72 p" for p :: string by simp
  with assms show ?thesis
    by (simp add: hash_password_def verify_password_def Let_def bcrypt.checks [OF assms(1)])
qed

context database_up begin

lemma select_clashing:
  obtains d' where "select_users api (users_clashing n m) d = (Inr (users_clashing n m (view d)), d')" "view d' = view d"
  by (rule select_as_runs [of dest_user UserRow "users_clashing n m" d]) auto

lemma registered_account:
  assumes "tables_ok (view d)" and "as_register api bc salt req d = (Inr u, d1)"
  shows "tables_ok (view d1) \<and> view d1 = (view d)\<lparr>users := users (view d) @ [u]\<rparr> \<and> u_username u = ur_username req
    \<and> u_email u = ur_email req \<and> u_is_active u \<and> hash_password bc salt (ur_password req) = Inr (u_hashed_password u)"
proof -
  let ?rows = "users_clashing (ur_username req) (ur_email req) (view d)"
  obtain d0 where d0: "select_users api (users_clashing (ur_username req) (ur_email req)) d = (Inr ?rows, d0)" "view d0 = view d"
    by (rule select_clashing)
  with assms(2) obtain h x where h: "hash_password bc salt (ur_password req) = Inr h"
    and x: "\<exists>dn. x = NewUser (ur_username req) (ur_email req) h dn" and run: "add_as api dest_user x d0 = (Inr u, d1)"
    by (cases ?rows rule: scalar_one_or_none.cases; cases "hash_password bc salt (ur_password req)")
      (auto simp: as_register_def bindE_def split: if_splits)
  have dest: "\<exists>y. dest_user (fill i t x) = Some y" for i t using x by auto
  show ?thesis
  proof (cases rule: add_as_cases [of dest_user x d0, OF dest])
    case (2 i t y d')
    then have "tables_ok (view d')" using assms(1) d0(2) by (simp add: tables_ok_insert)
    with 2 run x h d0(2) show ?thesis by auto
  qed (use run in simp)
qed

lemma login_runs:
  assumes "tables_ok (view d)" "u \<in> set (users (view d))" "u_is_active u"
    and "verify_password bc pw (u_hashed_password u) = Inr True"
  shows "fst (as_login api bc jw cfg now \<lparr>ul_username = u_username u, ul_password = pw\<rparr> d) = Inr (issue_tokens jw cfg now u)"
proof -
  obtain d' where "select_users api (users_named (u_username u)) d = (Inr (users_named (u_username u) (view d)), d')"
    by (rule select_as_runs [of dest_user UserRow "users_named (u_username u)" d]) auto
  moreover have "users_named (u_username u) (view d) = [u]"
    unfolding users_named_def by (rule filter_unique) (use assms(1,2) in \<open>auto simp: tables_ok_def\<close>)
  ultimately show ?thesis using assms(3,4) by (simp add: as_login_def bindE_def)
qed

end

text \<open>
  C32. Registering and then logging in works: a registration that succeeds adds exactly one
  account, keeps user names and addresses unique, and the same password then gives the tokens of
  that account, as does any password with the same first 72 characters.
\<close>

theorem register_then_login:
  assumes "bcrypt bc" and "database_up api view stored" and "tables_ok (view d)"
    and "as_register api bc salt req d = (Inr u, d1)" and "take 72 password = take 72 (ur_password req)"
  shows "tables_ok (view d1) \<and> users (view d1) = users (view d) @ [u] \<and> u_username u = ur_username req
    \<and> fst (as_login api bc jw cfg now \<lparr>ul_username = ur_username req, ul_password = password\<rparr> d1)
        = Inr (issue_tokens jw cfg now u)"
proof -
  have acc: "tables_ok (view d1) \<and> view d1 = (view d)\<lparr>users := users (view d) @ [u]\<rparr> \<and> u_username u = ur_username req
    \<and> u_email u = ur_email req \<and> u_is_active u \<and> hash_password bc salt (ur_password req) = Inr (u_hashed_password u)"
    by (rule database_up.registered_account [OF assms(2-4)])
  then have "verify_password bc password (u_hashed_password u) = Inr True"
    using verify_hashed [OF assms(1) _ assms(5)] by blast
  with acc database_up.login_runs [OF assms(2), of d1 u bc password jw cfg now] show ?thesis by auto
qed

definition sample_request :: user_register where
  "sample_request = \<lparr>ur_username = ''cyd'', ur_email = ''c@x.org'', ur_password = ''secret'', ur_display_name = None\<rparr>"

theorem register_then_login_witness:
  "let (r, d1) = as_register mem_db plain_bcrypt ''salt'' sample_request sample_db in
   \<exists>u. r = Inr u \<and> fst (as_login mem_db plain_bcrypt plain_jwt default_settings 0
      \<lparr>ul_username = ''cyd'', ul_password = ''secret''\<rparr> d1) = Inr (issue_tokens plain_jwt default_settings 0 u)"
proof -
  let ?run = "as_register mem_db plain_bcrypt ''salt'' sample_request sample_db"
  have "\<not> isl (fst ?run)" by code_simp
  then obtain u where "fst ?run = Inr u" by (cases "fst ?run") auto
  then have run: "?run = (Inr u, snd ?run)" by (simp add: prod_eq_iff)
  have "tables_ok (working sample_db)" using sample_ok by (simp add: sample_db_def)
  from register_then_login [OF plain_bcrypt.bcrypt_axioms mem_db.database_up_axioms this run, of "''secret''" plain_jwt default_settings 0]
  show ?thesis by (subst run) (simp add: sample_request_def)
qed

text \<open>
  A registration whose user name belongs to one account and whose address belongs to
  another is not answered with a conflict: the query finds two rows and the request fails with
  an unhandled error.
\<close>

lemma register_double_conflict:
  "fst (as_register mem_db plain_bcrypt ''salt'' (sample_request\<lparr>ur_username := ''ann'', ur_email := ''b@x.org''\<rparr>) sample_db)
     = Inl MultipleResultsFound"
  by code_simp

end
