(* ===== verification/Routes.thy ===== *)
theory Routes
  imports MessageService Auth_Props
begin

text \<open>
  The HTTP routes (\<open>app/api/routes\<close>). Every handler runs in the session of \<open>get_db\<close>, which is
  committed when the handler returns and rolled back when it raises, and most of them first
  find the current user from the \<open>Authorization\<close> header. FastAPI resolves these dependencies
  first, then pydantic validates query parameters and body, then the handler runs.
  \<open>email_str\<close> is pydantic's e-mail type: the normalised address, or \<open>None\<close> when it is not valid.
  A result is the value the handler returns, before FastAPI turns it into a response.
\<close>

section \<open>Validation\<close>

definition word_char :: "char \<Rightarrow> bool" where
  "word_char c \<longleftrightarrow> (let n = (of_char c :: nat) in
     (48 \<le> n \<and> n \<le> 57) \<or> (65 \<le> n \<and> n \<le> 90) \<or> (97 \<le> n \<and> n \<le> 122) \<or> n = 95)"

definition UserRegister :: "(string \<Rightarrow> string option) \<Rightarrow> user_register \<Rightarrow> exn + user_register" where
  "UserRegister email_str req =
     (case email_str (ur_email req) of
        None \<Rightarrow> Inl (ValidationError ''UserRegister'')
      | Some email \<Rightarrow>
          if 3 \<le> length (ur_username req) \<and> length (ur_username req) \<le> 50 \<and> list_all word_char (ur_username req)
             \<and> 6 \<le> length (ur_password req) \<and> length (ur_password req) \<le> 128
             \<and> fits 100 (ur_display_name req)
          then Inr (req\<lparr>ur_email := email\<rparr>) else Inl (ValidationError ''UserRegister''))"

definition RoomCreate :: "room_create \<Rightarrow> exn + room_create" where
  "RoomCreate req =
     (if 1 \<le> length (rc_name req) \<and> length (rc_name req) \<le> 100 \<and> fits 500 (rc_description req)
      then Inr req else Inl (ValidationError ''RoomCreate''))"

text \<open>\<open>Query(50, ge=1, le=100)\<close>.\<close>

definition page_limit :: "int option \<Rightarrow> exn + nat" where
  "page_limit limit =
     (case limit of
        None \<Rightarrow> Inr 50
      | Some n \<Rightarrow> if 1 \<le> n \<and> n \<le> 100 then Inr (nat n) else Inl (ValidationError ''limit''))"

section \<open>Accounts\<close>

definition route_register :: "'d db_api \<Rightarrow> bcrypt_api \<Rightarrow> (string \<Rightarrow> string option) \<Rightarrow> string \<Rightarrow> user_register \<Rightarrow> ('d, user) eff" where
  "route_register api bc email_str salt body =
     with_session api (bindE (liftX (UserRegister email_str body)) (\<lambda>req. as_register api bc salt req))"

definition route_login :: "'d db_api \<Rightarrow> bcrypt_api \<Rightarrow> jwt_api \<Rightarrow> settings \<Rightarrow> timestamp \<Rightarrow> user_login \<Rightarrow> ('d, token_response) eff" where
  "route_login api bc jw cfg now body = with_session api (as_login api bc jw cfg now body)"

definition route_refresh :: "'d db_api \<Rightarrow> jwt_api \<Rightarrow> settings \<Rightarrow> timestamp \<Rightarrow> string \<Rightarrow> ('d, token_response) eff" where
  "route_refresh api jw cfg now token = with_session api (as_refresh_token api jw cfg now token)"

text \<open>A handler behind \<open>get_current_user\<close>.\<close>

definition as_current_user ::
  "'d db_api \<Rightarrow> jwt_api \<Rightarrow> settings \<Rightarrow> timestamp \<Rightarrow> string option \<Rightarrow> (user \<Rightarrow> ('d, 'a) eff) \<Rightarrow> ('d, 'a) eff" where
  "as_current_user api jw cfg now header handler =
     with_session api (bindE (get_current_user api jw cfg now header) handler)"

definition route_get_me :: "'d db_api \<Rightarrow> jwt_api \<Rightarrow> settings \<Rightarrow> timestamp \<Rightarrow> string option \<Rightarrow> ('d, user) eff" where
  "route_get_me api jw cfg now header = as_current_user api jw cfg now header ret"

section \<open>Rooms\<close>

definition route_create_room ::
  "'d db_api \<Rightarrow> jwt_api \<Rightarrow> settings \<Rightarrow> timestamp \<Rightarrow> string option \<Rightarrow> room_create \<Rightarrow> ('d, room_response) eff" where
  "route_create_room api jw cfg now header body =
     as_current_user api jw cfg now header (\<lambda>u.
     bindE (liftX (RoomCreate body)) (\<lambda>req.
     bindE (rs_create_room api req (u_id u)) (\<lambda>room. ret (RoomResponse room 1))))"

definition route_list_rooms ::
  "'d db_api \<Rightarrow> jwt_api \<Rightarrow> settings \<Rightarrow> timestamp \<Rightarrow> string option \<Rightarrow> bool \<Rightarrow> ('d, room_list_response) eff" where
  "route_list_rooms api jw cfg now header my_rooms =
     as_current_user api jw cfg now header (\<lambda>u.
     bindE (if my_rooms then rs_list_user_rooms api (u_id u) else rs_list_public_rooms api) (\<lambda>rooms.
     ret \<lparr>rl_rooms = rooms, rl_total = length rooms\<rparr>))"

definition room_detail :: "(timestamp \<Rightarrow> string) \<Rightarrow> room \<Rightarrow> json list \<Rightarrow> json" where
  "room_detail isoformat room ms =
     JObj [(''id'', JStr (str_uuid (ro_id room))), (''name'', JStr (ro_name room)),
           (''description'', case ro_description room of None \<Rightarrow> JNull | Some d \<Rightarrow> JStr d),
           (''is_private'', JBool (ro_is_private room)),
           (''created_by'', case ro_created_by room of None \<Rightarrow> JNull | Some u \<Rightarrow> JStr (str_uuid u)),
           (''created_at'', JStr (isoformat (ro_created_at room))), (''members'', JArr ms)]"

definition route_get_room ::
  "'d db_api \<Rightarrow> jwt_api \<Rightarrow> settings \<Rightarrow> (timestamp \<Rightarrow> string) \<Rightarrow> timestamp \<Rightarrow> string option \<Rightarrow> uuid \<Rightarrow> ('d, json) eff" where
  "route_get_room api jw cfg isoformat now header rid =
     as_current_user api jw cfg now header (\<lambda>u.
     bindE (rs_get_room api rid) (\<lambda>room.
     bindE (rs_get_room_members api isoformat rid) (\<lambda>ms. ret (room_detail isoformat room ms))))"

definition detail :: "string \<Rightarrow> json" where
  "detail s = JObj [(''detail'', JStr s)]"

definition route_join_room :: "'d db_api \<Rightarrow> jwt_api \<Rightarrow> settings \<Rightarrow> timestamp \<Rightarrow> string option \<Rightarrow> uuid \<Rightarrow> ('d, json) eff" where
  "route_join_room api jw cfg now header rid =
     as_current_user api jw cfg now header (\<lambda>u.
     bindE (rs_join_room api rid (u_id u)) (\<lambda>m. ret (detail ''Successfully joined the room'')))"

definition route_leave_room :: "'d db_api \<Rightarrow> jwt_api \<Rightarrow> settings \<Rightarrow> timestamp \<Rightarrow> string option \<Rightarrow> uuid \<Rightarrow> ('d, json) eff" where
  "route_leave_room api jw cfg now header rid =
     as_current_user api jw cfg now header (\<lambda>u.
     bindE (rs_leave_room api rid (u_id u)) (\<lambda>_. ret (detail ''Successfully left the room'')))"

definition route_get_room_members ::
  "'d db_api \<Rightarrow> jwt_api \<Rightarrow> settings \<Rightarrow> (timestamp \<Rightarrow> string) \<Rightarrow> timestamp \<Rightarrow> string option \<Rightarrow> uuid \<Rightarrow> ('d, json) eff" where
  "route_get_room_members api jw cfg isoformat now header rid =
     as_current_user api jw cfg now header (\<lambda>u.
     bindE (rs_get_room_members api isoformat rid) (\<lambda>ms. ret (JObj [(''members'', JArr ms)])))"

section \<open>Messages\<close>

definition not_a_member :: exn where
  "not_a_member = AuthorizationError ''You must be a member of this room to view messages''"

definition route_get_messages ::
  "'d db_api \<Rightarrow> jwt_api \<Rightarrow> settings \<Rightarrow> (timestamp \<Rightarrow> string) \<Rightarrow> (string \<Rightarrow> timestamp option) \<Rightarrow> timestamp \<Rightarrow> string option \<Rightarrow>
   uuid \<Rightarrow> int option \<Rightarrow> string option \<Rightarrow> ('d, message_list_response) eff" where
  "route_get_messages api jw cfg isoformat fromisoformat now header rid limit before =
     as_current_user api jw cfg now header (\<lambda>u.
     bindE (liftX (page_limit limit)) (\<lambda>n.
     bindE (rs_is_member api rid (u_id u)) (\<lambda>is_member.
     if \<not> is_member then raise not_a_member
     else ms_get_room_messages api isoformat fromisoformat rid n before)))"

section \<open>Health\<close>

text \<open>\<open>redis_ping\<close> is the attempt to reach Redis; \<open>exn_str\<close> is \<open>str(e)\<close>.\<close>

definition probe :: "(exn \<Rightarrow> string) \<Rightarrow> exn + 'a \<Rightarrow> json" where
  "probe exn_str r = JStr (case r of Inr _ \<Rightarrow> ''ok'' | Inl e \<Rightarrow> ''error: '' @ exn_str e)"

definition health_check :: "'d db_api \<Rightarrow> settings \<Rightarrow> (exn \<Rightarrow> string) \<Rightarrow> exn + unit \<Rightarrow> ('d, nat \<times> json) eff" where
  "health_check api cfg exn_str redis_ping d =
     (case in_session api (db_execute api (\<lambda>T. [CountRow 1])) d of
        (pg, d') \<Rightarrow>
          if pg = Inl CancelledError \<or> redis_ping = Inl CancelledError then (Inl CancelledError, d')
          else
            let healthy = (\<not> isl pg \<and> \<not> isl redis_ping) in
            (Inr (if healthy then 200 else 503,
                  JObj [(''status'', JStr (if healthy then ''healthy'' else ''unhealthy'')),
                        (''service'', JStr (APP_NAME cfg)), (''version'', JStr (APP_VERSION cfg)),
                        (''checks'', JObj [(''postgres'', probe exn_str pg), (''redis'', probe exn_str redis_ping)])]), d'))"

section \<open>Properties\<close>

lemma with_session_runs:
  assumes "database_up api view stored" and "body d = (Inr x, d1)"
  obtains d' where "with_session api body d = (Inr x, d')"
  using assms(2) database_up.commit_up [OF assms(1), of d1] by (auto simp: with_session_def)

lemma with_session_raises: "body d = (Inl e, d1) \<Longrightarrow> fst (with_session api body d) = Inl e"
  by (simp add: with_session_def)

lemma length_page:
  "ms_get_room_messages api isoformat fromisoformat rid n before d = (Inr page, d') \<Longrightarrow> length (ml_messages page) \<le> n"
  by (auto simp: ms_get_room_messages_def Let_def bindE_def split: prod.splits sum.splits if_splits)

text \<open>
  C33. The history of a room is for its members: with a valid token, a request for any page is
  refused with status 403 exactly when the user is not a member of the room, and otherwise
  returns at most as many messages as asked for.
\<close>

theorem history_members_only:
  assumes "jwt jw" and "database_up api view stored" and "tables_ok (view d)"
    and "u \<in> set (users (view d))" "u_is_active u" "uuid_int (u_id u) < 2 ^ 128"
    and "\<not> \<lfloor>t + of_int (ACCESS_TOKEN_EXPIRE_MINUTES cfg * 60)\<rfloor> < \<lfloor>now\<rfloor>"
    and "1 \<le> limit" "limit \<le> 100"
    and "route_get_messages api jw cfg isoformat fromisoformat now
          (Some (''Bearer '' @ tr_access_token (issue_tokens jw cfg t u))) rid (Some limit) before d = (res, d')"
  shows "(res = Inl not_a_member \<longleftrightarrow> (rid, u_id u) \<notin> memberships (view d))
    \<and> ((rid, u_id u) \<in> memberships (view d) \<longrightarrow> (\<exists>page. res = Inr page \<and> int (length (ml_messages page)) \<le> limit))"
proof -
  let ?h = "Some (''Bearer '' @ tr_access_token (issue_tokens jw cfg t u))"
  let ?body = "bindE (get_current_user api jw cfg now ?h) (\<lambda>u. bindE (rs_is_member api rid (u_id u)) (\<lambda>is_member.
     if \<not> is_member then raise not_a_member else ms_get_room_messages api isoformat fromisoformat rid (nat limit) before))"
  have "page_limit (Some limit) = Inr (nat limit)" using assms(8,9) by (simp add: page_limit_def)
  with assms(10) have route: "with_session api ?body d = (res, d')"
    unfolding route_get_messages_def as_current_user_def by (simp only: bindE_liftX_Inr)
  obtain d1 where d1: "get_current_user api jw cfg now ?h d = (Inr u, d1)" "view d1 = view d"
    by (rule current_user_issued [OF assms(1-7)])
  then have "tables_ok (view d1)" using assms(3) by simp
  then obtain d2 where d2: "rs_is_member api rid (u_id u) d1 = (Inr ((rid, u_id u) \<in> memberships (view d)), d2)"
    using database_up.rs_is_member_runs [OF assms(2), of d1 rid "u_id u"] d1(2) by metis
  show ?thesis
  proof (cases "(rid, u_id u) \<in> memberships (view d)")
    case False
    with d1 d2 have "?body d = (Inl not_a_member, d2)"
      by (simp only: bindE_def prod.case sum.case if_True simp_thms raise_apply)
    from with_session_raises [of ?body, OF this, of api] have "res = Inl not_a_member" unfolding route by simp
    with False show ?thesis by simp
  next
    case True
    obtain page d3 where page: "ms_get_room_messages api isoformat fromisoformat rid (nat limit) before d2 = (Inr page, d3)"
      by (rule database_up.history_runs [OF assms(2)])
    with True d1 d2 have "?body d = (Inr page, d3)" by (simp only: bindE_def prod.case sum.case if_False simp_thms)
    have "res = Inr page"
      by (rule with_session_runs [OF assms(2), of ?body, OF \<open>?body d = (Inr page, d3)\<close>]) (use route in simp)
    moreover have "int (length (ml_messages page)) \<le> limit" using length_page [OF page] assms(8) by simp
    ultimately show ?thesis using True by simp
  qed
qed

theorem history_members_only_witness:
  "fst (route_get_messages mem_db plain_jwt default_settings unary_iso unary_from 5
     (Some (''Bearer '' @ tr_access_token (issue_tokens plain_jwt default_settings 0 (users sample_tables ! 1))))
     (UUID_of 3) (Some 10) None sample_db) = Inl not_a_member"
proof -
  let ?u = "users sample_tables ! 1"
  let ?run = "route_get_messages mem_db plain_jwt default_settings unary_iso unary_from 5
     (Some (''Bearer '' @ tr_access_token (issue_tokens plain_jwt default_settings 0 ?u))) (UUID_of 3) (Some 10) None sample_db"
  have u: "tables_ok (working sample_db)" "?u \<in> set (users (working sample_db))" "u_is_active ?u" "uuid_int (u_id ?u) < 2 ^ 128"
    "\<not> \<lfloor>0 + of_int (ACCESS_TOKEN_EXPIRE_MINUTES default_settings * 60)\<rfloor> < \<lfloor>5 :: timestamp\<rfloor>"
    and no: "(UUID_of 3, u_id ?u) \<notin> memberships (working sample_db)"
    using sample_ok by (simp_all add: sample_db_def sample_tables_def default_settings_def memberships_def)
  have "?run = (fst ?run, snd ?run)" by (rule surjective_pairing)
  from history_members_only [OF plain_jwt.jwt_axioms mem_db.database_up_axioms u _ _ this] no
  show ?thesis by (simp only: conj_assoc) simp
qed

end
