(* ===== verification/WsSchema.thy ===== *)
theory WsSchema
  imports Json
begin

text \<open>
  The WebSocket schemas of \<open>app/schemas/ws.py\<close>. A \<open>WSOutboundMessage\<close> is an event name and a
  data dictionary; the class methods are the constructors below. A \<open>room_id\<close> that comes
  straight from a client event may be any JSON value, so it is one here.
\<close>

section \<open>Outbound messages\<close>

record ws_outbound =
  wo_event :: string
  wo_data :: "json dict"

definition chat_message ::
  "string \<Rightarrow> string \<Rightarrow> string \<Rightarrow> string \<Rightarrow> string \<Rightarrow> string \<Rightarrow> string \<Rightarrow> ws_outbound" where
  "chat_message message_id room_id sender_id sender_username content message_type created_at =
     \<lparr>wo_event = ''message'',
      wo_data = [(''id'', JStr message_id), (''room_id'', JStr room_id),
                 (''sender_id'', JStr sender_id), (''sender_username'', JStr sender_username),
                 (''content'', JStr content), (''message_type'', JStr message_type),
                 (''created_at'', JStr created_at)]\<rparr>"

definition presence_update :: "json \<Rightarrow> string \<Rightarrow> string \<Rightarrow> string \<Rightarrow> ws_outbound" where
  "presence_update room_id user_id username status =
     \<lparr>wo_event = ''presence'',
      wo_data = [(''room_id'', room_id), (''user_id'', JStr user_id),
                 (''username'', JStr username), (''status'', JStr status)]\<rparr>"

definition typing_indicator :: "json \<Rightarrow> string \<Rightarrow> string \<Rightarrow> bool \<Rightarrow> ws_outbound" where
  "typing_indicator room_id user_id username is_typing =
     \<lparr>wo_event = ''typing'',
      wo_data = [(''room_id'', room_id), (''user_id'', JStr user_id),
                 (''username'', JStr username), (''is_typing'', JBool is_typing)]\<rparr>"

definition system_message :: "string \<Rightarrow> string \<Rightarrow> ws_outbound" where
  "system_message room_id content =
     \<lparr>wo_event = ''system'', wo_data = [(''room_id'', JStr room_id), (''content'', JStr content)]\<rparr>"

definition error_message :: "string \<Rightarrow> string \<Rightarrow> ws_outbound" where
  "error_message detail code =
     \<lparr>wo_event = ''error'', wo_data = [(''detail'', JStr detail), (''code'', JStr code)]\<rparr>"

definition pong :: ws_outbound where
  "pong = \<lparr>wo_event = ''pong'', wo_data = []\<rparr>"

section \<open>Serialisation\<close>

definition model_dump :: "ws_outbound \<Rightarrow> json" where
  "model_dump m = JObj [(''event'', JStr (wo_event m)), (''data'', JObj (wo_data m))]"

definition model_dump_json :: "ws_outbound \<Rightarrow> wire" where
  "model_dump_json m = json_dumps (model_dump m)"

text \<open>
  \<open>WSOutboundMessage(**payload)\<close>: the payload must be a mapping, \<open>event\<close> a string and
  \<open>data\<close> a dictionary; other keys are ignored.
\<close>

definition WSOutboundMessage :: "json \<Rightarrow> exn + ws_outbound" where
  "WSOutboundMessage payload =
     (case payload of
        JObj d \<Rightarrow>
          (case (map_of d ''event'', map_of d ''data'') of
             (Some (JStr e), Some (JObj x)) \<Rightarrow> Inr \<lparr>wo_event = e, wo_data = x\<rparr>
           | _ \<Rightarrow> Inl (ValidationError ''WSOutboundMessage''))
      | _ \<Rightarrow> Inl (TypeError ''argument after ** must be a mapping''))"

lemma WSOutboundMessage_model_dump [simp]: "WSOutboundMessage (model_dump m) = Inr m"
  by (simp add: WSOutboundMessage_def model_dump_def)

lemma WSOutboundMessage_Inr_iff:
  "WSOutboundMessage p = Inr m \<longleftrightarrow>
     (\<exists>d. p = JObj d \<and> map_of d ''event'' = Some (JStr (wo_event m))
        \<and> map_of d ''data'' = Some (JObj (wo_data m)))"
  by (cases m; auto simp: WSOutboundMessage_def split: json.splits option.splits)

lemma model_dump_inject [simp]: "model_dump m = model_dump n \<longleftrightarrow> m = n"
  by (cases m; cases n) (simp add: model_dump_def)

lemma model_dump_json_inject [simp]: "model_dump_json m = model_dump_json n \<longleftrightarrow> m = n"
  by (simp add: model_dump_json_def json_dumps_def)

lemmas outbound_defs = chat_message_def presence_update_def typing_indicator_def
  system_message_def error_message_def pong_def

section \<open>Inbound schemas\<close>

text \<open>
  The inbound schemas are declared beside the outbound one. Pydantic's validation of a
  dictionary: every required field present with the right type, and for
  \<open>WSMessageData.content\<close> a length between 1 and 5000.
\<close>

record ws_event =
  we_event :: string
  we_data :: "json dict"

definition WSEvent :: "json dict \<Rightarrow> exn + ws_event" where
  "WSEvent d =
     (case (map_of d ''event'', map_of d ''data'') of
        (Some (JStr e), None) \<Rightarrow> Inr \<lparr>we_event = e, we_data = []\<rparr>
      | (Some (JStr e), Some (JObj x)) \<Rightarrow> Inr \<lparr>we_event = e, we_data = x\<rparr>
      | _ \<Rightarrow> Inl (ValidationError ''WSEvent''))"

record ws_message_data =
  md_room_id :: string
  md_content :: string
  md_idempotency_key :: "string option"

definition WSMessageData :: "json dict \<Rightarrow> exn + ws_message_data" where
  "WSMessageData d =
     (case (map_of d ''room_id'', map_of d ''content'') of
        (Some (JStr r), Some (JStr c)) \<Rightarrow>
          if 1 \<le> length c \<and> length c \<le> 5000 then
            (case map_of d ''idempotency_key'' of
               None \<Rightarrow> Inr \<lparr>md_room_id = r, md_content = c, md_idempotency_key = None\<rparr>
             | Some JNull \<Rightarrow> Inr \<lparr>md_room_id = r, md_content = c, md_idempotency_key = None\<rparr>
             | Some (JStr k) \<Rightarrow> Inr \<lparr>md_room_id = r, md_content = c, md_idempotency_key = Some k\<rparr>
             | _ \<Rightarrow> Inl (ValidationError ''idempotency_key''))
          else Inl (ValidationError ''content'')
      | _ \<Rightarrow> Inl (ValidationError ''WSMessageData''))"

text \<open>\<open>WSJoinRoomData\<close>, \<open>WSLeaveRoomData\<close> and \<open>WSTypingData\<close> have the same single field.\<close>

definition WSRoomData :: "json dict \<Rightarrow> exn + string" where
  "WSRoomData d =
     (case map_of d ''room_id'' of Some (JStr r) \<Rightarrow> Inr r | _ \<Rightarrow> Inl (ValidationError ''room_id''))"

end
