(* ===== verification/Connections.thy ===== *)
theory Connections
  imports WsSchema Config
begin

text \<open>
  The WebSocket connection manager, \<open>app/messaging/connection_manager.py\<close>.

  \<open>WebSocketConnection\<close> objects are shared: the endpoint that opened a connection keeps a
  reference while the manager's table may already point to another object. They therefore
  live in an explicit store, \<open>heap\<close>, addressed by references of type \<open>nat\<close>; \<open>connections\<close>
  maps a user to a reference and \<open>room_connections\<close> a room to the users in it.
  \<open>tasks\<close> holds the \<open>_force_disconnect\<close> coroutines that \<open>broadcast_to_room\<close> has scheduled
  with \<open>asyncio.create_task\<close> and that have not run yet.

  The WebSocket itself is Starlette's: its state has the type parameter \<open>'w\<close> and its
  operations are the fields of a \<open>ws_api\<close> value.

  Between two \<open>await\<close>s a coroutine runs without interruption. Every method below is given as a
  whole; the stretches between its \<open>await\<close>s that change the tracking tables are given separately
  at the end.
\<close>

section \<open>Connections and the manager's state\<close>

record 'w ws_api =
  ws_connected :: "'w \<Rightarrow> bool"
  ws_accept :: "('w, unit) eff"
  ws_send_text :: "wire \<Rightarrow> ('w, unit) eff"
  ws_close :: "nat \<Rightarrow> string \<Rightarrow> ('w, unit) eff"

datatype task_status = Running | Finished | Cancelled

record 'w ws_connection =
  websocket :: 'w
  conn_user :: string
  conn_username :: string
  rooms :: "string list"
  send_queue :: "wire aqueue"
  last_activity :: timestamp
  send_task :: task_status

record 'w conn_manager =
  heap :: "nat \<rightharpoonup> 'w ws_connection"
  next_ref :: nat
  connections :: "nat dict"
  room_connections :: "string list dict"
  tasks :: "(nat \<times> string) list"

definition conn_manager_init :: "'w conn_manager" where
  "conn_manager_init =
     \<lparr>heap = Map.empty, next_ref = 0, connections = [], room_connections = [], tasks = []\<rparr>"

definition new_connection ::
  "settings \<Rightarrow> 'w \<Rightarrow> string \<Rightarrow> string \<Rightarrow> timestamp \<Rightarrow> 'w ws_connection" where
  "new_connection cfg ws uid uname now =
     \<lparr>websocket = ws, conn_user = uid, conn_username = uname, rooms = [],
      send_queue = queue_new (MAX_SEND_QUEUE_SIZE cfg), last_activity = now,
      send_task = Running\<rparr>"

definition update_activity :: "timestamp \<Rightarrow> 'w ws_connection \<Rightarrow> 'w ws_connection" where
  "update_activity now conn = conn\<lparr>last_activity := now\<rparr>"

fun cancel_task :: "task_status \<Rightarrow> task_status" where
  "cancel_task Running = Cancelled"
| "cancel_task t = t"

definition upd_conn ::
  "nat \<Rightarrow> ('w ws_connection \<Rightarrow> 'w ws_connection) \<Rightarrow> 'w conn_manager \<Rightarrow> 'w conn_manager" where
  "upd_conn c f st = st\<lparr>heap := (heap st)(c := map_option f (heap st c))\<rparr>"

definition active_connections :: "'w conn_manager \<Rightarrow> nat" where
  "active_connections st = length (connections st)"

section \<open>Room sets\<close>

text \<open>
  \<open>disconnect\<close> and \<open>leave_room\<close> delete a room whose set becomes empty;
  \<open>_force_disconnect\<close> leaves the empty set behind. An empty set counts as false.
\<close>

definition room_drop :: "string \<Rightarrow> string \<Rightarrow> string list dict \<Rightarrow> string list dict" where
  "room_drop uid rid RC =
     (case map_of RC rid of
        None \<Rightarrow> RC
      | Some S \<Rightarrow>
          if S = [] then RC
          else let S' = set_discard uid S
               in if S' = [] then dict_pop rid RC else dict_set rid S' RC)"

definition room_discard :: "string \<Rightarrow> string \<Rightarrow> string list dict \<Rightarrow> string list dict" where
  "room_discard uid rid RC =
     (case map_of RC rid of
        None \<Rightarrow> RC
      | Some S \<Rightarrow> if S = [] then RC else dict_set rid (set_discard uid S) RC)"

definition room_add :: "string \<Rightarrow> string \<Rightarrow> string list dict \<Rightarrow> string list dict" where
  "room_add uid rid RC =
     dict_set rid (set_add uid (case map_of RC rid of None \<Rightarrow> [] | Some S \<Rightarrow> S)) RC"

section \<open>The manager's methods\<close>

definition force_disconnect ::
  "'w ws_api \<Rightarrow> nat \<Rightarrow> string \<Rightarrow> 'w conn_manager \<Rightarrow> 'w conn_manager" where
  "force_disconnect api c reason st =
     (case heap st c of
        None \<Rightarrow> st
      | Some conn \<Rightarrow>
          let w = websocket conn;
              w' = (if ws_connected api w then
                      (case ws_send_text api
                              (model_dump_json (error_message reason ''disconnected'')) w of
                         (Inl e, w1) \<Rightarrow> w1
                       | (Inr _, w1) \<Rightarrow> snd (ws_close api 1000 reason w1))
                    else w)
          in st\<lparr>heap := (heap st)(c \<mapsto> conn\<lparr>websocket := w',
                                         send_task := cancel_task (send_task conn)\<rparr>),
                connections := dict_pop (conn_user conn) (connections st),
                room_connections :=
                  fold (room_discard (conn_user conn)) (rooms conn) (room_connections st)\<rparr>)"

definition connect ::
  "'w ws_api \<Rightarrow> settings \<Rightarrow> 'w \<Rightarrow> string \<Rightarrow> string \<Rightarrow> timestamp \<Rightarrow> ('w conn_manager, nat) eff" where
  "connect api cfg ws uid uname now st =
     (case ws_accept api ws of
        (Inl e, ws') \<Rightarrow> (Inl e, st)
      | (Inr _, ws') \<Rightarrow>
          let st1 = (case map_of (connections st) uid of
                       None \<Rightarrow> st
                     | Some old \<Rightarrow> force_disconnect api old ''New connection opened'' st);
              c = next_ref st1
          in (Inr c,
              st1\<lparr>heap := (heap st1)(c \<mapsto> new_connection cfg ws' uid uname now),
                  next_ref := Suc c,
                  connections := dict_set uid c (connections st1)\<rparr>))"

definition disconnect :: "'w ws_api \<Rightarrow> string \<Rightarrow> 'w conn_manager \<Rightarrow> 'w conn_manager" where
  "disconnect api uid st =
     (case map_of (connections st) uid of
        None \<Rightarrow> st
      | Some c \<Rightarrow>
          (case heap st c of
             None \<Rightarrow> st\<lparr>connections := dict_pop uid (connections st)\<rparr>
           | Some conn \<Rightarrow>
               let w = websocket conn;
                   w' = (if ws_connected api w then snd (ws_close api 1000 [] w) else w)
               in st\<lparr>heap := (heap st)(c \<mapsto> conn\<lparr>websocket := w',
                                              send_task := cancel_task (send_task conn)\<rparr>),
                     connections := dict_pop uid (connections st),
                     room_connections :=
                       fold (room_drop uid) (rooms conn) (room_connections st)\<rparr>))"

definition join_room :: "string \<Rightarrow> string \<Rightarrow> 'w conn_manager \<Rightarrow> 'w conn_manager" where
  "join_room uid rid st =
     (case map_of (connections st) uid of
        None \<Rightarrow> st
      | Some c \<Rightarrow>
          (upd_conn c (\<lambda>conn. conn\<lparr>rooms := set_add rid (rooms conn)\<rparr>) st)
            \<lparr>room_connections := room_add uid rid (room_connections st)\<rparr>)"

definition leave_room :: "string \<Rightarrow> string \<Rightarrow> 'w conn_manager \<Rightarrow> 'w conn_manager" where
  "leave_room uid rid st =
     (case map_of (connections st) uid of
        None \<Rightarrow> st
      | Some c \<Rightarrow>
          (upd_conn c (\<lambda>conn. conn\<lparr>rooms := set_discard rid (rooms conn)\<rparr>) st)
            \<lparr>room_connections := room_drop uid rid (room_connections st)\<rparr>)"

text \<open>One user of the broadcast loop: enqueue, or schedule a disconnect when the queue is full.\<close>

definition broadcast_one ::
  "string option \<Rightarrow> wire \<Rightarrow> string \<Rightarrow> 'w conn_manager \<Rightarrow> 'w conn_manager" where
  "broadcast_one exclude_user payload uid st =
     (if Some uid = exclude_user then st
      else (case map_of (connections st) uid of
              None \<Rightarrow> st
            | Some c \<Rightarrow>
                (case heap st c of
                   None \<Rightarrow> st
                 | Some conn \<Rightarrow>
                     (case put_nowait payload (send_queue conn) of
                        Inr q \<Rightarrow> upd_conn c (\<lambda>conn. conn\<lparr>send_queue := q\<rparr>) st
                      | Inl _ \<Rightarrow>
                          st\<lparr>tasks := tasks st @ [(c, ''Send queue overflow (slow client)'')]\<rparr>))))"

definition get_room_user_ids :: "string \<Rightarrow> 'w conn_manager \<Rightarrow> string list" where
  "get_room_user_ids rid st =
     (case map_of (room_connections st) rid of None \<Rightarrow> [] | Some S \<Rightarrow> S)"

definition broadcast_to_room ::
  "string \<Rightarrow> ws_outbound \<Rightarrow> string option \<Rightarrow> 'w conn_manager \<Rightarrow> 'w conn_manager" where
  "broadcast_to_room rid message exclude_user st =
     (let payload = model_dump_json message
      in fold (broadcast_one exclude_user payload) (get_room_user_ids rid st) st)"

definition send_to_user :: "string \<Rightarrow> ws_outbound \<Rightarrow> 'w conn_manager \<Rightarrow> 'w conn_manager" where
  "send_to_user uid message st =
     (case map_of (connections st) uid of
        None \<Rightarrow> st
      | Some c \<Rightarrow>
          (case heap st c of
             None \<Rightarrow> st
           | Some conn \<Rightarrow>
               (case put_nowait (model_dump_json message) (send_queue conn) of
                  Inr q \<Rightarrow> upd_conn c (\<lambda>conn. conn\<lparr>send_queue := q\<rparr>) st
                | Inl _ \<Rightarrow> st)))"

text \<open>
  One turn of the loop of \<open>_process_send_queue\<close>: take the oldest payload and write it; a
  closed WebSocket or a failing write ends the task.
\<close>

definition send_queue_step :: "'w ws_api \<Rightarrow> 'w ws_connection \<Rightarrow> 'w ws_connection" where
  "send_queue_step api conn =
     (if send_task conn \<noteq> Running then conn
      else (case queue_get (send_queue conn) of
              None \<Rightarrow> conn
            | Some (payload, q) \<Rightarrow>
                (if ws_connected api (websocket conn) then
                   (case ws_send_text api payload (websocket conn) of
                      (Inr _, w) \<Rightarrow> conn\<lparr>websocket := w, send_queue := q\<rparr>
                    | (Inl e, w) \<Rightarrow> conn\<lparr>websocket := w, send_queue := q, send_task := Finished\<rparr>)
                 else conn\<lparr>send_queue := q, send_task := Finished\<rparr>)))"

text \<open>The loop until it waits for a payload or ends.\<close>

function process_send_queue :: "'w ws_api \<Rightarrow> 'w ws_connection \<Rightarrow> 'w ws_connection" where
  "process_send_queue api conn =
     (if send_task conn \<noteq> Running \<or> items (send_queue conn) = [] then conn
      else process_send_queue api (send_queue_step api conn))"
  by pat_completeness auto
termination
  by (relation "measure (\<lambda>(api, conn). length (items (send_queue conn)))")
     (auto simp: send_queue_step_def queue_get_def split: list.splits prod.splits sum.splits)

declare process_send_queue.simps [simp del]

definition get_connection :: "string \<Rightarrow> 'w conn_manager \<Rightarrow> nat option" where
  "get_connection uid st = map_of (connections st) uid"

definition get_user_rooms :: "string \<Rightarrow> 'w conn_manager \<Rightarrow> string list" where
  "get_user_rooms uid st =
     (case map_of (connections st) uid of
        None \<Rightarrow> []
      | Some c \<Rightarrow> (case heap st c of None \<Rightarrow> [] | Some conn \<Rightarrow> rooms conn))"

section \<open>Stretches without an await\<close>

text \<open>The \<open>finally\<close> block of \<open>_force_disconnect\<close>.\<close>

definition untrack :: "nat \<Rightarrow> 'w conn_manager \<Rightarrow> 'w conn_manager" where
  "untrack c st =
     (case heap st c of
        None \<Rightarrow> st
      | Some conn \<Rightarrow>
          st\<lparr>heap := (heap st)(c \<mapsto> conn\<lparr>send_task := cancel_task (send_task conn)\<rparr>),
             connections := dict_pop (conn_user conn) (connections st),
             room_connections := fold (room_discard (conn_user conn)) (rooms conn) (room_connections st)\<rparr>)"

text \<open>The end of \<open>connect\<close>: the new object and its entry in the table.\<close>

definition register_connection ::
  "settings \<Rightarrow> 'w \<Rightarrow> string \<Rightarrow> string \<Rightarrow> timestamp \<Rightarrow> ('w conn_manager, nat) eff" where
  "register_connection cfg ws uid uname now st =
     (let c = next_ref st
      in (Inr c, st\<lparr>heap := (heap st)(c \<mapsto> new_connection cfg ws uid uname now), next_ref := Suc c,
                    connections := dict_set uid c (connections st)\<rparr>))"

text \<open>
  The beginning of \<open>disconnect\<close>: all but the closing of the WebSocket; the result is the object whose
  WebSocket is still to be closed, if there is one.
\<close>

definition pop_connection :: "'w ws_api \<Rightarrow> string \<Rightarrow> ('w conn_manager, nat option) eff" where
  "pop_connection api uid st =
     (case map_of (connections st) uid of
        None \<Rightarrow> (Inr None, st)
      | Some c \<Rightarrow>
          (case heap st c of
             None \<Rightarrow> (Inr None, st\<lparr>connections := dict_pop uid (connections st)\<rparr>)
           | Some conn \<Rightarrow>
               (Inr (if ws_connected api (websocket conn) then Some c else None),
                st\<lparr>heap := (heap st)(c \<mapsto> conn\<lparr>send_task := cancel_task (send_task conn)\<rparr>),
                   connections := dict_pop uid (connections st),
                   room_connections := fold (room_drop uid) (rooms conn) (room_connections st)\<rparr>)))"

end
