(* ===== verification/Connections_Inv.thy ===== *)
theory Connections_Inv
  imports Connections
begin

text \<open>
  Invariants of the connection manager. \<open>in_room\<close> reads the room index, \<open>get_user_rooms\<close>
  the connection objects; the two describe the same relation from both sides, and the
  lemmas of this theory say how each operation changes either side.

  \<^item> \<open>cm_wf\<close>: the tables are well formed, registered references point to connections of the
    right user, send queues stay within their bound, and every room of a registered
    connection has the user in its index (\<open>covered\<close>). Every operation keeps it.
  \<^item> \<open>tight\<close>: the converse inclusion. Every operation keeps it except a scheduled
    \<open>_force_disconnect\<close> whose connection has meanwhile been replaced (\<open>stale\<close>).
\<close>

section \<open>The room index\<close>

definition in_room :: "string list dict \<Rightarrow> string \<Rightarrow> string \<Rightarrow> bool" where
  "in_room RC r u \<longleftrightarrow> (case map_of RC r of None \<Rightarrow> False | Some S \<Rightarrow> u \<in> set S)"

definition index_ok :: "string list dict \<Rightarrow> bool" where
  "index_ok RC \<longleftrightarrow> distinct (keys RC) \<and> (\<forall>r S. map_of RC r = Some S \<longrightarrow> distinct S)"

definition no_empty_room :: "string list dict \<Rightarrow> bool" where
  "no_empty_room RC \<longleftrightarrow> (\<forall>r. map_of RC r \<noteq> Some [])"

lemmas room_ops = room_drop_def room_discard_def room_add_def

lemma in_room_Nil [simp]: "\<not> in_room [] r u"
  by (simp add: in_room_def)

lemma in_room_add [simp]: "in_room (room_add u r RC) r' u' \<longleftrightarrow> in_room RC r' u' \<or> (r' = r \<and> u' = u)"
  by (cases "map_of RC r") (auto simp: in_room_def room_add_def)

lemma in_room_drop [simp]: "in_room (room_drop u r RC) r' u' \<longleftrightarrow> in_room RC r' u' \<and> \<not> (r' = r \<and> u' = u)"
  by (cases "map_of RC r") (auto simp: in_room_def room_drop_def Let_def set_discard_Nil_iff)

lemma in_room_discard [simp]:
  "in_room (room_discard u r RC) r' u' \<longleftrightarrow> in_room RC r' u' \<and> \<not> (r' = r \<and> u' = u)"
  by (cases "map_of RC r") (auto simp: in_room_def room_discard_def)

lemma in_room_fold_drop [simp]:
  "in_room (fold (room_drop u) rs RC) r' u' \<longleftrightarrow> in_room RC r' u' \<and> \<not> (r' \<in> set rs \<and> u' = u)"
  by (induction rs arbitrary: RC) auto

lemma in_room_fold_discard [simp]:
  "in_room (fold (room_discard u) rs RC) r' u' \<longleftrightarrow> in_room RC r' u' \<and> \<not> (r' \<in> set rs \<and> u' = u)"
  by (induction rs arbitrary: RC) auto

lemma index_ok_Nil [simp]: "index_ok []"
  by (simp add: index_ok_def)

lemma index_ok_lookup: "index_ok RC \<Longrightarrow> map_of RC r = Some S \<Longrightarrow> distinct S"
  unfolding index_ok_def by blast

lemma index_ok_set: "index_ok RC \<Longrightarrow> distinct S \<Longrightarrow> index_ok (dict_set r S RC)"
  by (simp add: index_ok_def)

lemma index_ok_pop: "index_ok RC \<Longrightarrow> index_ok (dict_pop r RC)"
  by (simp add: index_ok_def)

lemma index_ok_add [simp]: "index_ok RC \<Longrightarrow> index_ok (room_add u r RC)"
  by (auto simp: room_add_def intro!: index_ok_set dest: index_ok_lookup split: option.split)

lemma index_ok_drop [simp]: "index_ok RC \<Longrightarrow> index_ok (room_drop u r RC)"
  by (auto simp: room_drop_def Let_def intro!: index_ok_set index_ok_pop dest: index_ok_lookup split: option.split)

lemma index_ok_discard [simp]: "index_ok RC \<Longrightarrow> index_ok (room_discard u r RC)"
  by (auto simp: room_discard_def intro!: index_ok_set dest: index_ok_lookup split: option.split)

lemma index_ok_fold_drop [simp]: "index_ok RC \<Longrightarrow> index_ok (fold (room_drop u) rs RC)"
  by (induction rs arbitrary: RC) auto

lemma index_ok_fold_discard [simp]: "index_ok RC \<Longrightarrow> index_ok (fold (room_discard u) rs RC)"
  by (induction rs arbitrary: RC) auto

lemma no_empty_room_add [simp]: "no_empty_room RC \<Longrightarrow> no_empty_room (room_add u r RC)"
  by (auto simp: no_empty_room_def room_add_def set_add_def split: option.splits)

lemma no_empty_room_drop [simp]: "no_empty_room RC \<Longrightarrow> no_empty_room (room_drop u r RC)"
  by (auto simp: no_empty_room_def room_drop_def Let_def split: option.splits)

lemma no_empty_room_fold_drop [simp]: "no_empty_room RC \<Longrightarrow> no_empty_room (fold (room_drop u) rs RC)"
  by (induction rs arbitrary: RC) auto

lemma get_room_user_ids_in_room: "u \<in> set (get_room_user_ids r st) \<longleftrightarrow> in_room (room_connections st) r u"
  by (simp add: get_room_user_ids_def in_room_def split: option.split)

lemma distinct_get_room_user_ids: "index_ok (room_connections st) \<Longrightarrow> distinct (get_room_user_ids r st)"
  by (auto simp: get_room_user_ids_def index_ok_def split: option.splits)

section \<open>Well-formedness\<close>

definition table_ok :: "'w conn_manager \<Rightarrow> bool" where
  "table_ok st \<longleftrightarrow>
     distinct (keys (connections st)) \<and>
     (\<forall>u c. map_of (connections st) u = Some c \<longrightarrow>
        (\<exists>conn. heap st c = Some conn \<and> conn_user conn = u)) \<and>
     (\<forall>c conn. heap st c = Some conn \<longrightarrow> c < next_ref st) \<and>
     (\<forall>c reason. (c, reason) \<in> set (tasks st) \<longrightarrow> (\<exists>conn. heap st c = Some conn))"

definition queues_ok :: "'w conn_manager \<Rightarrow> bool" where
  "queues_ok st \<longleftrightarrow> (\<forall>c conn. heap st c = Some conn \<longrightarrow> queue_within (send_queue conn))"

definition covered :: "'w conn_manager \<Rightarrow> bool" where
  "covered st \<longleftrightarrow>
     (\<forall>u r. r \<in> set (get_user_rooms u st) \<longrightarrow> in_room (room_connections st) r u)"

definition tight :: "'w conn_manager \<Rightarrow> bool" where
  "tight st \<longleftrightarrow>
     (\<forall>u r. in_room (room_connections st) r u \<longrightarrow> r \<in> set (get_user_rooms u st))"

definition cm_wf :: "'w conn_manager \<Rightarrow> bool" where
  "cm_wf st \<longleftrightarrow> table_ok st \<and> queues_ok st \<and> index_ok (room_connections st) \<and> covered st"

definition stale :: "'w conn_manager \<Rightarrow> nat \<Rightarrow> bool" where
  "stale st c \<longleftrightarrow>
     (\<exists>conn c'. heap st c = Some conn \<and> map_of (connections st) (conn_user conn) = Some c' \<and> c' \<noteq> c)"

lemma table_okD:
  assumes "table_ok st"
  shows "distinct (keys (connections st))"
    and "map_of (connections st) u = Some c \<Longrightarrow> \<exists>conn. heap st c = Some conn \<and> conn_user conn = u"
    and "heap st c = Some conn \<Longrightarrow> c < next_ref st"
    and "(c, reason) \<in> set (tasks st) \<Longrightarrow> \<exists>conn. heap st c = Some conn"
  using assms unfolding table_ok_def by blast+

lemma table_ok_inj:
  "table_ok st \<Longrightarrow> map_of (connections st) u = Some c \<Longrightarrow> map_of (connections st) v = Some c \<Longrightarrow> u = v"
  by (metis option.inject table_okD(2))

lemma registeredE:
  assumes "table_ok st" "map_of (connections st) u = Some c"
  obtains conn where "heap st c = Some conn" "conn_user conn = u"
  using table_okD(2) [OF assms] by blast

lemmas cm_parts = table_ok_def queues_ok_def covered_def tight_def

text \<open>An update of one object that keeps its owner.\<close>

lemma upd_conn_simps [simp]:
  "connections (upd_conn c f st) = connections st"
  "room_connections (upd_conn c f st) = room_connections st"
  "tasks (upd_conn c f st) = tasks st"
  "next_ref (upd_conn c f st) = next_ref st"
  "heap (upd_conn c f st) = (heap st)(c := map_option f (heap st c))"
  by (simp_all add: upd_conn_def)

lemma get_user_rooms_upd_conn:
  assumes "\<And>conn. rooms (f conn) = rooms conn"
  shows "get_user_rooms u (upd_conn c f st) = get_user_rooms u st"
  using assms by (auto simp: get_user_rooms_def split: option.splits)

lemma table_ok_upd_conn:
  assumes "table_ok st" and "\<And>conn. conn_user (f conn) = conn_user conn"
  shows "table_ok (upd_conn c f st)"
proof -
  have *: "\<exists>conn'. heap (upd_conn c f st) c' = Some conn' \<and> conn_user conn' = conn_user conn"
    if "heap st c' = Some conn" for c' conn
    using that assms(2) by auto
  show ?thesis
    unfolding table_ok_def upd_conn_simps(1-4)
  proof (intro conjI allI impI)
    show "distinct (keys (connections st))"
      using assms(1) by (rule table_okD)
    show "\<exists>conn. heap (upd_conn c f st) c' = Some conn \<and> conn_user conn = u"
      if "map_of (connections st) u = Some c'" for u c'
      using * registeredE [OF assms(1) that] by metis
    show "c' < next_ref st" if "heap (upd_conn c f st) c' = Some conn" for c' conn
      using that table_okD(3) [OF assms(1)] by (auto split: if_splits)
    show "\<exists>conn. heap (upd_conn c f st) c' = Some conn" if "(c', reason) \<in> set (tasks st)" for c' reason
      using * table_okD(4) [OF assms(1) that] by blast
  qed
qed

text \<open>Updates that keep owner and rooms and do not overfill the queue keep every invariant.\<close>

lemma upd_conn_keeps:
  assumes "\<And>conn. conn_user (f conn) = conn_user conn" and "\<And>conn. rooms (f conn) = rooms conn"
    and "\<And>conn. heap st c = Some conn \<Longrightarrow> queue_within (send_queue conn) \<Longrightarrow> queue_within (send_queue (f conn))"
  shows "cm_wf st \<Longrightarrow> cm_wf (upd_conn c f st)"
    and "tight st \<Longrightarrow> tight (upd_conn c f st)"
proof -
  assume "cm_wf st"
  then show "cm_wf (upd_conn c f st)"
    using assms table_ok_upd_conn [of st f c]
    by (auto simp: cm_wf_def queues_ok_def covered_def get_user_rooms_upd_conn)
next
  assume "tight st"
  then show "tight (upd_conn c f st)"
    using assms(2) by (simp add: tight_def get_user_rooms_upd_conn)
qed

section \<open>Removing and registering a connection\<close>

text \<open>
  \<open>disconnect\<close> and \<open>_force_disconnect\<close> both end in such a state: the object keeps its owner,
  rooms and queue, the user is unregistered, and the room index shrinks for that user only.
\<close>

definition retired ::
  "nat \<Rightarrow> 'w ws_connection \<Rightarrow> string list dict \<Rightarrow> 'w conn_manager \<Rightarrow> 'w conn_manager" where
  "retired c conn RC st =
     st\<lparr>heap := (heap st)(c \<mapsto> conn), connections := dict_pop (conn_user conn) (connections st),
        room_connections := RC\<rparr>"

lemma retired_simps [simp]:
  "heap (retired c conn RC st) = (heap st)(c \<mapsto> conn)"
  "connections (retired c conn RC st) = dict_pop (conn_user conn) (connections st)"
  "room_connections (retired c conn RC st) = RC"
  "tasks (retired c conn RC st) = tasks st"
  "next_ref (retired c conn RC st) = next_ref st"
  by (simp_all add: retired_def)

definition same_conn :: "'w ws_connection \<Rightarrow> 'w ws_connection \<Rightarrow> bool" where
  "same_conn conn conn' \<longleftrightarrow> conn_user conn' = conn_user conn \<and> rooms conn' = rooms conn
     \<and> send_queue conn' = send_queue conn"

lemma force_disconnect_None [simp]: "heap st c = None \<Longrightarrow> force_disconnect api c reason st = st"
  by (simp add: force_disconnect_def)

lemma force_disconnect_retired:
  assumes "heap st c = Some conn"
  obtains conn' where "same_conn conn conn'"
    and "force_disconnect api c reason st =
           retired c conn' (fold (room_discard (conn_user conn)) (rooms conn) (room_connections st)) st"
  by (rule that [of "the (heap (force_disconnect api c reason st) c)"])
     (simp_all add: assms force_disconnect_def retired_def same_conn_def Let_def)

lemma disconnect_retired:
  assumes "map_of (connections st) u = Some c" "heap st c = Some conn" "conn_user conn = u"
  obtains conn' where "same_conn conn conn'"
    and "disconnect api u st = retired c conn' (fold (room_drop u) (rooms conn) (room_connections st)) st"
  by (rule that [of "the (heap (disconnect api u st) c)"])
     (simp_all add: assms disconnect_def retired_def same_conn_def Let_def)

lemma untrack_retired:
  assumes "heap st c = Some conn"
  obtains conn' where "same_conn conn conn'"
    and "untrack c st = retired c conn' (fold (room_discard (conn_user conn)) (rooms conn) (room_connections st)) st"
  by (rule that [of "the (heap (untrack c st) c)"])
     (simp_all add: assms untrack_def retired_def same_conn_def)

lemma pop_connection_retired:
  assumes "map_of (connections st) u = Some c" "heap st c = Some conn" "conn_user conn = u"
  obtains conn' where "same_conn conn conn'"
    and "snd (pop_connection api u st) = retired c conn' (fold (room_drop u) (rooms conn) (room_connections st)) st"
  by (rule that [of "the (heap (snd (pop_connection api u st)) c)"])
     (simp_all add: assms pop_connection_def retired_def same_conn_def)

lemma get_user_rooms_retired:
  assumes "heap st c = Some conn" "same_conn conn conn'"
  shows "get_user_rooms u (retired c conn' RC st) = (if u = conn_user conn then [] else get_user_rooms u st)"
  using assms by (auto simp: get_user_rooms_def same_conn_def split: option.splits)

lemma table_ok_retired:
  assumes "table_ok st" "heap st c = Some conn" "same_conn conn conn'"
  shows "table_ok (retired c conn' RC st)"
proof -
  have old: "\<exists>k'. heap (retired c conn' RC st) c' = Some k' \<and> conn_user k' = conn_user k"
    if "heap st c' = Some k" for c' k
    using that assms(2,3) by (auto simp: same_conn_def)
  show ?thesis
    unfolding table_ok_def
  proof (intro conjI allI impI)
    show "distinct (keys (connections (retired c conn' RC st)))"
      using table_okD(1) [OF assms(1)] by simp
    show "\<exists>k. heap (retired c conn' RC st) c' = Some k \<and> conn_user k = u"
      if "map_of (connections (retired c conn' RC st)) u = Some c'" for u c'
    proof -
      from that have "map_of (connections st) u = Some c'" by (simp split: if_splits)
      with assms(1) show ?thesis using old by (metis registeredE)
    qed
    show "c' < next_ref (retired c conn' RC st)"
      if "heap (retired c conn' RC st) c' = Some k" for c' k
      using that assms(2) table_okD(3) [OF assms(1)] by (auto split: if_splits)
    show "\<exists>k. heap (retired c conn' RC st) c' = Some k"
      if "(c', reason) \<in> set (tasks (retired c conn' RC st))" for c' reason
      using that old table_okD(4) [OF assms(1)] by fastforce
  qed
qed

lemma retired_wf:
  assumes "cm_wf st" "heap st c = Some conn" "same_conn conn conn'" "index_ok RC"
    and "\<And>r v. v \<noteq> conn_user conn \<Longrightarrow> in_room (room_connections st) r v \<Longrightarrow> in_room RC r v"
  shows "cm_wf (retired c conn' RC st)"
proof -
  have "queues_ok (retired c conn' RC st)"
    using assms(1-3) by (auto simp: cm_wf_def queues_ok_def same_conn_def)
  moreover have "covered (retired c conn' RC st)"
    using assms by (auto simp: cm_wf_def covered_def get_user_rooms_retired)
  ultimately show ?thesis
    using assms by (simp add: cm_wf_def table_ok_retired)
qed

lemma retired_tight:
  assumes "tight st" "heap st c = Some conn" "same_conn conn conn'"
    and "\<And>r v. in_room RC r v \<Longrightarrow> in_room (room_connections st) r v \<and> v \<noteq> conn_user conn"
  shows "tight (retired c conn' RC st)"
  using assms by (auto simp: tight_def get_user_rooms_retired)

definition registered ::
  "settings \<Rightarrow> 'w \<Rightarrow> string \<Rightarrow> string \<Rightarrow> timestamp \<Rightarrow> 'w conn_manager \<Rightarrow> 'w conn_manager" where
  "registered cfg ws uid uname now st =
     st\<lparr>heap := (heap st)(next_ref st \<mapsto> new_connection cfg ws uid uname now),
        next_ref := Suc (next_ref st), connections := dict_set uid (next_ref st) (connections st)\<rparr>"

lemma registered_simps [simp]:
  "heap (registered cfg ws uid uname now st) = (heap st)(next_ref st \<mapsto> new_connection cfg ws uid uname now)"
  "connections (registered cfg ws uid uname now st) = dict_set uid (next_ref st) (connections st)"
  "room_connections (registered cfg ws uid uname now st) = room_connections st"
  "tasks (registered cfg ws uid uname now st) = tasks st"
  "next_ref (registered cfg ws uid uname now st) = Suc (next_ref st)"
  by (simp_all add: registered_def)

lemma new_connection_simps [simp]:
  "conn_user (new_connection cfg ws uid uname now) = uid"
  "rooms (new_connection cfg ws uid uname now) = []"
  "websocket (new_connection cfg ws uid uname now) = ws"
  "queue_within (send_queue (new_connection cfg ws uid uname now))"
  by (simp_all add: new_connection_def)

lemma get_user_rooms_registered:
  assumes "table_ok st"
  shows "get_user_rooms u (registered cfg ws uid uname now st) = (if u = uid then [] else get_user_rooms u st)"
proof -
  have "c \<noteq> next_ref st" if "map_of (connections st) u = Some c" for c
    using assms that by (metis less_irrefl registeredE table_okD(3))
  then show ?thesis by (auto simp: get_user_rooms_def split: option.splits)
qed

lemma table_ok_registered:
  assumes "table_ok st"
  shows "table_ok (registered cfg ws uid uname now st)"
proof -
  have ref: "c < next_ref st" if "heap st c = Some conn" for c conn
    using assms that by (rule table_okD)
  have old: "heap (registered cfg ws uid uname now st) c = Some conn"
    if "heap st c = Some conn" for c conn
    using ref [OF that] that by simp
  show ?thesis
    unfolding table_ok_def
  proof (intro conjI allI impI)
    show "distinct (keys (connections (registered cfg ws uid uname now st)))"
      using assms by (simp add: table_okD(1))
    show "\<exists>conn. heap (registered cfg ws uid uname now st) c = Some conn \<and> conn_user conn = u"
      if "map_of (connections (registered cfg ws uid uname now st)) u = Some c" for u c
    proof (cases "u = uid")
      case True
      with that show ?thesis by simp
    next
      case False
      with that have "map_of (connections st) u = Some c" by simp
      with assms show ?thesis using old by (metis registeredE)
    qed
    show "c < next_ref (registered cfg ws uid uname now st)"
      if "heap (registered cfg ws uid uname now st) c = Some conn" for c conn
      using that ref by (fastforce split: if_splits)
    show "\<exists>conn. heap (registered cfg ws uid uname now st) c = Some conn"
      if "(c, reason) \<in> set (tasks (registered cfg ws uid uname now st))" for c reason
      using that old table_okD(4) [OF assms] by fastforce
  qed
qed

lemma registered_wf: "cm_wf st \<Longrightarrow> cm_wf (registered cfg ws uid uname now st)"
  unfolding cm_wf_def
  by (auto simp: table_ok_registered queues_ok_def covered_def get_user_rooms_registered)

lemma register_connection_registered:
  "register_connection cfg ws uid uname now st = (Inr (next_ref st), registered cfg ws uid uname now st)"
  by (simp add: register_connection_def registered_def Let_def)

lemma registered_tight:
  assumes "tight st" "table_ok st" "get_user_rooms uid st = []"
  shows "tight (registered cfg ws uid uname now st)"
  using assms by (fastforce simp: tight_def get_user_rooms_registered)

section \<open>Every operation keeps the invariants\<close>

subsection \<open>Forced and regular disconnects\<close>

lemma force_disconnect_wf:
  assumes "cm_wf st"
  shows "cm_wf (force_disconnect api c reason st)"
proof (cases "heap st c")
  case None
  with assms show ?thesis by simp
next
  case (Some conn)
  then obtain conn' where same: "same_conn conn conn'"
    and eq: "force_disconnect api c reason st =
      retired c conn' (fold (room_discard (conn_user conn)) (rooms conn) (room_connections st)) st"
    by (rule force_disconnect_retired)
  show ?thesis
    unfolding eq by (rule retired_wf [OF assms Some same]) (use assms in \<open>auto simp: cm_wf_def\<close>)
qed

lemma untrack_wf:
  assumes "cm_wf st" shows "cm_wf (untrack c st)"
proof (cases "heap st c")
  case None
  with assms show ?thesis by (simp add: untrack_def)
next
  case (Some conn)
  then obtain conn' where same: "same_conn conn conn'"
    and eq: "untrack c st = retired c conn' (fold (room_discard (conn_user conn)) (rooms conn) (room_connections st)) st"
    by (rule untrack_retired)
  show ?thesis
    unfolding eq by (rule retired_wf [OF assms Some same]) (use assms in \<open>auto simp: cm_wf_def\<close>)
qed

lemma force_disconnect_tight:
  assumes "tight st" "\<not> stale st c"
  shows "tight (force_disconnect api c reason st)"
proof (cases "heap st c")
  case None
  with assms show ?thesis by simp
next
  case (Some conn)
  then obtain conn' where same: "same_conn conn conn'"
    and eq: "force_disconnect api c reason st =
      retired c conn' (fold (room_discard (conn_user conn)) (rooms conn) (room_connections st)) st"
    by (rule force_disconnect_retired)
  have "r \<in> set (rooms conn)" if "in_room (room_connections st) r (conn_user conn)" for r
  proof -
    from that assms(1) have "r \<in> set (get_user_rooms (conn_user conn) st)"
      by (simp add: tight_def)
    with assms(2) Some show ?thesis
      by (cases "map_of (connections st) (conn_user conn)") (auto simp: get_user_rooms_def stale_def)
  qed
  then show ?thesis
    unfolding eq by (intro retired_tight [OF assms(1) Some same]) auto
qed

lemma get_user_rooms_force_disconnect:
  assumes "heap st c = Some conn"
  shows "get_user_rooms u (force_disconnect api c reason st) =
           (if u = conn_user conn then [] else get_user_rooms u st)"
  using force_disconnect_retired [OF assms] get_user_rooms_retired [OF assms] by metis

lemma disconnect_wf:
  assumes "cm_wf st"
  shows "cm_wf (disconnect api u st)"
proof (cases "map_of (connections st) u")
  case None
  with assms show ?thesis by (simp add: disconnect_def)
next
  case (Some c)
  with assms obtain conn where conn: "heap st c = Some conn" "conn_user conn = u"
    by (auto simp: cm_wf_def elim: registeredE)
  from disconnect_retired [OF Some conn] obtain conn' where same: "same_conn conn conn'"
    and eq: "disconnect api u st = retired c conn' (fold (room_drop u) (rooms conn) (room_connections st)) st"
    by blast
  show ?thesis
    unfolding eq
    by (rule retired_wf [OF assms conn(1) same]) (use assms conn in \<open>auto simp: cm_wf_def\<close>)
qed

lemma pop_connection_wf:
  assumes "cm_wf st" shows "cm_wf (snd (pop_connection api u st))"
proof (cases "map_of (connections st) u")
  case None
  with assms show ?thesis by (simp add: pop_connection_def)
next
  case (Some c)
  with assms obtain conn where conn: "heap st c = Some conn" "conn_user conn = u" by (auto simp: cm_wf_def elim: registeredE)
  with Some obtain conn' where same: "same_conn conn conn'"
    and eq: "snd (pop_connection api u st) = retired c conn' (fold (room_drop u) (rooms conn) (room_connections st)) st"
    by (rule pop_connection_retired)
  show ?thesis
    unfolding eq by (rule retired_wf [OF assms conn(1) same]) (use assms conn in \<open>auto simp: cm_wf_def\<close>)
qed

lemma disconnect_tight:
  assumes "cm_wf st" "tight st"
  shows "tight (disconnect api u st)"
proof (cases "map_of (connections st) u")
  case None
  with assms show ?thesis by (simp add: disconnect_def)
next
  case (Some c)
  with assms obtain conn where conn: "heap st c = Some conn" "conn_user conn = u"
    by (auto simp: cm_wf_def elim: registeredE)
  from disconnect_retired [OF Some conn] obtain conn' where same: "same_conn conn conn'"
    and eq: "disconnect api u st = retired c conn' (fold (room_drop u) (rooms conn) (room_connections st)) st"
    by blast
  have "r \<in> set (rooms conn)" if "in_room (room_connections st) r u" for r
    using that assms(2) Some conn by (fastforce simp: tight_def get_user_rooms_def)
  then show ?thesis
    unfolding eq by (intro retired_tight [OF assms(2) conn(1) same]) (use conn in auto)
qed

lemma get_user_rooms_disconnect:
  assumes "table_ok st"
  shows "get_user_rooms v (disconnect api u st) = (if v = u then [] else get_user_rooms v st)"
proof (cases "map_of (connections st) u")
  case None
  then show ?thesis by (simp add: disconnect_def get_user_rooms_def)
next
  case (Some c)
  with assms obtain conn where conn: "heap st c = Some conn" "conn_user conn = u"
    by (rule registeredE)
  from disconnect_retired [OF Some conn] show ?thesis
    using get_user_rooms_retired [OF conn(1)] conn(2) by metis
qed

lemma map_of_connections_disconnect:
  "map_of (connections (disconnect api u st)) = (map_of (connections st))(u := None)"
  by (auto simp: disconnect_def Let_def split: option.split)

subsection \<open>Connecting\<close>

lemma connect_rejected: "ws_accept api ws = (Inl e, ws') \<Longrightarrow> connect api cfg ws uid uname now st = (Inl e, st)"
  by (simp add: connect_def)

text \<open>The state in which the new connection is registered: an old one has been forced out.\<close>

definition evicted :: "'w ws_api \<Rightarrow> string \<Rightarrow> 'w conn_manager \<Rightarrow> 'w conn_manager" where
  "evicted api uid st =
     (case map_of (connections st) uid of
        None \<Rightarrow> st | Some old \<Rightarrow> force_disconnect api old ''New connection opened'' st)"

lemma connect_accepted:
  "ws_accept api ws = (Inr (), ws') \<Longrightarrow>
   connect api cfg ws uid uname now st =
     (Inr (next_ref (evicted api uid st)), registered cfg ws' uid uname now (evicted api uid st))"
  by (simp add: connect_def evicted_def registered_def Let_def)

lemma get_user_rooms_evicted:
  assumes "table_ok st"
  shows "get_user_rooms u (evicted api uid st) = (if u = uid then [] else get_user_rooms u st)"
proof (cases "map_of (connections st) uid")
  case None
  then show ?thesis by (simp add: evicted_def get_user_rooms_def)
next
  case (Some c)
  with assms obtain conn where "heap st c = Some conn" "conn_user conn = uid"
    by (rule registeredE)
  with Some show ?thesis by (simp add: evicted_def get_user_rooms_force_disconnect)
qed

lemma evicted_wf: "cm_wf st \<Longrightarrow> cm_wf (evicted api uid st)"
  by (simp add: evicted_def force_disconnect_wf split: option.split)

lemma evicted_tight:
  assumes "cm_wf st" "tight st"
  shows "tight (evicted api uid st)"
proof (cases "map_of (connections st) uid")
  case None
  with assms show ?thesis by (simp add: evicted_def)
next
  case (Some c)
  with assms have "\<not> stale st c"
    by (auto simp: stale_def cm_wf_def elim: registeredE)
  with assms Some show ?thesis by (simp add: evicted_def force_disconnect_tight)
qed

lemma connect_wf: "cm_wf st \<Longrightarrow> cm_wf (snd (connect api cfg ws uid uname now st))"
proof (cases "ws_accept api ws")
  case (Pair r ws')
  assume "cm_wf st"
  with Pair show ?thesis
    by (cases r) (simp_all add: connect_rejected connect_accepted registered_wf evicted_wf)
qed

lemma connect_tight:
  assumes "cm_wf st" "tight st"
  shows "tight (snd (connect api cfg ws uid uname now st))"
proof (cases "ws_accept api ws")
  case (Pair r ws')
  have "tight (registered cfg ws' uid uname now (evicted api uid st))"
    using assms evicted_wf [OF assms(1)]
    by (intro registered_tight evicted_tight) (simp_all add: get_user_rooms_evicted cm_wf_def)
  with Pair assms(2) show ?thesis
    by (cases r) (simp_all add: connect_rejected connect_accepted)
qed

subsection \<open>Joining and leaving rooms\<close>

lemma get_user_rooms_set_rooms:
  assumes "table_ok st" "map_of (connections st) uid = Some c"
  shows "set (get_user_rooms u (upd_conn c (\<lambda>conn. conn\<lparr>rooms := f (rooms conn)\<rparr>) st)) =
           (if u = uid then set (f (get_user_rooms u st)) else set (get_user_rooms u st))"
proof -
  from assms obtain conn where conn: "heap st c = Some conn" by (rule registeredE)
  have "c' \<noteq> c" if "u \<noteq> uid" "map_of (connections st) u = Some c'" for c'
    using assms that table_ok_inj by metis
  with assms(2) conn show ?thesis
    by (cases "map_of (connections st) u") (auto simp: get_user_rooms_def)
qed

lemma get_user_rooms_rc [simp]: "get_user_rooms u (st\<lparr>room_connections := RC\<rparr>) = get_user_rooms u st"
  by (simp add: get_user_rooms_def split: option.split)

lemma table_ok_rc [simp]: "table_ok (st\<lparr>room_connections := RC\<rparr>) \<longleftrightarrow> table_ok st"
  by (simp add: table_ok_def)

lemma queues_ok_rc [simp]: "queues_ok (st\<lparr>room_connections := RC\<rparr>) \<longleftrightarrow> queues_ok st"
  by (simp add: queues_ok_def)

lemma queues_ok_upd_conn:
  assumes "queues_ok st"
    and "\<And>conn. heap st c = Some conn \<Longrightarrow> queue_within (send_queue conn) \<Longrightarrow> queue_within (send_queue (f conn))"
  shows "queues_ok (upd_conn c f st)"
  using assms by (auto simp: queues_ok_def)

lemma get_user_rooms_join:
  assumes "table_ok st"
  shows "r' \<in> set (get_user_rooms u' (join_room u r st)) \<longleftrightarrow>
           r' \<in> set (get_user_rooms u' st) \<or> (get_connection u st \<noteq> None \<and> u' = u \<and> r' = r)"
  using assms get_user_rooms_set_rooms [OF assms, of u]
  by (cases "map_of (connections st) u") (auto simp: join_room_def get_connection_def)

lemma get_user_rooms_leave:
  assumes "table_ok st"
  shows "r' \<in> set (get_user_rooms u' (leave_room u r st)) \<longleftrightarrow>
           r' \<in> set (get_user_rooms u' st) \<and> \<not> (u' = u \<and> r' = r)"
  using assms get_user_rooms_set_rooms [OF assms, of u]
  by (cases "map_of (connections st) u") (auto simp: leave_room_def get_user_rooms_def)

lemma join_index: "room_connections (join_room u r st) =
    (if get_connection u st = None then room_connections st else room_add u r (room_connections st))"
  by (auto simp: join_room_def get_connection_def split: option.split)

lemma leave_index: "room_connections (leave_room u r st) =
    (if get_connection u st = None then room_connections st else room_drop u r (room_connections st))"
  by (auto simp: leave_room_def get_connection_def split: option.split)

lemma join_leave_table:
  "table_ok st \<Longrightarrow> table_ok (join_room u r st)" "table_ok st \<Longrightarrow> table_ok (leave_room u r st)"
  "queues_ok st \<Longrightarrow> queues_ok (join_room u r st)" "queues_ok st \<Longrightarrow> queues_ok (leave_room u r st)"
  by (auto simp: join_room_def leave_room_def
      intro!: table_ok_upd_conn queues_ok_upd_conn split: option.split)

lemma join_room_wf:
  assumes "cm_wf st"
  shows "cm_wf (join_room u r st)"
  using assms unfolding cm_wf_def
  by (auto simp: join_leave_table join_index covered_def get_user_rooms_join)

lemma join_room_tight:
  assumes "cm_wf st" "tight st"
  shows "tight (join_room u r st)"
  using assms by (auto simp: cm_wf_def tight_def join_index get_user_rooms_join split: if_splits)

lemma get_user_rooms_offline: "get_connection u st = None \<Longrightarrow> get_user_rooms u st = []"
  by (simp add: get_connection_def get_user_rooms_def)

lemma leave_room_wf:
  assumes "cm_wf st"
  shows "cm_wf (leave_room u r st)"
  using assms unfolding cm_wf_def
  by (auto simp: join_leave_table leave_index covered_def get_user_rooms_leave)

lemma leave_room_tight:
  assumes "cm_wf st" "tight st"
  shows "tight (leave_room u r st)"
  using assms get_user_rooms_offline [of u st]
  by (fastforce simp: cm_wf_def tight_def leave_index get_user_rooms_leave split: if_splits)

subsection \<open>Sending\<close>

lemma enqueue_keeps:
  assumes "heap st c = Some conn" "put_nowait p (send_queue conn) = Inr q"
  shows "cm_wf st \<Longrightarrow> cm_wf (upd_conn c (\<lambda>conn. conn\<lparr>send_queue := q\<rparr>) st)"
    and "tight st \<Longrightarrow> tight (upd_conn c (\<lambda>conn. conn\<lparr>send_queue := q\<rparr>) st)"
  using queue_within_put [OF assms(2)] by (auto intro: upd_conn_keeps)

lemma schedule_keeps:
  assumes "heap st c = Some conn"
  shows "cm_wf st \<Longrightarrow> cm_wf (st\<lparr>tasks := tasks st @ [(c, reason)]\<rparr>)"
    and "tight st \<Longrightarrow> tight (st\<lparr>tasks := tasks st @ [(c, reason)]\<rparr>)"
  using assms
  by (auto simp: cm_wf_def table_ok_def queues_ok_def covered_def tight_def get_user_rooms_def)

lemma broadcast_one_keeps:
  shows "cm_wf st \<Longrightarrow> cm_wf (broadcast_one ex p u st)"
    and "tight st \<Longrightarrow> tight (broadcast_one ex p u st)"
  by (auto simp: broadcast_one_def intro: enqueue_keeps schedule_keeps
      split: option.split sum.split)

lemma broadcast_to_room_wf: "cm_wf st \<Longrightarrow> cm_wf (broadcast_to_room r m ex st)"
proof -
  have "cm_wf st \<Longrightarrow> cm_wf (fold (broadcast_one ex p) us st)" for p us
    by (induction us arbitrary: st) (auto simp: broadcast_one_keeps)
  then show "cm_wf st \<Longrightarrow> cm_wf (broadcast_to_room r m ex st)"
    by (simp add: broadcast_to_room_def Let_def)
qed

lemma broadcast_to_room_tight: "tight st \<Longrightarrow> tight (broadcast_to_room r m ex st)"
proof -
  have "tight st \<Longrightarrow> tight (fold (broadcast_one ex p) us st)" for p us
    by (induction us arbitrary: st) (auto simp: broadcast_one_keeps)
  then show "tight st \<Longrightarrow> tight (broadcast_to_room r m ex st)"
    by (simp add: broadcast_to_room_def Let_def)
qed

lemma send_to_user_keeps:
  shows "cm_wf st \<Longrightarrow> cm_wf (send_to_user u m st)" and "tight st \<Longrightarrow> tight (send_to_user u m st)"
  by (auto simp: send_to_user_def intro: enqueue_keeps split: option.split sum.split)

lemma send_queue_step_simps [simp]:
  "conn_user (send_queue_step api conn) = conn_user conn"
  "rooms (send_queue_step api conn) = rooms conn"
  by (auto simp: send_queue_step_def split: option.split prod.split sum.split)

lemma send_queue_step_within:
  "queue_within (send_queue conn) \<Longrightarrow> queue_within (send_queue (send_queue_step api conn))"
  by (auto simp: send_queue_step_def dest: queue_within_get split: option.split prod.split sum.split)

lemma send_queue_step_keeps:
  shows "cm_wf st \<Longrightarrow> cm_wf (upd_conn c (send_queue_step api) st)"
    and "tight st \<Longrightarrow> tight (upd_conn c (send_queue_step api) st)"
  by (auto intro: upd_conn_keeps send_queue_step_within)

end
