(* ===== verification/Connections_Machine.thy ===== *)
theory Connections_Machine
  imports Connections_Inv
begin

text \<open>
  The connection manager as a state machine. \<open>cm_step\<close> has one rule per method, one for a
  turn of a send-queue task, one for a scheduled forced disconnect that finally runs, and
  one for the environment changing a WebSocket (the peer closing it). \<open>cm_piece\<close> are the parts of
  the methods between two \<open>await\<close>s. \<open>cm_reach\<close> are the states reachable by both, and
  \<open>cm_reach_fresh\<close> those reached by whole methods, which hold the lock, while no scheduled
  disconnect has outlived the connection it was scheduled for.

  The locale \<open>room_registry\<close> is the interface the rest of the program relies on (who is in
  which room); the manager is an interpretation of it. The locale \<open>socket_log\<close> states what
  the send-queue task relies on of a WebSocket.
\<close>

section \<open>Steps and reachable states\<close>

inductive cm_step :: "'w ws_api \<Rightarrow> settings \<Rightarrow> 'w conn_manager \<Rightarrow> 'w conn_manager \<Rightarrow> bool"
  for api :: "'w ws_api" and cfg :: settings where
  step_connect: "cm_step api cfg st (snd (connect api cfg ws uid uname now st))"
| step_disconnect: "cm_step api cfg st (disconnect api uid st)"
| step_join: "cm_step api cfg st (join_room uid rid st)"
| step_leave: "cm_step api cfg st (leave_room uid rid st)"
| step_broadcast: "cm_step api cfg st (broadcast_to_room rid message exclude_user st)"
| step_send: "cm_step api cfg st (send_to_user uid message st)"
| step_drain: "cm_step api cfg st (upd_conn c (send_queue_step api) st)"
| step_activity: "cm_step api cfg st (upd_conn c (update_activity now) st)"
| step_socket: "cm_step api cfg st (upd_conn c (\<lambda>conn. conn\<lparr>websocket := w\<rparr>) st)"
| step_task: "tasks st = ts1 @ (c, reason) # ts2 \<Longrightarrow>
     cm_step api cfg st (force_disconnect api c reason (st\<lparr>tasks := ts1 @ ts2\<rparr>))"

text \<open>
  The stretches of the methods between their \<open>await\<close>s, taken on their own; a scheduled disconnect that
  starts leaves the list.
\<close>

inductive cm_piece :: "'w ws_api \<Rightarrow> settings \<Rightarrow> 'w conn_manager \<Rightarrow> 'w conn_manager \<Rightarrow> bool" for api :: "'w ws_api" and cfg :: settings where
  piece_untrack: "cm_piece api cfg st (untrack c st)"
| piece_register: "cm_piece api cfg st (snd (register_connection cfg ws uid uname now st))"
| piece_pop: "cm_piece api cfg st (snd (pop_connection api uid st))"
| piece_spawn: "set ts \<subseteq> set (tasks st) \<Longrightarrow> cm_piece api cfg st (st\<lparr>tasks := ts\<rparr>)"

inductive cm_reach :: "'w ws_api \<Rightarrow> settings \<Rightarrow> 'w conn_manager \<Rightarrow> bool"
  for api :: "'w ws_api" and cfg :: settings where
  reach_init: "cm_reach api cfg conn_manager_init"
| reach_step: "cm_reach api cfg st \<Longrightarrow> cm_step api cfg st st' \<Longrightarrow> cm_reach api cfg st'"
| reach_piece: "cm_reach api cfg st \<Longrightarrow> cm_piece api cfg st st' \<Longrightarrow> cm_reach api cfg st'"

definition no_stale :: "'w conn_manager \<Rightarrow> bool" where
  "no_stale st \<longleftrightarrow> (\<forall>(c, reason) \<in> set (tasks st). \<not> stale st c)"

lemma no_stale_no_tasks: "tasks st = [] \<Longrightarrow> no_stale st"
  by (simp add: no_stale_def)

inductive cm_reach_fresh :: "'w ws_api \<Rightarrow> settings \<Rightarrow> 'w conn_manager \<Rightarrow> bool"
  for api :: "'w ws_api" and cfg :: settings where
  fresh_init: "cm_reach_fresh api cfg conn_manager_init"
| fresh_step: "cm_reach_fresh api cfg st \<Longrightarrow> no_stale st \<Longrightarrow> cm_step api cfg st st' \<Longrightarrow>
     cm_reach_fresh api cfg st'"

inductive_cases cm_stepE: "cm_step api cfg st st'"

lemma init_wf [simp]: "cm_wf conn_manager_init" and init_tight [simp]: "tight conn_manager_init"
  by (simp_all add: conn_manager_init_def cm_wf_def table_ok_def queues_ok_def covered_def tight_def
      get_user_rooms_def)

lemma update_activity_keeps:
  shows "cm_wf st \<Longrightarrow> cm_wf (upd_conn c (update_activity now) st)"
    and "tight st \<Longrightarrow> tight (upd_conn c (update_activity now) st)"
  by (auto simp: update_activity_def intro: upd_conn_keeps)

lemma set_websocket_keeps:
  shows "cm_wf st \<Longrightarrow> cm_wf (upd_conn c (\<lambda>conn. conn\<lparr>websocket := w\<rparr>) st)"
    and "tight st \<Longrightarrow> tight (upd_conn c (\<lambda>conn. conn\<lparr>websocket := w\<rparr>) st)"
  by (auto intro: upd_conn_keeps)

lemma get_user_rooms_tasks [simp]: "get_user_rooms u (st\<lparr>tasks := ts\<rparr>) = get_user_rooms u st"
  by (simp add: get_user_rooms_def split: option.split)

lemma drop_task_wf: "cm_wf st \<Longrightarrow> set ts \<subseteq> set (tasks st) \<Longrightarrow> cm_wf (st\<lparr>tasks := ts\<rparr>)"
  using table_okD(4)
  by (fastforce simp: cm_wf_def table_ok_def queues_ok_def covered_def)

lemma drop_task_tight: "tight (st\<lparr>tasks := ts\<rparr>) \<longleftrightarrow> tight st"
  by (simp add: tight_def)

lemmas cm_wf_intros = connect_wf disconnect_wf join_room_wf leave_room_wf broadcast_to_room_wf
  send_to_user_keeps(1) send_queue_step_keeps(1) update_activity_keeps(1) set_websocket_keeps(1)
  force_disconnect_wf

lemmas tight_intros = connect_tight disconnect_tight join_room_tight leave_room_tight
  broadcast_to_room_tight send_to_user_keeps(2) send_queue_step_keeps(2) update_activity_keeps(2)
  set_websocket_keeps(2)

lemma cm_step_wf: "cm_step api cfg st st' \<Longrightarrow> cm_wf st \<Longrightarrow> cm_wf st'"
proof (induction rule: cm_step.induct)
  case (step_task st ts1 c reason ts2)
  then have "cm_wf (st\<lparr>tasks := ts1 @ ts2\<rparr>)" by (intro drop_task_wf) auto
  then show ?case by (rule force_disconnect_wf)
qed (auto intro: cm_wf_intros)

lemma cm_step_tight: "cm_step api cfg st st' \<Longrightarrow> cm_wf st \<Longrightarrow> tight st \<Longrightarrow> no_stale st \<Longrightarrow> tight st'"
proof (induction rule: cm_step.induct)
  case (step_task st ts1 c reason ts2)
  then have "\<not> stale (st\<lparr>tasks := ts1 @ ts2\<rparr>) c" "tight (st\<lparr>tasks := ts1 @ ts2\<rparr>)"
    by (auto simp: no_stale_def stale_def drop_task_tight)
  then show ?case by (intro force_disconnect_tight)
qed (auto intro: tight_intros)

lemma cm_piece_wf: "cm_piece api cfg st st' \<Longrightarrow> cm_wf st \<Longrightarrow> cm_wf st'"
  by (induction rule: cm_piece.induct)
    (auto simp: register_connection_registered intro: untrack_wf registered_wf pop_connection_wf drop_task_wf)

lemma cm_reach_wf: "cm_reach api cfg st \<Longrightarrow> cm_wf st"
  by (induction rule: cm_reach.induct) (auto intro: cm_step_wf cm_piece_wf)

lemma cm_reach_fresh_inv: "cm_reach_fresh api cfg st \<Longrightarrow> cm_wf st \<and> tight st"
  by (induction rule: cm_reach_fresh.induct) (auto intro: cm_step_wf cm_step_tight)

lemma cm_reach_fresh_reach: "cm_reach_fresh api cfg st \<Longrightarrow> cm_reach api cfg st"
  by (induction rule: cm_reach_fresh.induct) (auto intro: cm_reach.intros)

text \<open>Every queue keeps the bound it was created with.\<close>

definition maxsize_is :: "int \<Rightarrow> 'w conn_manager \<Rightarrow> bool" where
  "maxsize_is n st \<longleftrightarrow> (\<forall>c conn. heap st c = Some conn \<longrightarrow> maxsize (send_queue conn) = n)"

lemma maxsize_upd_conn:
  assumes "maxsize_is n st" "\<And>conn. heap st c = Some conn \<Longrightarrow> maxsize (send_queue (f conn)) = maxsize (send_queue conn)"
  shows "maxsize_is n (upd_conn c f st)"
  using assms by (auto simp: maxsize_is_def)

lemma maxsize_force_disconnect: "maxsize_is n st \<Longrightarrow> maxsize_is n (force_disconnect api c reason st)"
  by (auto simp: maxsize_is_def force_disconnect_def Let_def split: option.splits)

lemma maxsize_disconnect: "maxsize_is n st \<Longrightarrow> maxsize_is n (disconnect api u st)"
  by (auto simp: maxsize_is_def disconnect_def Let_def split: option.splits)

lemma maxsize_connect:
  "maxsize_is (MAX_SEND_QUEUE_SIZE cfg) st \<Longrightarrow>
   maxsize_is (MAX_SEND_QUEUE_SIZE cfg) (snd (connect api cfg ws uid uname now st))"
proof -
  assume m: "maxsize_is (MAX_SEND_QUEUE_SIZE cfg) st"
  then have "maxsize_is (MAX_SEND_QUEUE_SIZE cfg) (evicted api uid st)"
    by (simp add: evicted_def maxsize_force_disconnect split: option.split)
  then have "maxsize_is (MAX_SEND_QUEUE_SIZE cfg) (registered cfg ws' uid uname now (evicted api uid st))" for ws'
    by (auto simp: maxsize_is_def new_connection_def queue_new_def)
  with m show ?thesis
    by (cases "ws_accept api ws"; cases "fst (ws_accept api ws)")
       (simp_all add: connect_rejected connect_accepted)
qed

lemma maxsize_rooms:
  "maxsize_is n st \<Longrightarrow> maxsize_is n (join_room u r st)" "maxsize_is n st \<Longrightarrow> maxsize_is n (leave_room u r st)"
  by (auto simp: maxsize_is_def join_room_def leave_room_def split: option.splits)

lemma maxsize_broadcast_one: "maxsize_is n st \<Longrightarrow> maxsize_is n (broadcast_one ex p u st)"
  by (auto simp: maxsize_is_def broadcast_one_def dest: put_nowait_maxsize split: option.splits sum.splits)

lemma maxsize_broadcast: "maxsize_is n st \<Longrightarrow> maxsize_is n (broadcast_to_room r m ex st)"
proof -
  have "maxsize_is n st \<Longrightarrow> maxsize_is n (fold (broadcast_one ex p) us st)" for p us
    by (induction us arbitrary: st) (auto simp: maxsize_broadcast_one)
  then show "maxsize_is n st \<Longrightarrow> maxsize_is n (broadcast_to_room r m ex st)"
    by (simp add: broadcast_to_room_def Let_def)
qed

lemma maxsize_send: "maxsize_is n st \<Longrightarrow> maxsize_is n (send_to_user u m st)"
  by (auto simp: maxsize_is_def send_to_user_def dest: put_nowait_maxsize split: option.splits sum.splits)

lemma send_queue_step_maxsize [simp]:
  "maxsize (send_queue (send_queue_step api conn)) = maxsize (send_queue conn)"
  by (auto simp: send_queue_step_def queue_get_def split: option.splits list.splits prod.splits sum.splits)

lemma cm_step_maxsize:
  "cm_step api cfg st st' \<Longrightarrow> maxsize_is (MAX_SEND_QUEUE_SIZE cfg) st \<Longrightarrow> maxsize_is (MAX_SEND_QUEUE_SIZE cfg) st'"
proof (induction rule: cm_step.induct)
  case (step_task st ts1 c reason ts2)
  then show ?case by (intro maxsize_force_disconnect) (simp add: maxsize_is_def)
qed (auto intro: maxsize_connect maxsize_disconnect maxsize_rooms maxsize_broadcast maxsize_send
      intro!: maxsize_upd_conn simp: update_activity_def)

lemma cm_piece_maxsize:
  "cm_piece api cfg st st' \<Longrightarrow> maxsize_is (MAX_SEND_QUEUE_SIZE cfg) st \<Longrightarrow> maxsize_is (MAX_SEND_QUEUE_SIZE cfg) st'"
  by (induction rule: cm_piece.induct)
    (auto simp: maxsize_is_def untrack_def pop_connection_def register_connection_def new_connection_def queue_new_def Let_def
      split: option.splits)

lemma cm_reach_maxsize: "cm_reach api cfg st \<Longrightarrow> maxsize_is (MAX_SEND_QUEUE_SIZE cfg) st"
proof (induction rule: cm_reach.induct)
  case reach_init
  then show ?case by (simp add: maxsize_is_def conn_manager_init_def)
next
  case (reach_step st st')
  then show ?case by (blast intro: cm_step_maxsize)
next
  case (reach_piece st st')
  then show ?case by (blast intro: cm_piece_maxsize)
qed

section \<open>What a broadcast does\<close>

text \<open>The effect of \<open>put_nowait\<close> on one connection: a full queue stays as it is.\<close>

definition enqueue :: "wire \<Rightarrow> 'w ws_connection \<Rightarrow> 'w ws_connection" where
  "enqueue p conn =
     (if queue_full (send_queue conn) then conn
      else conn\<lparr>send_queue := (send_queue conn)\<lparr>items := items (send_queue conn) @ [p]\<rparr>\<rparr>)"

definition overflow_task :: "string option \<Rightarrow> 'w conn_manager \<Rightarrow> string \<Rightarrow> (nat \<times> string) list" where
  "overflow_task ex st u =
     (if Some u = ex then []
      else case map_of (connections st) u of
             None \<Rightarrow> []
           | Some c \<Rightarrow>
               (case heap st c of
                  None \<Rightarrow> []
                | Some conn \<Rightarrow> if queue_full (send_queue conn)
                              then [(c, ''Send queue overflow (slow client)'')] else []))"

lemma broadcast_one_simps [simp]:
  "connections (broadcast_one ex p u st) = connections st"
  "room_connections (broadcast_one ex p u st) = room_connections st"
  "next_ref (broadcast_one ex p u st) = next_ref st"
  by (auto simp: broadcast_one_def split: option.split sum.split)

lemma broadcast_one_heap:
  "heap (broadcast_one ex p u st) c =
     map_option (\<lambda>conn. if Some u \<noteq> ex \<and> map_of (connections st) u = Some c then enqueue p conn else conn)
       (heap st c)"
  by (cases "heap st c")
     (auto simp: broadcast_one_def enqueue_def put_nowait_def split: option.split sum.split)

lemma broadcast_one_tasks: "tasks (broadcast_one ex p u st) = tasks st @ overflow_task ex st u"
  by (auto simp: broadcast_one_def overflow_task_def put_nowait_def split: option.split)

lemma broadcast_one_table: "table_ok st \<Longrightarrow> table_ok (broadcast_one ex p u st)"
  by (fastforce simp: broadcast_one_def table_ok_def intro!: table_ok_upd_conn split: option.split sum.split)

lemma overflow_task_other:
  assumes "table_ok st" "v \<noteq> u"
  shows "overflow_task ex (broadcast_one ex p u st) v = overflow_task ex st v"
proof (cases "map_of (connections st) v")
  case (Some c)
  with assms have "map_of (connections st) u \<noteq> Some c" using table_ok_inj by metis
  with Some show ?thesis
    by (simp add: overflow_task_def broadcast_one_heap option.map_ident split: option.split)
qed (simp add: overflow_task_def)

lemma broadcast_fold_simps [simp]:
  "connections (fold (broadcast_one ex p) us st) = connections st"
  "room_connections (fold (broadcast_one ex p) us st) = room_connections st"
  by (induction us arbitrary: st) simp_all

lemma broadcast_fold_heap:
  assumes "table_ok st" "distinct us"
  shows "heap (fold (broadcast_one ex p) us st) c =
           map_option (\<lambda>conn. if \<exists>u\<in>set us. Some u \<noteq> ex \<and> map_of (connections st) u = Some c
                              then enqueue p conn else conn) (heap st c)"
  using assms
proof (induction us arbitrary: st)
  case Nil
  show ?case by (simp add: option.map_ident)
next
  case (Cons u us)
  then have "table_ok (broadcast_one ex p u st)" "distinct us"
    by (simp_all add: broadcast_one_table)
  note IH = Cons.IH [OF this]
  have "\<not> (\<exists>v\<in>set us. map_of (connections st) v = Some c)" if "map_of (connections st) u = Some c"
    using Cons.prems that table_ok_inj by (metis distinct.simps(2))
  then show ?case
    by (cases "heap st c"; cases "map_of (connections st) u = Some c")
       (auto simp: IH broadcast_one_heap)
qed

lemma broadcast_fold_tasks:
  assumes "table_ok st" "distinct us"
  shows "tasks (fold (broadcast_one ex p) us st) = tasks st @ concat (map (overflow_task ex st) us)"
  using assms
proof (induction us arbitrary: st)
  case (Cons u us)
  then have "table_ok (broadcast_one ex p u st)" "distinct us"
    by (simp_all add: broadcast_one_table)
  note IH = Cons.IH [OF this]
  have "map (overflow_task ex (broadcast_one ex p u st)) us = map (overflow_task ex st) us"
    using Cons.prems by (intro map_cong refl overflow_task_other) auto
  then have "concat (map (overflow_task ex (broadcast_one ex p u st)) us) = concat (map (overflow_task ex st) us)"
    by (rule arg_cong)
  then show ?case by (simp add: IH broadcast_one_tasks)
qed simp

section \<open>The send-queue task\<close>

lemma process_send_queue_done:
  "send_task conn \<noteq> Running \<or> items (send_queue conn) = [] \<Longrightarrow> process_send_queue api conn = conn"
  by (simp add: process_send_queue.simps)

lemma process_send_queue_step:
  "send_task conn = Running \<Longrightarrow> items (send_queue conn) = x # xs \<Longrightarrow>
   process_send_queue api conn = process_send_queue api (send_queue_step api conn)"
  by (simp add: process_send_queue.simps [of api conn])

text \<open>
  What the task relies on of a WebSocket: a write that returns has appended its text to
  what the peer receives, a write that raises has not; \<open>reliable_socket\<close> is a socket that
  accepts every write while it is open.
\<close>

locale socket_log =
  fixes api :: "'w ws_api" and sent :: "'w \<Rightarrow> wire list"
  assumes send_ok: "ws_send_text api p w = (Inr u, w') \<Longrightarrow> sent w' = sent w @ [p]"
    and send_fail: "ws_send_text api p w = (Inl e, w') \<Longrightarrow> sent w' = sent w"
begin

text \<open>Whatever fails, the peer receives a prefix of the queue, in order and without repetition.\<close>

lemma drain_prefix:
  "\<exists>k \<le> length (items (send_queue conn)).
     sent (websocket (process_send_queue api conn)) =
       sent (websocket conn) @ take k (items (send_queue conn))"
proof (induction "items (send_queue conn)" arbitrary: conn)
  case Nil
  then show ?case by (auto simp: process_send_queue_done)
next
  case (Cons x xs conn)
  let ?w = "websocket conn" and ?q = "(send_queue conn)\<lparr>items := xs\<rparr>"
  show ?case
  proof (cases "send_task conn = Running \<and> ws_connected api ?w")
    case False
    then have "sent (websocket (process_send_queue api conn)) = sent ?w"
      using Cons.hyps(2)
      by (cases "send_task conn")
         (auto simp: process_send_queue_done process_send_queue_step [of conn x xs] send_queue_step_def queue_get_def
           split: list.split)
    then show ?thesis by auto
  next
    case True
    then have step: "process_send_queue api conn = process_send_queue api (send_queue_step api conn)"
      using Cons.hyps(2) by (intro process_send_queue_step [of conn x xs]) auto
    show ?thesis
    proof (cases "ws_send_text api x ?w")
      case (Pair r w')
      show ?thesis
      proof (cases r)
        case (Inl e)
        with Pair True Cons.hyps(2) [symmetric] send_fail [of x ?w e w'] show ?thesis
          by (intro exI [of _ 0])
             (simp add: step send_queue_step_def queue_get_def process_send_queue_done)
      next
        case (Inr u)
        let ?conn = "conn\<lparr>websocket := w', send_queue := ?q\<rparr>"
        from Pair True Inr Cons.hyps(2) [symmetric] have "send_queue_step api conn = ?conn"
          by (simp add: send_queue_step_def queue_get_def)
        moreover from Cons.hyps(1) [of ?conn] obtain k where "k \<le> length xs"
          "sent (websocket (process_send_queue api ?conn)) = sent w' @ take k xs"
          by auto
        ultimately show ?thesis
          using Cons.hyps(2) [symmetric] send_ok [of x ?w u w'] Pair Inr
          by (intro exI [of _ "Suc k"]) (simp add: step)
      qed
    qed
  qed
qed

end

locale reliable_socket = socket_log +
  assumes open_accepts: "ws_connected api w \<Longrightarrow> \<exists>w'. ws_send_text api p w = (Inr (), w') \<and> ws_connected api w'"
begin

text \<open>While the socket stays open the task empties the queue and the peer receives all of it.\<close>

lemma drain_all:
  assumes "send_task conn = Running" "ws_connected api (websocket conn)"
  shows "sent (websocket (process_send_queue api conn)) =
           sent (websocket conn) @ items (send_queue conn)
         \<and> items (send_queue (process_send_queue api conn)) = []"
  using assms
proof (induction "items (send_queue conn)" arbitrary: conn)
  case Nil
  then show ?case by (simp add: process_send_queue_done)
next
  case (Cons x xs conn)
  let ?q = "(send_queue conn)\<lparr>items := xs\<rparr>"
  obtain w' where w': "ws_send_text api x (websocket conn) = (Inr (), w')" "ws_connected api w'"
    using open_accepts Cons.prems(2) by blast
  let ?conn = "conn\<lparr>websocket := w', send_queue := ?q\<rparr>"
  have "process_send_queue api conn = process_send_queue api ?conn"
    using Cons.prems Cons.hyps(2) [symmetric] w'
    by (subst process_send_queue_step) (auto simp: send_queue_step_def queue_get_def)
  with Cons.hyps(1) [of ?conn] Cons.prems Cons.hyps(2) [symmetric] w' show ?case
    by (simp add: send_ok)
qed

end

text \<open>A WebSocket as an open flag and the texts the peer has received.\<close>

definition list_ws :: "(bool \<times> wire list) ws_api" where
  "list_ws =
     \<lparr>ws_connected = fst,
      ws_accept = (\<lambda>w. (Inr (), (True, snd w))),
      ws_send_text = (\<lambda>p w. if fst w then (Inr (), (True, snd w @ [p]))
                            else (Inl (WebSocketError ''closed''), w)),
      ws_close = (\<lambda>code reason w. (Inr (), (False, snd w)))\<rparr>"

interpretation list_ws: reliable_socket list_ws snd
  by unfold_locales (auto simp: list_ws_def split: if_splits)

section \<open>The manager as a registry of room members\<close>

text \<open>
  The contract: \<open>members\<close> is the relation of users to the rooms they are in, a user must be
  online to join, and every operation changes the pairs of its own user only.
\<close>

locale room_registry =
  fixes inv :: "'s \<Rightarrow> bool" and online :: "'s \<Rightarrow> string set" and members :: "'s \<Rightarrow> (string \<times> string) set"
    and join leave :: "string \<Rightarrow> string \<Rightarrow> 's \<Rightarrow> 's" and drop :: "string \<Rightarrow> 's \<Rightarrow> 's"
  assumes inv_join: "inv s \<Longrightarrow> inv (join u r s)"
    and inv_leave: "inv s \<Longrightarrow> inv (leave u r s)"
    and inv_drop: "inv s \<Longrightarrow> inv (drop u s)"
    and online_join: "inv s \<Longrightarrow> online (join u r s) = online s"
    and online_leave: "inv s \<Longrightarrow> online (leave u r s) = online s"
    and online_drop: "inv s \<Longrightarrow> online (drop u s) = online s - {u}"
    and members_online: "inv s \<Longrightarrow> (u, r) \<in> members s \<Longrightarrow> u \<in> online s"
    and members_join: "inv s \<Longrightarrow> members (join u r s) = members s \<union> {(v, q). v = u \<and> q = r \<and> u \<in> online s}"
    and members_leave: "inv s \<Longrightarrow> members (leave u r s) = members s - {(u, r)}"
    and members_drop: "inv s \<Longrightarrow> members (drop u s) = members s - {u} \<times> UNIV"
begin

lemmas registry_laws = inv_join inv_leave inv_drop online_join online_leave online_drop
  members_join members_leave members_drop

text \<open>An offline user is in no room, so joining is the only way in and leaving undoes it.\<close>

lemma leave_undoes_join: "inv s \<Longrightarrow> (u, r) \<notin> members s \<Longrightarrow> members (leave u r (join u r s)) = members s"
  by (auto simp: registry_laws)

lemma join_offline: "inv s \<Longrightarrow> u \<notin> online s \<Longrightarrow> members (join u r s) = members s"
  by (simp add: registry_laws)

lemma dropped_is_nowhere: "inv s \<Longrightarrow> (u, r) \<notin> members (join u r (drop u s))"
  by (simp add: registry_laws)

end

datatype registry_op = Join string string | Leave string string | Drop string

fun spec_op :: "registry_op \<Rightarrow> string set \<times> (string \<times> string) set \<Rightarrow> string set \<times> (string \<times> string) set" where
  "spec_op (Join u r) (on, M) = (on, if u \<in> on then insert (u, r) M else M)"
| "spec_op (Leave u r) (on, M) = (on, M - {(u, r)})"
| "spec_op (Drop u) (on, M) = (on - {u}, {p \<in> M. fst p \<noteq> u})"

context room_registry
begin

fun impl_op :: "registry_op \<Rightarrow> 's \<Rightarrow> 's" where
  "impl_op (Join u r) = join u r"
| "impl_op (Leave u r) = leave u r"
| "impl_op (Drop u) = drop u"

text \<open>Any sequence of operations computes what it computes on the plain relation.\<close>

lemma refines_spec:
  "inv s \<Longrightarrow> inv (fold impl_op ops s) \<and>
     (online (fold impl_op ops s), members (fold impl_op ops s)) = fold spec_op ops (online s, members s)"
proof (induction ops arbitrary: s)
  case Nil
  then show ?case by simp
next
  case (Cons op ops)
  have "inv (impl_op op s)"
    and "(online (impl_op op s), members (impl_op op s)) = spec_op op (online s, members s)"
    using Cons.prems by (cases op; auto simp: registry_laws)+
  with Cons.IH [of "impl_op op s"] show ?case by simp
qed

end

definition online_users :: "'w conn_manager \<Rightarrow> string set" where
  "online_users st = dom (map_of (connections st))"

definition membership :: "'w conn_manager \<Rightarrow> (string \<times> string) set" where
  "membership st = {(u, r). r \<in> set (get_user_rooms u st)}"

lemma online_users_iff: "u \<in> online_users st \<longleftrightarrow> get_connection u st \<noteq> None"
  by (auto simp: online_users_def get_connection_def)

lemma online_ops [simp]:
  "online_users (join_room u r st) = online_users st"
  "online_users (leave_room u r st) = online_users st"
  "online_users (disconnect api u st) = online_users st - {u}"
  by (auto simp: online_users_def join_room_def leave_room_def map_of_connections_disconnect
      split: option.splits)

interpretation cm: room_registry "\<lambda>st. cm_wf st \<and> tight st" online_users membership
    join_room leave_room "disconnect api" for api :: "'w ws_api"
proof (unfold_locales, goal_cases)
  case (7 s u r)
  then show ?case
    by (cases "map_of (connections s) u")
       (auto simp: membership_def online_users_iff get_connection_def get_user_rooms_def)
next
  case (8 s u r)
  then show ?case by (auto simp: membership_def cm_wf_def get_user_rooms_join online_users_iff)
next
  case (9 s u r)
  then show ?case by (auto simp: membership_def cm_wf_def get_user_rooms_leave)
next
  case (10 s u)
  then show ?case by (auto simp: membership_def cm_wf_def get_user_rooms_disconnect split: if_splits)
qed (simp_all add: join_room_wf join_room_tight leave_room_wf leave_room_tight disconnect_wf disconnect_tight)

fun registry_exec :: "'w ws_api \<Rightarrow> registry_op \<Rightarrow> 'w conn_manager \<Rightarrow> 'w conn_manager" where
  "registry_exec api (Join u r) st = join_room u r st"
| "registry_exec api (Leave u r) st = leave_room u r st"
| "registry_exec api (Drop u) st = disconnect api u st"

lemma registry_exec_impl: "registry_exec api op = cm.impl_op api op"
  by (cases op) (simp_all add: fun_eq_iff)

lemma membership_index: "tight st \<Longrightarrow> cm_wf st \<Longrightarrow> membership st = {(u, r). u \<in> set (get_room_user_ids r st)}"
  by (auto simp: membership_def get_room_user_ids_in_room tight_def cm_wf_def covered_def)

end
