(* ===== verification/Connections_Props.thy ===== *)
theory Connections_Props
  imports Connections_Machine
begin

text \<open>
  The properties of the connection manager: tracking tables, bounded queues, the exact
  effect of a broadcast, delivery order, refinement of the membership relation, and the two
  ways in which a connection that was replaced can still harm its successor.
\<close>

section \<open>Tracking\<close>

text \<open>
  C4. In every reachable state of the manager, the states between the awaits of its methods
  included, each registered reference is a connection of the
  user it is registered for, every room a registered connection has joined lists that user,
  no room lists a user twice, and \<open>active_connections\<close> is the number of connected users.
\<close>

theorem manager_tracking:
  assumes "cm_reach api cfg st"
  shows "(\<forall>u c. get_connection u st = Some c \<longrightarrow> (\<exists>conn. heap st c = Some conn \<and> conn_user conn = u))
    \<and> (\<forall>u r. r \<in> set (get_user_rooms u st) \<longrightarrow> u \<in> set (get_room_user_ids r st))
    \<and> (\<forall>r. distinct (get_room_user_ids r st))
    \<and> active_connections st = card {u. get_connection u st \<noteq> None}"
proof -
  from assms have wf: "cm_wf st" by (rule cm_reach_wf)
  then have t: "table_ok st" by (simp add: cm_wf_def)
  have "active_connections st = card {u. get_connection u st \<noteq> None}"
    using length_dict [OF table_okD(1) [OF t]]
    by (simp add: active_connections_def get_connection_def dom_def)
  with wf t show ?thesis
    using table_okD(2) [OF t]
    by (simp add: cm_wf_def covered_def get_connection_def get_room_user_ids_in_room distinct_get_room_user_ids)
qed

theorem manager_tracking_witness:
  "let st = join_room ''u'' ''r'' (snd (connect list_ws default_settings (False, []) ''u'' ''ann'' 0 conn_manager_init))
   in cm_reach list_ws default_settings st \<and> get_connection ''u'' st = Some 0
      \<and> ''u'' \<in> set (get_room_user_ids ''r'' st)"
proof -
  let ?st = "join_room ''u'' ''r'' (snd (connect list_ws default_settings (False, []) ''u'' ''ann'' 0 conn_manager_init))"
  have reach: "cm_reach list_ws default_settings ?st"
    by (rule reach_step [OF reach_step [OF reach_init step_connect] step_join])
  have "get_connection ''u'' ?st = Some 0" "''r'' \<in> set (get_user_rooms ''u'' ?st)"
    by code_simp+
  with reach manager_tracking [OF reach] show ?thesis
    unfolding Let_def by blast
qed

text \<open>
  C35. No send queue of any connection, registered or not, ever holds more than
  \<open>MAX_SEND_QUEUE_SIZE\<close> payloads, whatever is broadcast to slow clients.
\<close>

theorem send_queues_bounded:
  assumes "cm_reach api cfg st" "0 < MAX_SEND_QUEUE_SIZE cfg" "heap st c = Some conn"
  shows "int (length (items (send_queue conn))) \<le> MAX_SEND_QUEUE_SIZE cfg"
proof -
  from assms(1,3) have "queue_within (send_queue conn)"
    by (auto dest: cm_reach_wf simp: cm_wf_def queues_ok_def)
  moreover from assms(1,3) have "maxsize (send_queue conn) = MAX_SEND_QUEUE_SIZE cfg"
    by (auto dest: cm_reach_maxsize simp: maxsize_is_def)
  ultimately show ?thesis using assms(2) by (simp add: queue_within_def)
qed

theorem send_queues_bounded_witness:
  "let cfg = default_settings\<lparr>MAX_SEND_QUEUE_SIZE := 1\<rparr>;
       st = send_to_user ''u'' pong (send_to_user ''u'' pong
              (snd (connect list_ws cfg (False, []) ''u'' ''ann'' 0 conn_manager_init)))
   in \<exists>conn. heap st 0 = Some conn \<and> int (length (items (send_queue conn))) \<le> 1"
proof -
  let ?cfg = "default_settings\<lparr>MAX_SEND_QUEUE_SIZE := 1\<rparr>"
  let ?st = "send_to_user ''u'' pong (send_to_user ''u'' pong
              (snd (connect list_ws ?cfg (False, []) ''u'' ''ann'' 0 conn_manager_init)))"
  have reach: "cm_reach list_ws ?cfg ?st"
    by (rule reach_step [OF reach_step [OF reach_step [OF reach_init step_connect] step_send] step_send])
  have "heap ?st 0 \<noteq> None" by code_simp
  then obtain conn where "heap ?st 0 = Some conn" by blast
  with send_queues_bounded [OF reach _ this] show ?thesis by (simp add: Let_def)
qed

text \<open>
  C22. As long as no scheduled forced disconnect outlives the connection it was scheduled for,
  the two tables agree: a room's index lists exactly the users whose current connection has
  joined the room.
\<close>

theorem room_index_exact:
  assumes "cm_reach_fresh api cfg st"
  shows "u \<in> set (get_room_user_ids r st) \<longleftrightarrow> r \<in> set (get_user_rooms u st)"
  using cm_reach_fresh_inv [OF assms]
  by (auto simp: get_room_user_ids_in_room tight_def cm_wf_def covered_def)

theorem room_index_exact_witness:
  "let st = join_room ''u'' ''r'' (snd (connect list_ws default_settings (False, []) ''u'' ''ann'' 0 conn_manager_init))
   in cm_reach_fresh list_ws default_settings st
      \<and> (''u'' \<in> set (get_room_user_ids ''r'' st) \<longleftrightarrow> ''r'' \<in> set (get_user_rooms ''u'' st))
      \<and> ''r'' \<in> set (get_user_rooms ''u'' st)"
proof -
  let ?s1 = "snd (connect list_ws default_settings (False, []) ''u'' ''ann'' 0 conn_manager_init)"
  have "no_stale (conn_manager_init :: (bool \<times> wire list) conn_manager)" "no_stale ?s1"
    by (rule no_stale_no_tasks, code_simp)+
  then have reach: "cm_reach_fresh list_ws default_settings (join_room ''u'' ''r'' ?s1)"
    by (meson fresh_init fresh_step step_connect step_join)
  moreover have "''r'' \<in> set (get_user_rooms ''u'' (join_room ''u'' ''r'' ?s1))" by code_simp
  ultimately show ?thesis
    using room_index_exact [OF reach, of "''u''" "''r''"] by (simp add: Let_def)
qed

section \<open>Broadcasting and delivery\<close>

lemma broadcast_heap:
  assumes "cm_reach api cfg st"
  shows "heap (broadcast_to_room r m ex st) c =
    map_option (\<lambda>conn. if \<exists>u \<in> set (get_room_user_ids r st). Some u \<noteq> ex \<and> get_connection u st = Some c
                       then enqueue (model_dump_json m) conn else conn) (heap st c)"
proof -
  from assms have "cm_wf st" by (rule cm_reach_wf)
  then have t: "table_ok st" and d: "distinct (get_room_user_ids r st)"
    by (simp_all add: cm_wf_def distinct_get_room_user_ids)
  show ?thesis
    unfolding broadcast_to_room_def Let_def get_connection_def by (rule broadcast_fold_heap [OF t d])
qed

text \<open>
  C9. A broadcast appends the serialised message exactly once to the queue of every connected
  member of the room other than the excluded user, leaves every other connection and both
  tracking tables as they were, and schedules a forced disconnect for exactly those
  recipients whose queue was already full.
\<close>

theorem broadcast_exact:
  assumes "cm_reach api cfg st" "st' = broadcast_to_room r m ex st"
  shows "(\<forall>c. heap st' c =
            map_option (\<lambda>conn. if \<exists>u \<in> set (get_room_user_ids r st). Some u \<noteq> ex \<and> get_connection u st = Some c
                               then enqueue (model_dump_json m) conn else conn) (heap st c))
    \<and> tasks st' = tasks st @ concat (map (overflow_task ex st) (get_room_user_ids r st))
    \<and> connections st' = connections st \<and> room_connections st' = room_connections st"
proof -
  from assms(1) have "cm_wf st" by (rule cm_reach_wf)
  then have t: "table_ok st" and d: "distinct (get_room_user_ids r st)"
    by (simp_all add: cm_wf_def distinct_get_room_user_ids)
  show ?thesis
    using broadcast_heap [OF assms(1), of r m ex] broadcast_fold_tasks [OF t d, of ex "model_dump_json m"]
    by (simp add: assms(2)) (simp add: broadcast_to_room_def Let_def)
qed

theorem broadcast_exact_witness:
  "let st = join_room ''u'' ''r'' (snd (connect list_ws default_settings (False, []) ''u'' ''ann'' 0 conn_manager_init))
   in heap (broadcast_to_room ''r'' pong None st) 0 = map_option (enqueue (model_dump_json pong)) (heap st 0)
      \<and> heap st 0 \<noteq> None"
proof -
  let ?st = "join_room ''u'' ''r'' (snd (connect list_ws default_settings (False, []) ''u'' ''ann'' 0 conn_manager_init))"
  have reach: "cm_reach list_ws default_settings ?st"
    by (rule reach_step [OF reach_step [OF reach_init step_connect] step_join])
  have "''u'' \<in> set (get_room_user_ids ''r'' ?st)" "get_connection ''u'' ?st = Some 0" "heap ?st 0 \<noteq> None"
    by code_simp+
  then have P: "\<exists>u \<in> set (get_room_user_ids ''r'' ?st). Some u \<noteq> None \<and> get_connection u ?st = Some 0"
    and "heap ?st 0 \<noteq> None" by blast+
  moreover have "heap (broadcast_to_room ''r'' pong None ?st) 0 = map_option (enqueue (model_dump_json pong)) (heap ?st 0)"
    using broadcast_exact [OF reach refl, of "''r''" pong None, THEN conjunct1, THEN spec, of 0]
    unfolding if_P [OF P] .
  ultimately show ?thesis unfolding Let_def by blast
qed

text \<open>
  The send-queue task never reorders, repeats or invents a payload: whatever writes fail or
  connections close, what the peer has received when the task waits or stops is what it had
  before followed by a prefix of the queue.
\<close>

theorem send_queue_fifo:
  assumes "socket_log api sent"
  shows "\<exists>k \<le> length (items (send_queue conn)).
           sent (websocket (process_send_queue api conn)) =
             sent (websocket conn) @ take k (items (send_queue conn))"
  using assms by (rule socket_log.drain_prefix)

theorem send_queue_fifo_witness:
  "\<exists>k \<le> length (items (send_queue (enqueue (model_dump_json pong) (new_connection default_settings (True, []) ''u'' ''ann'' 0)))).
     snd (websocket (process_send_queue list_ws
       (enqueue (model_dump_json pong) (new_connection default_settings (True, []) ''u'' ''ann'' 0)))) =
     take k [model_dump_json pong]"
  using send_queue_fifo [OF list_ws.socket_log_axioms,
      of "enqueue (model_dump_json pong) (new_connection default_settings (True, []) ''u'' ''ann'' 0)"]
  by (simp add: enqueue_def new_connection_def queue_new_def queue_full_def default_settings_def)

text \<open>
  C36. On a WebSocket that stays open and accepts writes, the task delivers the whole queue in
  order and leaves it empty.
\<close>

theorem send_queue_delivers:
  assumes "reliable_socket api sent" "send_task conn = Running" "ws_connected api (websocket conn)"
  shows "sent (websocket (process_send_queue api conn)) = sent (websocket conn) @ items (send_queue conn)
    \<and> items (send_queue (process_send_queue api conn)) = []"
  using assms by (rule reliable_socket.drain_all)

theorem send_queue_delivers_witness:
  "let conn = enqueue (model_dump_json pong) (new_connection default_settings (True, []) ''u'' ''ann'' 0)
   in snd (websocket (process_send_queue list_ws conn)) = [model_dump_json pong]
      \<and> items (send_queue (process_send_queue list_ws conn)) = []"
  using send_queue_delivers [OF list_ws.reliable_socket_axioms,
      of "enqueue (model_dump_json pong) (new_connection default_settings (True, []) ''u'' ''ann'' 0)"]
  by (simp add: Let_def enqueue_def new_connection_def queue_new_def queue_full_def default_settings_def list_ws_def)

section \<open>Refinement\<close>

text \<open>
  C23. The manager implements the membership relation: from any well-formed state in which the two
  tables agree, a sequence of joins, leaves and disconnects ends in such a state, and connected
  users and room membership, read off the connections or off the room index, are what the same
  operations compute on a set of users and a set of pairs.
\<close>

theorem manager_refines_membership:
  assumes "cm_wf st" "tight st"
  shows "(online_users (fold (registry_exec api) ops st), membership (fold (registry_exec api) ops st))
           = fold spec_op ops (online_users st, membership st)
    \<and> membership (fold (registry_exec api) ops st)
        = {(u, r). u \<in> set (get_room_user_ids r (fold (registry_exec api) ops st))}"
proof -
  have "registry_exec api = cm.impl_op api" by (rule ext) (rule registry_exec_impl)
  then show ?thesis
    using cm.refines_spec [of st api ops] assms membership_index by auto
qed

theorem manager_refines_membership_witness:
  "let st = snd (connect list_ws default_settings (False, []) ''u'' ''ann'' 0 conn_manager_init);
       ops = [Join ''u'' ''r'', Join ''u'' ''q'', Leave ''u'' ''r'', Join ''v'' ''r'']
   in membership (fold (registry_exec list_ws) ops st) = {(''u'', ''q'')}"
proof -
  let ?st = "snd (connect list_ws default_settings (False, []) ''u'' ''ann'' 0 conn_manager_init)"
  have inv: "cm_wf ?st" "tight ?st" by (simp_all add: connect_wf connect_tight)
  have "connections ?st = [(''u'', 0)]" by code_simp
  moreover have "get_user_rooms ''u'' ?st = []" by code_simp
  ultimately have "online_users ?st = {''u''}" "membership ?st = {}"
    by (auto simp: online_users_def membership_def get_user_rooms_def split: option.splits if_splits)
  with manager_refines_membership [OF inv, of list_ws
      "[Join ''u'' ''r'', Join ''u'' ''q'', Leave ''u'' ''r'', Join ''v'' ''r'']"]
  show ?thesis by (auto simp: Let_def)
qed

section \<open>Replaced connections\<close>

text \<open>
  The endpoint's cleanup calls \<open>disconnect(user_id)\<close>. When a user has opened a second
  connection, the cleanup of the first one unregisters the second and closes its WebSocket,
  although \<open>connect\<close> has just forced the first one out.
\<close>

lemma old_session_cleanup_drops_new_connection:
  assumes "ws_accept api ws = (Inr (), ws')" "connect api cfg ws uid uname now st = (Inr c, st1)"
    "ws_connected api ws'" "table_ok st"
  shows "get_connection uid st1 = Some c
    \<and> get_connection uid (disconnect api uid st1) = None
    \<and> map_option websocket (heap (disconnect api uid st1) c) = Some (snd (ws_close api 1000 [] ws'))"
proof -
  have st1: "st1 = registered cfg ws' uid uname now (evicted api uid st)"
    and c: "c = next_ref (evicted api uid st)"
    using assms(1,2) by (simp_all add: connect_accepted)
  show ?thesis
    unfolding st1 c using assms(3)
    by (simp add: get_connection_def map_of_connections_disconnect disconnect_def Let_def)
qed

lemma old_session_cleanup_drops_new_connection_witness:
  "let st = snd (connect list_ws default_settings (False, []) ''u'' ''ann'' 0 conn_manager_init);
       st1 = snd (connect list_ws default_settings (False, []) ''u'' ''ann'' 5 st)
   in get_connection ''u'' st1 = Some 1 \<and> get_connection ''u'' (disconnect list_ws ''u'' st1) = None"
proof -
  let ?st = "snd (connect list_ws default_settings (False, []) ''u'' ''ann'' 0 conn_manager_init)"
  let ?st1 = "snd (connect list_ws default_settings (False, []) ''u'' ''ann'' 5 ?st)"
  have "cm_wf ?st" by (simp add: connect_wf)
  then have "table_ok ?st" by (simp add: cm_wf_def)
  moreover have "ws_accept list_ws (False, []) = (Inr (), (True, []))" "ws_connected list_ws (True, [])"
    by (simp_all add: list_ws_def)
  moreover have "fst (connect list_ws default_settings (False, []) ''u'' ''ann'' 5 ?st) = Inr 1" by code_simp
  then have "connect list_ws default_settings (False, []) ''u'' ''ann'' 5 ?st = (Inr 1, ?st1)"
    by (simp add: prod_eq_iff)
  ultimately show ?thesis
    using old_session_cleanup_drops_new_connection [of list_ws "(False, [])" "(True, [])"
        default_settings "''u''" "''ann''" 5 ?st 1 ?st1]
    by (simp add: Let_def)
qed

text \<open>
  A run in which a forced disconnect is scheduled for a slow client, the client reconnects and
  joins another room before the task runs, the task then removes the new connection from the
  table but not from its room, and the client connects once more.
\<close>

definition slow_cfg :: settings where
  "slow_cfg = default_settings\<lparr>MAX_SEND_QUEUE_SIZE := 1\<rparr>"

definition slow_client :: "(bool \<times> wire list) conn_manager" where
  "slow_client =
     (let s1 = snd (connect list_ws slow_cfg (False, []) ''u'' ''ann'' 0 conn_manager_init);
          s2 = join_room ''u'' ''lobby'' s1;
          s3 = broadcast_to_room ''lobby'' pong None s2;
          s4 = broadcast_to_room ''lobby'' pong None s3;
          s5 = snd (connect list_ws slow_cfg (False, []) ''u'' ''ann'' 1 s4)
      in join_room ''u'' ''private'' s5)"

definition ghost_member :: "(bool \<times> wire list) conn_manager" where
  "ghost_member =
     snd (connect list_ws slow_cfg (False, []) ''u'' ''ann'' 2
       (force_disconnect list_ws 0 ''Send queue overflow (slow client)'' (slow_client\<lparr>tasks := []\<rparr>)))"

lemma slow_client_reach: "cm_reach list_ws slow_cfg slow_client"
  unfolding slow_client_def Let_def
  by (meson reach_init reach_step step_broadcast step_connect step_join)

lemma slow_client_tasks: "tasks slow_client = [] @ (0, ''Send queue overflow (slow client)'') # []"
  by code_simp

lemma ghost_member_reach: "cm_reach list_ws slow_cfg ghost_member"
proof -
  have "cm_step list_ws slow_cfg slow_client
    (force_disconnect list_ws 0 ''Send queue overflow (slow client)'' (slow_client\<lparr>tasks := []\<rparr>))"
    using step_task [OF slow_client_tasks] by simp
  then show ?thesis
    unfolding ghost_member_def by (meson slow_client_reach reach_step step_connect)
qed

text \<open>
  The two tables can come apart: there is a reachable state in which a
  user's current connection has joined no room, yet a broadcast to a room is delivered to it,
  because a stale forced disconnect removed the previous connection from the table only.
\<close>

lemma stale_disconnect_leaks_messages:
  "\<exists>st. cm_reach list_ws slow_cfg st \<and> get_user_rooms ''u'' st = [] \<and> get_connection ''u'' st = Some 2
     \<and> map_option (\<lambda>conn. items (send_queue conn)) (heap st 2) = Some []
     \<and> map_option (\<lambda>conn. items (send_queue conn)) (heap (broadcast_to_room ''private'' pong None st) 2)
         = Some [model_dump_json pong]"
proof (intro exI conjI)
  show "cm_reach list_ws slow_cfg ghost_member" by (rule ghost_member_reach)
qed code_simp+

end
