(* ===== verification/Redis.thy ===== *)
theory Redis
  imports Json "HOL-Library.List_Lexorder" "HOL-Library.Char_ord"
begin

text \<open>
  The Redis client is a third-party package talking to a server, so it is a parameter of every
  definition that uses it: a function that takes the time of execution and a list of commands
  (one command, or the commands of a \<open>pipeline()\<close>, which Redis runs as one transaction) and
  either returns one reply per command or raises.

  What the program relies on is the documented meaning of the commands it sends. \<open>exec\<close>
  states it on an abstract store; the locale \<open>redis_server\<close> says that a call that returns has
  executed its commands so, and nothing about a call that raises. \<open>redis_available\<close> adds that
  calls return. \<open>mem_redis\<close> is a server that keeps the store in memory.

  Keys of different types have different prefixes in this program, so the store has one
  table per type. The server's clock and \<open>time.time()\<close> of the application are one clock.
\<close>

section \<open>Commands and replies\<close>

datatype redis_cmd =
    ZADD string "(string \<times> timestamp) list"
  | ZREM string string
  | ZREMRANGEBYSCORE string timestamp timestamp
  | ZRANGEBYSCORE string timestamp "timestamp option"
  | ZCARD string
  | ZSCORE string string
  | EXPIRE string int
  | HSET string string string
  | HGET string string
  | SETEX string int string
  | GETKEY string
  | DEL string
  | SCAN string
  | LPUSH string wire
  | LTRIM string int int
  | PUBLISH string wire

datatype redis_reply =
    RInt int
  | RScore "timestamp option"
  | RStrs "string list"
  | RStr "string option"
  | ROK

type_synonym 'r redis = "timestamp \<Rightarrow> redis_cmd list \<Rightarrow> ('r, redis_reply list) eff"

text \<open>Reading a reply as the type the caller expects.\<close>

definition reply_at :: "redis_reply list \<Rightarrow> nat \<Rightarrow> ('s, redis_reply) eff" where
  "reply_at xs i = (if i < length xs then ret (xs ! i) else raise (IndexError ''list index out of range''))"

fun as_int :: "redis_reply \<Rightarrow> ('s, int) eff" where
  "as_int (RInt n) = ret n"
| "as_int _ = raise (TypeError ''int'')"

fun as_score :: "redis_reply \<Rightarrow> ('s, timestamp option) eff" where
  "as_score (RScore s) = ret s"
| "as_score _ = raise (TypeError ''float'')"

fun as_strs :: "redis_reply \<Rightarrow> ('s, string list) eff" where
  "as_strs (RStrs xs) = ret xs"
| "as_strs _ = raise (TypeError ''list'')"

fun as_str :: "redis_reply \<Rightarrow> ('s, string option) eff" where
  "as_str (RStr x) = ret x"
| "as_str _ = raise (TypeError ''str'')"

text \<open>One command outside a pipeline.\<close>

definition redis1 :: "'r redis \<Rightarrow> timestamp \<Rightarrow> redis_cmd \<Rightarrow> ('r, redis_reply) eff" where
  "redis1 redis now c = bindE (redis now [c]) (\<lambda>xs. reply_at xs 0)"

section \<open>The documented store\<close>

type_synonym zset = "(string \<times> timestamp) list"

record redis_store =
  zsets :: "zset dict"
  hashes :: "string dict dict"
  strs :: "string dict"
  lists :: "wire list dict"
  deadlines :: "timestamp dict"
  subscribers :: "nat dict"
  published :: "(string \<times> wire) list"

definition empty_store :: redis_store where
  "empty_store = \<lparr>zsets = [], hashes = [], strs = [], lists = [], deadlines = [],
     subscribers = [], published = []\<rparr>"

definition zset_of :: "redis_store \<Rightarrow> string \<Rightarrow> zset" where
  "zset_of S k = (case map_of (zsets S) k of None \<Rightarrow> [] | Some z \<Rightarrow> z)"

definition hash_of :: "redis_store \<Rightarrow> string \<Rightarrow> string dict" where
  "hash_of S k = (case map_of (hashes S) k of None \<Rightarrow> [] | Some h \<Rightarrow> h)"

definition list_of :: "redis_store \<Rightarrow> string \<Rightarrow> wire list" where
  "list_of S k = (case map_of (lists S) k of None \<Rightarrow> [] | Some xs \<Rightarrow> xs)"

text \<open>A key whose deadline has passed no longer exists.\<close>

definition expired :: "timestamp \<Rightarrow> redis_store \<Rightarrow> string \<Rightarrow> bool" where
  "expired t S k \<longleftrightarrow> (case map_of (deadlines S) k of None \<Rightarrow> False | Some d \<Rightarrow> d \<le> t)"

definition purge :: "timestamp \<Rightarrow> redis_store \<Rightarrow> redis_store" where
  "purge t S = S\<lparr>
     zsets := filter (\<lambda>(k, _). \<not> expired t S k) (zsets S),
     hashes := filter (\<lambda>(k, _). \<not> expired t S k) (hashes S),
     strs := filter (\<lambda>(k, _). \<not> expired t S k) (strs S),
     lists := filter (\<lambda>(k, _). \<not> expired t S k) (lists S),
     deadlines := filter (\<lambda>(k, _). \<not> expired t S k) (deadlines S)\<rparr>"

text \<open>Members are kept by increasing score, ties by member.\<close>

fun zplace :: "string \<Rightarrow> timestamp \<Rightarrow> zset \<Rightarrow> zset" where
  "zplace m s [] = [(m, s)]"
| "zplace m s ((m', s') # z) =
     (if s < s' \<or> (s = s' \<and> m < m') then (m, s) # (m', s') # z else (m', s') # zplace m s z)"

definition zinsert :: "string \<Rightarrow> timestamp \<Rightarrow> zset \<Rightarrow> zset" where
  "zinsert m s z = zplace m s (filter (\<lambda>(m', _). m' \<noteq> m) z)"

text \<open>A sorted set that becomes empty is deleted together with its deadline.\<close>

definition put_zset :: "string \<Rightarrow> zset \<Rightarrow> redis_store \<Rightarrow> redis_store" where
  "put_zset k z S =
     (if z = [] then S\<lparr>zsets := dict_pop k (zsets S), deadlines := dict_pop k (deadlines S)\<rparr>
      else S\<lparr>zsets := dict_set k z (zsets S)\<rparr>)"

definition del_key :: "string \<Rightarrow> redis_store \<Rightarrow> redis_store" where
  "del_key k S = S\<lparr>zsets := dict_pop k (zsets S), hashes := dict_pop k (hashes S),
     strs := dict_pop k (strs S), lists := dict_pop k (lists S),
     deadlines := dict_pop k (deadlines S)\<rparr>"

definition has_key :: "string \<Rightarrow> redis_store \<Rightarrow> bool" where
  "has_key k S \<longleftrightarrow> k \<in> set (keys (zsets S)) \<union> set (keys (hashes S)) \<union> set (keys (strs S)) \<union> set (keys (lists S))"

definition all_keys :: "redis_store \<Rightarrow> string list" where
  "all_keys S = keys (zsets S) @ keys (hashes S) @ keys (strs S) @ keys (lists S)"

text \<open>Glob patterns with the wildcard \<open>*\<close>; the program's patterns use no other.\<close>

fun glob :: "string \<Rightarrow> string \<Rightarrow> bool" where
  "glob [] s = (s = [])"
| "glob (p # ps) s =
     (if p = CHR ''*'' then glob ps s \<or> (case s of [] \<Rightarrow> False | _ # s' \<Rightarrow> glob (p # ps) s')
      else (case s of [] \<Rightarrow> False | c # s' \<Rightarrow> c = p \<and> glob ps s'))"

declare glob.simps(2) [simp del]

lemma glob_Cons [simp]:
  "glob (p # ps) [] = (p = CHR ''*'' \<and> glob ps [])"
  "glob (p # ps) (c # s) = (if p = CHR ''*'' then glob ps (c # s) \<or> glob (p # ps) s else c = p \<and> glob ps s)"
  by (subst glob.simps(2), simp)+

definition in_range :: "timestamp \<Rightarrow> timestamp option \<Rightarrow> timestamp \<Rightarrow> bool" where
  "in_range lo hi s \<longleftrightarrow> lo \<le> s \<and> (case hi of None \<Rightarrow> True | Some h \<Rightarrow> s \<le> h)"

text \<open>\<open>LTRIM k start stop\<close> for \<open>0 \<le> start\<close> and \<open>0 \<le> stop\<close>, both inclusive.\<close>

definition ltrim :: "int \<Rightarrow> int \<Rightarrow> 'a list \<Rightarrow> 'a list" where
  "ltrim start stop xs = drop (nat start) (take (nat (stop + 1)) xs)"

fun exec1 :: "timestamp \<Rightarrow> redis_cmd \<Rightarrow> redis_store \<Rightarrow> redis_reply \<times> redis_store" where
  "exec1 t (ZADD k ms) S =
     (RInt (int (length (filter (\<lambda>(m, _). m \<notin> set (keys (zset_of S k))) ms))),
      put_zset k (fold (\<lambda>(m, s). zinsert m s) ms (zset_of S k)) S)"
| "exec1 t (ZREM k m) S =
     (RInt (if m \<in> set (keys (zset_of S k)) then 1 else 0),
      put_zset k (filter (\<lambda>(m', _). m' \<noteq> m) (zset_of S k)) S)"
| "exec1 t (ZREMRANGEBYSCORE k lo hi) S =
     (RInt (int (length (filter (\<lambda>(_, s). in_range lo (Some hi) s) (zset_of S k)))),
      put_zset k (filter (\<lambda>(_, s). \<not> in_range lo (Some hi) s) (zset_of S k)) S)"
| "exec1 t (ZRANGEBYSCORE k lo hi) S = (RStrs (map fst (filter (\<lambda>(_, s). in_range lo hi s) (zset_of S k))), S)"
| "exec1 t (ZCARD k) S = (RInt (int (length (zset_of S k))), S)"
| "exec1 t (ZSCORE k m) S = (RScore (map_of (zset_of S k) m), S)"
| "exec1 t (EXPIRE k secs) S =
     (if \<not> has_key k S then (RInt 0, S)
      else if secs \<le> 0 then (RInt 1, del_key k S)
      else (RInt 1, S\<lparr>deadlines := dict_set k (t + of_int secs) (deadlines S)\<rparr>))"
| "exec1 t (HSET k f v) S =
     (RInt (if f \<in> set (keys (hash_of S k)) then 0 else 1),
      S\<lparr>hashes := dict_set k (dict_set f v (hash_of S k)) (hashes S)\<rparr>)"
| "exec1 t (HGET k f) S = (RStr (map_of (hash_of S k) f), S)"
| "exec1 t (SETEX k secs v) S =
     (ROK, S\<lparr>strs := dict_set k v (strs S), deadlines := dict_set k (t + of_int secs) (deadlines S)\<rparr>)"
| "exec1 t (GETKEY k) S = (RStr (map_of (strs S) k), S)"
| "exec1 t (DEL k) S = (RInt (if has_key k S then 1 else 0), del_key k S)"
| "exec1 t (SCAN p) S = (RStrs (filter (glob p) (all_keys S)), S)"
| "exec1 t (LPUSH k v) S =
     (RInt (int (Suc (length (list_of S k)))), S\<lparr>lists := dict_set k (v # list_of S k) (lists S)\<rparr>)"
| "exec1 t (LTRIM k start stop) S =
     (ROK, let xs = ltrim start stop (list_of S k)
           in S\<lparr>lists := (if xs = [] then dict_pop k (lists S) else dict_set k xs (lists S))\<rparr>)"
| "exec1 t (PUBLISH ch v) S = (RInt 0, S\<lparr>published := published S @ [(ch, v)]\<rparr>)"

fun exec_all :: "timestamp \<Rightarrow> redis_cmd list \<Rightarrow> redis_store \<Rightarrow> redis_reply list \<times> redis_store" where
  "exec_all t [] S = ([], S)"
| "exec_all t (c # cs) S =
     (case exec1 t c S of (x, S1) \<Rightarrow> (case exec_all t cs S1 of (xs, S2) \<Rightarrow> (x # xs, S2)))"

definition exec :: "timestamp \<Rightarrow> redis_cmd list \<Rightarrow> redis_store \<Rightarrow> redis_reply list \<times> redis_store" where
  "exec t cs S = exec_all t cs (purge t S)"

text \<open>The keys a command may change.\<close>

fun cmd_keys :: "redis_cmd \<Rightarrow> string list" where
  "cmd_keys (ZADD k _) = [k]"
| "cmd_keys (ZREM k _) = [k]"
| "cmd_keys (ZREMRANGEBYSCORE k _ _) = [k]"
| "cmd_keys (EXPIRE k _) = [k]"
| "cmd_keys (HSET k _ _) = [k]"
| "cmd_keys (SETEX k _ _) = [k]"
| "cmd_keys (DEL k) = [k]"
| "cmd_keys (LPUSH k _) = [k]"
| "cmd_keys (LTRIM k _ _) = [k]"
| "cmd_keys _ = []"

section \<open>Servers\<close>

text \<open>\<open>implements view m F\<close>: the effect \<open>m\<close> returns, and does on the store what the function \<open>F\<close> does.\<close>

definition implements :: "('r \<Rightarrow> 'v) \<Rightarrow> ('r, 'a) eff \<Rightarrow> ('v \<Rightarrow> 'a \<times> 'v) \<Rightarrow> bool" where
  "implements view m F \<longleftrightarrow> (\<forall>r. \<exists>r'. m r = (Inr (fst (F (view r))), r') \<and> view r' = snd (F (view r)))"

lemma implementsE:
  assumes "implements view m F"
  obtains r' where "m r = (Inr (fst (F (view r))), r')" "view r' = snd (F (view r))"
  using assms by (auto simp: implements_def)

lemma implements_ret [impl_intros]: "implements view (ret x) (\<lambda>S. (x, S))"
  by (simp add: implements_def)

lemma implements_bindE [impl_intros]:
  assumes "implements view m F" and "\<And>x. implements view (f x) (G x)"
  shows "implements view (bindE m f) (\<lambda>S. case F S of (x, S1) \<Rightarrow> G x S1)"
  unfolding implements_def
proof
  fix r
  obtain r1 where m: "m r = (Inr (fst (F (view r))), r1)" "view r1 = snd (F (view r))"
    by (rule implementsE [OF assms(1)])
  obtain r2 where "f (fst (F (view r))) r1 = (Inr (fst (G (fst (F (view r))) (view r1))), r2)"
    "view r2 = snd (G (fst (F (view r))) (view r1))"
    by (rule implementsE [OF assms(2)])
  with m show "\<exists>r'. bindE m f r = (Inr (fst (case F (view r) of (x, S1) \<Rightarrow> G x S1)), r')
      \<and> view r' = snd (case F (view r) of (x, S1) \<Rightarrow> G x S1)"
    by (simp add: bindE_def split_beta)
qed

lemma implements_thenE [impl_intros]:
  assumes "implements view m F" and "implements view n G"
  shows "implements view (thenE m n) (\<lambda>S. G (snd (F S)))"
  using implements_bindE [of view m F "\<lambda>_. n" "\<lambda>_. G"] assms by (simp add: thenE_def split_beta)

lemma implements_forE [impl_intros]:
  assumes "\<And>x. x \<in> set xs \<Longrightarrow> implements view (f x) (\<lambda>S. ((), F x S))"
  shows "implements view (forE xs f) (\<lambda>S. ((), fold F xs S))"
  using assms
proof (induction xs)
  case (Cons x xs)
  then have "implements view (thenE (f x) (forE xs f)) (\<lambda>S. ((), fold F xs (snd ((), F x S))))"
    by (intro implements_thenE) auto
  then show ?case by simp
qed (simp add: implements_ret)

text \<open>Reading the reply of a command whose type is known.\<close>

lemma implements_read:
  assumes "implements view m F" and "\<And>S. f (fst (F S)) = ret (g S)"
  shows "implements view (bindE m f) (\<lambda>S. (g S, snd (F S)))"
  unfolding implements_def
proof
  fix r
  obtain r1 where "m r = (Inr (fst (F (view r))), r1)" "view r1 = snd (F (view r))"
    by (rule implementsE [OF assms(1)])
  then show "\<exists>r'. bindE m f r = (Inr (fst (g (view r), snd (F (view r)))), r')
      \<and> view r' = snd (g (view r), snd (F (view r)))"
    by (simp add: bindE_def assms(2))
qed

lemma implements_cong: "implements view m F \<Longrightarrow> (\<And>S. F S = G S) \<Longrightarrow> implements view m G"
  by (simp add: implements_def)

locale redis_server =
  fixes redis :: "'r redis" and view :: "'r \<Rightarrow> redis_store"
  assumes executes: "redis t cs r = (Inr xs, r') \<Longrightarrow> exec t cs (view r) = (xs, view r')"

locale redis_available = redis_server +
  assumes available: "\<exists>xs r'. redis t cs r = (Inr xs, r')"
begin

lemma runs:
  obtains xs r' where "redis t cs r = (Inr xs, r')" "exec t cs (view r) = (xs, view r')"
  using available executes by blast

lemma redis_exec: "\<exists>r'. redis t cs r = (Inr (fst (exec t cs (view r))), r') \<and> view r' = snd (exec t cs (view r))"
  using runs [of t cs r] by (metis fst_conv snd_conv)

lemma redis1_exec:
  "\<exists>r'. redis1 redis t c r = (Inr (fst (exec1 t c (purge t (view r)))), r')
        \<and> view r' = snd (exec1 t c (purge t (view r)))"
proof -
  obtain r' where "redis t [c] r = (Inr (fst (exec t [c] (view r))), r')" "view r' = snd (exec t [c] (view r))"
    using redis_exec by blast
  then show ?thesis
    by (auto simp: redis1_def bindE_def reply_at_def exec_def split: prod.splits)
qed

lemma implements_redis1 [impl_intros]: "implements view (redis1 redis t c) (\<lambda>S. exec1 t c (purge t S))"
  unfolding implements_def using redis1_exec by blast

lemma implements_redis [impl_intros]: "implements view (redis t cs) (exec t cs)"
  unfolding implements_def using redis_exec by blast

end

text \<open>The server that keeps the documented store and answers every call.\<close>

definition mem_redis :: "redis_store redis" where
  "mem_redis t cs S = (case exec t cs S of (xs, S') \<Rightarrow> (Inr xs, S'))"

interpretation mem: redis_available mem_redis id
  by unfold_locales (auto simp: mem_redis_def split: prod.splits)

text \<open>A server that cannot be reached.\<close>

definition down_redis :: "redis_store redis" where
  "down_redis t cs S = (Inl (RedisError ''Connection refused''), S)"

interpretation down: redis_server down_redis id
  by unfold_locales (simp add: down_redis_def)

section \<open>Facts about the store\<close>

lemma set_zplace [simp]: "set (zplace m s z) = insert (m, s) (set z)"
  by (induction m s z rule: zplace.induct) auto

lemma set_zinsert: "set (zinsert m s z) = insert (m, s) {p \<in> set z. fst p \<noteq> m}"
  by (auto simp: zinsert_def)

lemma distinct_zplace: "distinct (keys z) \<Longrightarrow> m \<notin> set (keys z) \<Longrightarrow> distinct (keys (zplace m s z))"
  by (induction m s z rule: zplace.induct) (auto simp: image_iff)

lemma distinct_filter_keys: "distinct (keys z) \<Longrightarrow> distinct (keys (filter P z))"
  by (simp add: distinct_map_filter)

lemma distinct_zinsert: "distinct (keys z) \<Longrightarrow> distinct (keys (zinsert m s z))"
  unfolding zinsert_def by (rule distinct_zplace) (auto simp: distinct_filter_keys)

lemma map_of_set: "distinct (keys z) \<Longrightarrow> map_of z m = Some s \<longleftrightarrow> (m, s) \<in> set z"
  by (rule map_of_eq_Some_iff)

lemma map_of_zinsert:
  assumes "distinct (keys z)"
  shows "map_of (zinsert m s z) = (map_of z)(m \<mapsto> s)"
proof (rule ext)
  fix m'
  have "map_of (zinsert m s z) m' = Some s' \<longleftrightarrow> ((map_of z)(m \<mapsto> s)) m' = Some s'" for s'
    using assms by (auto simp: map_of_set distinct_zinsert set_zinsert)
  then show "map_of (zinsert m s z) m' = ((map_of z)(m \<mapsto> s)) m'"
    by (metis not_Some_eq)
qed

lemma map_of_filter_key: "map_of (filter (\<lambda>(k, _). P k) d) k = (if P k then map_of d k else None)"
  by (induction d) auto

lemma zset_of_purge: "zset_of (purge t S) k = (if expired t S k then [] else zset_of S k)"
  by (simp add: zset_of_def purge_def map_of_filter_key)

lemma hash_of_purge: "hash_of (purge t S) k = (if expired t S k then [] else hash_of S k)"
  by (simp add: hash_of_def purge_def map_of_filter_key)

lemma list_of_purge: "list_of (purge t S) k = (if expired t S k then [] else list_of S k)"
  by (simp add: list_of_def purge_def map_of_filter_key)

lemma strs_purge: "map_of (strs (purge t S)) k = (if expired t S k then None else map_of (strs S) k)"
  by (simp add: purge_def map_of_filter_key)

lemma deadlines_purge: "map_of (deadlines (purge t S)) k = (if expired t S k then None else map_of (deadlines S) k)"
  by (simp add: purge_def map_of_filter_key)

lemma zset_of_put_zset [simp]: "zset_of (put_zset k z S) k' = (if k' = k then z else zset_of S k')"
  by (simp add: zset_of_def put_zset_def)

lemma store_of_deadlines [simp]:
  "zset_of (S\<lparr>deadlines := d\<rparr>) k = zset_of S k" "hash_of (S\<lparr>deadlines := d\<rparr>) k = hash_of S k"
  "list_of (S\<lparr>deadlines := d\<rparr>) k = list_of S k"
  by (simp_all add: zset_of_def hash_of_def list_of_def)

lemma put_zset_other [simp]:
  "hash_of (put_zset k z S) k' = hash_of S k'" "strs (put_zset k z S) = strs S"
  "list_of (put_zset k z S) k' = list_of S k'" "published (put_zset k z S) = published S"
  by (simp_all add: hash_of_def list_of_def put_zset_def)

lemma deadlines_put_zset:
  "map_of (deadlines (put_zset k z S)) k' = (if k' = k \<and> z = [] then None else map_of (deadlines S) k')"
  by (simp add: put_zset_def)

lemma zplace_not_Nil [simp]: "zplace m s z \<noteq> []"
  by (induction m s z rule: zplace.induct) auto

lemma zinsert_not_Nil [simp]: "zinsert m s z \<noteq> []"
  by (simp add: zinsert_def)

text \<open>A key without a deadline does not expire.\<close>

lemma not_expired [simp]: "map_of (deadlines S) k = None \<Longrightarrow> \<not> expired t S k"
  by (simp add: expired_def)

lemma zset_of_put_hash [simp]: "zset_of (S\<lparr>hashes := h\<rparr>) k = zset_of S k"
  by (simp add: zset_of_def)

lemma hash_of_put_hash [simp]: "hash_of (S\<lparr>hashes := dict_set k h (hashes S)\<rparr>) k' = (if k' = k then h else hash_of S k')"
  by (simp add: hash_of_def)

lemma exec1_other:
  assumes "k \<notin> set (cmd_keys c)"
  shows "zset_of (snd (exec1 t c S)) k = zset_of S k" "map_of (deadlines (snd (exec1 t c S))) k = map_of (deadlines S) k"
  using assms by (cases c; auto simp: zset_of_def put_zset_def del_key_def Let_def)+

lemma zset_key: "(m, s) \<in> set (zset_of S k) \<Longrightarrow> k \<in> set (all_keys S)"
  by (cases "map_of (zsets S) k") (force simp: zset_of_def all_keys_def dest: map_of_SomeD)+

lemma glob_star [simp]: "glob ''*'' s"
  by (induction s) simp_all

lemma glob_prefix: "CHR ''*'' \<notin> set p \<Longrightarrow> glob (p @ ''*'') k \<longleftrightarrow> (\<exists>s. k = p @ s)"
proof (induction p arbitrary: k)
  case Nil
  show ?case using glob_star by simp
next
  case (Cons c p)
  then show ?case by (cases k) auto
qed

end
