(* ===== verification/RateLimiter.thy ===== *)
theory RateLimiter
  imports Redis Config
begin

text \<open>
  The sliding-window rate limiter (\<open>app/core/rate_limiter.py\<close>) over the Redis client, its
  specification on the plain history of requests, and the proof that the limiter answers every
  request of every run as the specification does.

  \<open>now\<close> is the value of \<open>time.time()\<close> in the call, and \<open>float_str\<close> is Python's formatting of a
  float, \<open>f"{now}"\<close>, which reads back as the same number and so is injective.
\<close>

section \<open>The limiter\<close>

text \<open>\<open>int(x)\<close> of a float truncates towards zero.\<close>

definition py_int :: "timestamp \<Rightarrow> int" where
  "py_int x = (if x < 0 then \<lceil>x\<rceil> else \<lfloor>x\<rfloor>)"

definition rate_limited :: "int \<Rightarrow> exn" where
  "rate_limited retry_after =
     HTTPException 429 ''Rate limit exceeded. Please slow down.''
       [(''Retry-After'', str_int (max 1 retry_after))]"

definition rate_pipeline :: "(timestamp \<Rightarrow> string) \<Rightarrow> timestamp \<Rightarrow> string \<Rightarrow> int \<Rightarrow> redis_cmd list" where
  "rate_pipeline float_str now key window_seconds =
     (let window_start = now - of_int window_seconds in
      [ZREMRANGEBYSCORE key 0 window_start,
       ZCARD key,
       ZADD key [(float_str now, now)],
       EXPIRE key (window_seconds + 1)])"

definition check_rate_limit ::
  "'r redis \<Rightarrow> (timestamp \<Rightarrow> string) \<Rightarrow> timestamp \<Rightarrow> string \<Rightarrow> int \<Rightarrow> int \<Rightarrow> ('r, bool) eff" where
  "check_rate_limit redis float_str now key limit window_seconds =
     (let window_start = now - of_int window_seconds in
      bindE (redis now (rate_pipeline float_str now key window_seconds)) (\<lambda>results.
      bindE (bindE (reply_at results 1) as_int) (\<lambda>request_count.
      if request_count \<ge> limit then
        raise (rate_limited (py_int (of_int window_seconds - (now - window_start))))
      else ret True)))"

definition check_ws_rate_limit ::
  "'r redis \<Rightarrow> (timestamp \<Rightarrow> string) \<Rightarrow> timestamp \<Rightarrow> string \<Rightarrow> int \<Rightarrow> int \<Rightarrow> ('r, bool) eff" where
  "check_ws_rate_limit redis float_str now user_id limit window_seconds =
     check_rate_limit redis float_str now (''ratelimit:ws:'' @ user_id) limit window_seconds"

text \<open>A run: the requests of all instances in the order Redis serves them.\<close>

type_synonym rate_request = "string \<times> timestamp"

fun rate_run ::
  "'r redis \<Rightarrow> (timestamp \<Rightarrow> string) \<Rightarrow> int \<Rightarrow> int \<Rightarrow> rate_request list \<Rightarrow> 'r \<Rightarrow> (exn + bool) list \<times> 'r" where
  "rate_run redis float_str limit w [] r = ([], r)"
| "rate_run redis float_str limit w ((k, t) # rs) r =
     (case check_rate_limit redis float_str t k limit w r of
        (v, r1) \<Rightarrow> (case rate_run redis float_str limit w rs r1 of (vs, r2) \<Rightarrow> (v # vs, r2)))"

section \<open>The specification\<close>

text \<open>
  A request is admitted when fewer than \<open>limit\<close> requests with its key, admitted or not, were
  made in the window of \<open>w\<close> seconds that ends with it.
\<close>

definition recent :: "int \<Rightarrow> rate_request list \<Rightarrow> rate_request \<Rightarrow> nat" where
  "recent w past q = length (filter (\<lambda>(k, s). k = fst q \<and> snd q - of_int w < s) past)"

definition verdict :: "int \<Rightarrow> int \<Rightarrow> rate_request list \<Rightarrow> rate_request \<Rightarrow> exn + bool" where
  "verdict limit w past q = (if int (recent w past q) < limit then Inr True else Inl (rate_limited 1))"

fun sliding_window :: "int \<Rightarrow> int \<Rightarrow> rate_request list \<Rightarrow> rate_request list \<Rightarrow> (exn + bool) list" where
  "sliding_window limit w past [] = []"
| "sliding_window limit w past (q # qs) =
     verdict limit w past q # sliding_window limit w (past @ [q]) qs"

text \<open>Runs the limiter can meet: the clock does not go back, no key is used twice at one instant.\<close>

definition clocked :: "rate_request list \<Rightarrow> bool" where
  "clocked rs \<longleftrightarrow> sorted (map snd rs) \<and> distinct rs \<and> (\<forall>q\<in>set rs. 0 \<le> snd q)"

section \<open>The simulation\<close>

text \<open>
  What the store knows of the history at time \<open>T\<close>: the sorted set of a key holds only past
  requests, every one the current window can still see, and outlives them all.
\<close>

definition rate_sim :: "(timestamp \<Rightarrow> string) \<Rightarrow> int \<Rightarrow> timestamp \<Rightarrow> rate_request list \<Rightarrow> redis_store \<Rightarrow> string \<Rightarrow> bool" where
  "rate_sim fs w T past S k \<longleftrightarrow>
     distinct (keys (zset_of S k)) \<and>
     (\<forall>m s. (m, s) \<in> set (zset_of S k) \<longrightarrow> m = fs s \<and> (k, s) \<in> set past) \<and>
     (\<forall>s. (k, s) \<in> set past \<and> T - of_int w < s \<longrightarrow> (fs s, s) \<in> set (zset_of S k)) \<and>
     (\<forall>d s. map_of (deadlines S) k = Some d \<longrightarrow> (k, s) \<in> set past \<longrightarrow> s + of_int (w + 1) \<le> d)"

lemma rate_sim_init:
  "map_of (zsets S) k = None \<Longrightarrow> map_of (deadlines S) k = None \<Longrightarrow> rate_sim fs w T [] S k"
  by (simp add: rate_sim_def zset_of_def)

lemma rate_sim_later: "rate_sim fs w T past S k \<Longrightarrow> T \<le> T' \<Longrightarrow> rate_sim fs w T' past S k"
  unfolding rate_sim_def by (meson diff_right_mono order.strict_trans1)

text \<open>Expiry never hides a request the window can see.\<close>

lemma rate_sim_purge:
  assumes "rate_sim fs w T past S k" and "t \<le> T" shows "rate_sim fs w T past (purge t S) k"
proof (cases "expired t S k")
  case True
  then obtain d where d: "map_of (deadlines S) k = Some d" "d \<le> t"
    by (auto simp: expired_def split: option.splits)
  have "\<not> T - of_int w < s" if "(k, s) \<in> set past" for s
  proof -
    have "s + of_int (w + 1) \<le> d" using assms d(1) that by (simp add: rate_sim_def)
    with d(2) assms(2) show ?thesis by simp
  qed
  with True show ?thesis by (simp add: rate_sim_def zset_of_purge deadlines_purge)
next
  case False
  with assms show ?thesis by (simp add: rate_sim_def zset_of_purge deadlines_purge)
qed

text \<open>Commands on other keys do not disturb the limiter.\<close>

lemma rate_sim_other:
  assumes "rate_sim fs w T past S k" and "k \<notin> set (cmd_keys c)"
  shows "rate_sim fs w T past (snd (exec1 t c S)) k"
  using assms(1) unfolding rate_sim_def exec1_other [OF assms(2)] .

lemma length_window:
  assumes "rate_sim fs w T past S k" and "distinct past"
    and "\<forall>s. (k, s) \<in> set past \<longrightarrow> 0 \<le> s"
  shows "length (filter (\<lambda>(_, s). \<not> in_range 0 (Some (T - of_int w)) s) (zset_of S k)) = recent w past (k, T)"
proof -
  let ?Z = "filter (\<lambda>(_, s). \<not> in_range 0 (Some (T - of_int w)) s) (zset_of S k)"
  let ?P = "filter (\<lambda>(k', s). k' = k \<and> T - of_int w < s) past"
  have "set ?Z = {(fs s, s) | s. (k, s) \<in> set past \<and> T - of_int w < s}"
    using assms unfolding rate_sim_def by (auto simp: in_range_def)
  also have "\<dots> = (\<lambda>q. (fs (snd q), snd q)) ` set ?P"
    by force
  finally have "set ?Z = (\<lambda>q. (fs (snd q), snd q)) ` set ?P" .
  moreover have "inj_on (\<lambda>q. (fs (snd q), snd q)) (set ?P)"
    by (auto simp: inj_on_def)
  ultimately have "card (set ?Z) = card (set ?P)"
    by (simp only: card_image)
  moreover have "distinct ?Z" "distinct ?P"
    using assms(1,2) by (auto simp: rate_sim_def distinct_map)
  ultimately have "length ?Z = length ?P"
    by (simp only: distinct_card)
  then show ?thesis by (simp add: recent_def)
qed

lemma exec_rate_pipeline:
  assumes sim: "rate_sim fs w T past S k" and "0 < w" "inj fs" and past: "clocked (past @ [(k, T)])"
  obtains xs S' where "exec T (rate_pipeline fs T k w) S = (xs, S')"
    and "1 < length xs" and "xs ! 1 = RInt (int (recent w past (k, T)))"
    and "rate_sim fs w T (past @ [(k, T)]) S' k"
    and "\<And>k'. k' \<noteq> k \<Longrightarrow> rate_sim fs w T past S k' \<Longrightarrow> rate_sim fs w T (past @ [(k, T)]) S' k'"
proof -
  let ?S = "purge T S"
  let ?Z = "filter (\<lambda>(_, s). \<not> in_range 0 (Some (T - of_int w)) s) (zset_of ?S k)"
  let ?Z' = "zinsert (fs T) T ?Z"
  let ?S1 = "put_zset k ?Z' (put_zset k ?Z ?S)"
  let ?S' = "?S1\<lparr>deadlines := dict_set k (T + of_int (w + 1)) (deadlines ?S1)\<rparr>"
  have nonneg: "\<forall>s. (k, s) \<in> set past \<longrightarrow> 0 \<le> s \<and> s \<le> T" and new: "(k, T) \<notin> set past"
    and dist: "distinct past"
    using past by (auto simp: clocked_def sorted_append)
  have sim1: "rate_sim fs w T past ?S k" by (rule rate_sim_purge [OF sim order_refl])
  have has: "has_key k ?S1"
    by (simp add: has_key_def put_zset_def update_keys)
  have ex: "exec T (rate_pipeline fs T k w) S =
     ([RInt (int (length (filter (\<lambda>(_, s). in_range 0 (Some (T - of_int w)) s) (zset_of ?S k)))),
       RInt (int (length ?Z)),
       RInt (int (length (filter (\<lambda>(m, _). m \<notin> set (keys ?Z)) [(fs T, T)]))), RInt 1], ?S')"
    using \<open>0 < w\<close> has by (simp add: exec_def rate_pipeline_def)
  show thesis
  proof (rule that [OF ex])
    show "rate_sim fs w T (past @ [(k, T)]) ?S' k"
      using sim1 nonneg \<open>inj fs\<close>
      by (auto simp: rate_sim_def set_zinsert distinct_zinsert distinct_filter_keys in_range_def
          dest: injD)
  next
    fix k' assume "k' \<noteq> k" "rate_sim fs w T past S k'"
    then show "rate_sim fs w T (past @ [(k, T)]) ?S' k'"
      using rate_sim_purge [of fs w T past S k' T]
      by (simp add: rate_sim_def deadlines_put_zset)
  qed (use length_window [OF sim1 dist] nonneg in simp_all)
qed

text \<open>\<open>window_seconds - (now - window_start)\<close> is zero, so the header is always one second.\<close>

lemma retry_after_one: "rate_limited (py_int (of_int w - (T - (T - of_int w)))) = rate_limited 1"
  by (simp add: py_int_def rate_limited_def)

context redis_available begin

lemma check_rate_limit_step:
  assumes "rate_sim fs w T past (view r) k" "0 < w" "inj fs" "clocked (past @ [(k, T)])"
  obtains r' where "check_rate_limit redis fs T k limit w r = (verdict limit w past (k, T), r')"
    and "rate_sim fs w T (past @ [(k, T)]) (view r') k"
    and "\<And>k'. k' \<noteq> k \<Longrightarrow> rate_sim fs w T past (view r) k' \<Longrightarrow> rate_sim fs w T (past @ [(k, T)]) (view r') k'"
proof -
  obtain xs r' where run: "redis T (rate_pipeline fs T k w) r = (Inr xs, r')"
    and ex: "exec T (rate_pipeline fs T k w) (view r) = (xs, view r')"
    by (rule runs)
  obtain "1 < length xs" "xs ! 1 = RInt (int (recent w past (k, T)))"
    "rate_sim fs w T (past @ [(k, T)]) (view r') k"
    "\<And>k'. k' \<noteq> k \<Longrightarrow> rate_sim fs w T past (view r) k' \<Longrightarrow> rate_sim fs w T (past @ [(k, T)]) (view r') k'"
    by (rule exec_rate_pipeline [OF assms]) (use ex in auto)
  moreover from this run
  have "check_rate_limit redis fs T k limit w r = (verdict limit w past (k, T), r')"
    by (simp only: check_rate_limit_def Let_def retry_after_one)
      (simp add: bindE_def reply_at_def verdict_def)
  ultimately show thesis using that by blast
qed

lemma rate_run_exact:
  assumes "\<forall>q\<in>set rs. rate_sim fs w T past (view r) (fst q)" "0 < w" "inj fs"
    and "clocked (past @ rs)" "\<forall>q\<in>set rs. T \<le> snd q"
  shows "fst (rate_run redis fs limit w rs r) = sliding_window limit w past rs"
  using assms
proof (induction rs arbitrary: past r T)
  case (Cons q rs)
  obtain k t where q: "q = (k, t)" by (cases q)
  have sim: "\<forall>q\<in>set (q # rs). rate_sim fs w t past (view r) (fst q)"
    using Cons.prems(1,5) q by (auto intro: rate_sim_later)
  have "clocked (past @ [(k, t)])"
    using Cons.prems(4) q by (auto simp: clocked_def sorted_append)
  then obtain r' where step: "check_rate_limit redis fs t k limit w r = (verdict limit w past q, r')"
    and sim': "\<And>k'. rate_sim fs w t past (view r) k' \<Longrightarrow> rate_sim fs w t (past @ [q]) (view r') k'"
    using check_rate_limit_step [of fs w t past r k limit] Cons.prems(2,3) sim q by (metis fst_conv list.set_intros(1))
  have "fst (rate_run redis fs limit w rs r') = sliding_window limit w (past @ [q]) rs"
    by (rule Cons.IH [of t]) (use sim sim' Cons.prems q in \<open>auto simp: clocked_def sorted_append\<close>)
  with step q show ?case by (cases "rate_run redis fs limit w rs r'") simp
qed simp

end

section \<open>Properties\<close>

text \<open>The requests of a key admitted in the window that ends at a time.\<close>

definition admitted :: "int \<Rightarrow> string \<Rightarrow> timestamp \<Rightarrow> rate_request list \<Rightarrow> (exn + bool) list \<Rightarrow> nat" where
  "admitted w k t rs vs =
     length (filter (\<lambda>((k', s), v). k' = k \<and> t - of_int w < s \<and> s \<le> t \<and> v = Inr True) (zip rs vs))"

lemma sliding_window_snoc:
  "sliding_window limit w past (rs @ [q]) = sliding_window limit w past rs @ [verdict limit w (past @ rs) q]"
  by (induction rs arbitrary: past) simp_all

lemma length_sliding_window [simp]: "length (sliding_window limit w past rs) = length rs"
  by (induction rs arbitrary: past) simp_all

lemma length_filter_zip:
  assumes "\<And>x y. P (x, y) \<Longrightarrow> Q x"
  shows "length (filter P (zip xs ys)) \<le> length (filter Q xs)"
proof (induction xs arbitrary: ys)
  case (Cons x xs)
  then show ?case using assms by (cases ys) (auto simp: le_SucI)
qed simp

lemma admitted_le: "int (admitted w k t rs (sliding_window limit w [] rs)) \<le> max 0 limit"
proof (induction rs rule: rev_induct)
  case (snoc q rs)
  obtain k' s where q: "q = (k', s)" by (cases q)
  show ?case
  proof (cases "k' = k \<and> t - of_int w < s \<and> s \<le> t \<and> int (recent w rs q) < limit")
    case True
    have "admitted w k t rs (sliding_window limit w [] rs) \<le> recent w rs q"
      unfolding admitted_def recent_def by (rule length_filter_zip) (use True q in auto)
    with True q show ?thesis by (auto simp: admitted_def sliding_window_snoc verdict_def)
  next
    case False
    then have "admitted w k t (rs @ [q]) (sliding_window limit w [] (rs @ [q]))
        = admitted w k t rs (sliding_window limit w [] rs)"
      using q by (auto simp: admitted_def sliding_window_snoc verdict_def)
    with snoc show ?thesis by simp
  qed
qed (simp add: admitted_def)

text \<open>A formatting of numbers that reads back, for concrete runs.\<close>

definition fraction_str :: "timestamp \<Rightarrow> string" where
  "fraction_str q = (case quotient_of q of (a, b) \<Rightarrow> str_int a @ ''/'' @ str_int b)"

lemma slash_not_in_str_int: "CHR ''/'' \<notin> set (str_int i)"
proof -
  have "digit_char d \<noteq> CHR ''/''" if "d < 10" for d
  proof
    assume "digit_char d = CHR ''/''"
    then have "(of_char (CHR ''/'') :: nat) = 48 + d" using that by (metis of_digit_char)
    then show False by simp
  qed
  then have "CHR ''/'' \<notin> set (str_nat n)" for n
    using digits_of_str_nat by metis
  then show ?thesis by (simp add: str_int_def)
qed

lemma inj_fraction_str: "inj fraction_str"
proof (rule injI)
  fix x y assume eq: "fraction_str x = fraction_str y"
  obtain a b c d where q: "quotient_of x = (a, b)" "quotient_of y = (c, d)"
    by (meson surj_pair)
  have "takeWhile (\<lambda>ch. ch \<noteq> CHR ''/'') (str_int i @ ''/'' @ s) = str_int i" for i s
    using slash_not_in_str_int [of i] by (induction "str_int i") (auto simp: takeWhile_append takeWhile_eq_all_conv)
  with eq q have "str_int a = str_int c" by (metis (no_types, lifting) fraction_str_def case_prod_conv)
  moreover from this eq q have "str_int b = str_int d" by (simp add: fraction_str_def)
  ultimately show "x = y" using q by (metis quotient_of_inject str_int_inject)
qed



text \<open>
  In every window of \<open>window_seconds\<close>, wherever it ends, the limiter admits at most
  \<open>limit\<close> requests of a key.
\<close>

lemma rate_limiter_bounds_window:
  assumes "redis_available redis view" and "inj float_str"
    and "0 < window" and "clocked rs"
    and "\<forall>q\<in>set rs. map_of (zsets (view r)) (fst q) = None \<and> map_of (deadlines (view r)) (fst q) = None"
  shows "int (admitted window key t rs (fst (rate_run redis float_str limit window rs r))) \<le> max 0 limit"
proof -
  have "fst (rate_run redis float_str limit window rs r) = sliding_window limit window [] rs"
    using assms
    by (intro redis_available.rate_run_exact [where T = 0 and view = view])
      (auto simp: clocked_def intro: rate_sim_init)
  then show ?thesis by (simp add: admitted_le)
qed

lemma rate_limiter_bounds_window_witness:
  "int (admitted 10 ''u'' 12 [(''u'', 1), (''u'', 5), (''u'', 7), (''u'', 12)]
     (fst (rate_run mem_redis fraction_str 2 10 [(''u'', 1), (''u'', 5), (''u'', 7), (''u'', 12)] empty_store))) \<le> 2"
  using rate_limiter_bounds_window [OF mem.redis_available_axioms inj_fraction_str,
      of 10 "[(''u'', 1), (''u'', 5), (''u'', 7), (''u'', 12)]" empty_store "''u''" 12 2]
  by (simp add: clocked_def empty_store_def)

end
