(* ===== verification/Presence.thy ===== *)
theory Presence
  imports Redis Config
begin

text \<open>
  Presence tracking (\<open>app/services/presence_service.py\<close>): per room a Redis sorted set of
  users scored by when they were last seen, and one hash of user names. \<open>now\<close> is the value of
  \<open>time.time()\<close> in the call.

  The specification keeps, per room and user, the time of the last sign of life. The
  properties say that the answers of the service are those of the specification after every
  run of its operations, on whichever instance each one is executed.
\<close>

section \<open>The service\<close>

definition presence_key :: "string \<Rightarrow> string" where
  "presence_key room_id = ''presence:'' @ room_id"

definition set_online :: "'r redis \<Rightarrow> timestamp \<Rightarrow> string \<Rightarrow> string \<Rightarrow> string \<Rightarrow> ('r, unit) eff" where
  "set_online redis now room_id user_id username =
     thenE (redis1 redis now (ZADD (presence_key room_id) [(user_id, now)]))
     (thenE (redis1 redis now (HSET ''usernames'' user_id username))
     (ret ()))"

definition set_offline :: "'r redis \<Rightarrow> timestamp \<Rightarrow> string \<Rightarrow> string \<Rightarrow> ('r, unit) eff" where
  "set_offline redis now room_id user_id =
     thenE (redis1 redis now (ZREM (presence_key room_id) user_id)) (ret ())"

definition heartbeat :: "'r redis \<Rightarrow> timestamp \<Rightarrow> string \<Rightarrow> string \<Rightarrow> ('r, unit) eff" where
  "heartbeat redis now room_id user_id =
     thenE (redis1 redis now (ZADD (presence_key room_id) [(user_id, now)])) (ret ())"

text \<open>\<open>username or "Unknown"\<close>: a missing and an empty name are both replaced.\<close>

definition display_name :: "string option \<Rightarrow> string" where
  "display_name username = (case username of None \<Rightarrow> ''Unknown'' | Some n \<Rightarrow> if n = [] then ''Unknown'' else n)"

text \<open>The loop of \<open>get_online_users\<close>; an entry is the pair of \<open>user_id\<close> and \<open>username\<close>.\<close>

fun online_entries :: "'r redis \<Rightarrow> timestamp \<Rightarrow> string list \<Rightarrow> ('r, (string \<times> string) list) eff" where
  "online_entries redis now [] = ret []"
| "online_entries redis now (uid # uids) =
     bindE (bindE (redis1 redis now (HGET ''usernames'' uid)) as_str) (\<lambda>username.
     bindE (online_entries redis now uids) (\<lambda>rest.
     ret ((uid, display_name username) # rest)))"

definition get_online_users ::
  "'r redis \<Rightarrow> settings \<Rightarrow> timestamp \<Rightarrow> string \<Rightarrow> ('r, (string \<times> string) list) eff" where
  "get_online_users redis cfg now room_id =
     (let cutoff = now - of_int (PRESENCE_TIMEOUT_SECONDS cfg) in
      thenE (redis1 redis now (ZREMRANGEBYSCORE (presence_key room_id) 0 cutoff))
      (bindE (bindE (redis1 redis now (ZRANGEBYSCORE (presence_key room_id) cutoff None)) as_strs) (\<lambda>user_ids.
       online_entries redis now user_ids)))"

definition is_online :: "'r redis \<Rightarrow> settings \<Rightarrow> timestamp \<Rightarrow> string \<Rightarrow> string \<Rightarrow> ('r, bool) eff" where
  "is_online redis cfg now room_id user_id =
     bindE (bindE (redis1 redis now (ZSCORE (presence_key room_id) user_id)) as_score) (\<lambda>score.
     ret (case score of None \<Rightarrow> False | Some s \<Rightarrow> now - s < of_int (PRESENCE_TIMEOUT_SECONDS cfg)))"

definition remove_user_from_all_rooms :: "'r redis \<Rightarrow> timestamp \<Rightarrow> string \<Rightarrow> ('r, unit) eff" where
  "remove_user_from_all_rooms redis now user_id =
     bindE (bindE (redis1 redis now (SCAN ''presence:*'')) as_strs) (\<lambda>ks.
     forE ks (\<lambda>key. thenE (redis1 redis now (ZREM key user_id)) (ret ())))"

section \<open>The specification\<close>

datatype presence_event =
    Online string string string
  | Offline string string
  | Beat string string
  | RemoveAll string
  | Listing string

record presence_spec =
  last_seen :: "string \<Rightarrow> string \<Rightarrow> timestamp option"
  user_names :: "string \<Rightarrow> string option"

definition nobody :: presence_spec where
  "nobody = \<lparr>last_seen = (\<lambda>_ _. None), user_names = (\<lambda>_. None)\<rparr>"

definition see :: "string \<Rightarrow> string \<Rightarrow> timestamp option \<Rightarrow> presence_spec \<Rightarrow> presence_spec" where
  "see room u s P = P\<lparr>last_seen := (last_seen P)(room := (last_seen P room)(u := s))\<rparr>"

fun presence_next :: "timestamp \<Rightarrow> presence_event \<Rightarrow> presence_spec \<Rightarrow> presence_spec" where
  "presence_next t (Online room u name) P = (see room u (Some t) P)\<lparr>user_names := (user_names P)(u \<mapsto> name)\<rparr>"
| "presence_next t (Offline room u) P = see room u None P"
| "presence_next t (Beat room u) P = see room u (Some t) P"
| "presence_next t (RemoveAll u) P = P\<lparr>last_seen := (\<lambda>room. (last_seen P room)(u := None))\<rparr>"
| "presence_next t (Listing room) P = P"

definition present :: "settings \<Rightarrow> timestamp \<Rightarrow> string \<Rightarrow> presence_spec \<Rightarrow> string \<Rightarrow> bool" where
  "present cfg t room P u \<longleftrightarrow>
     (case last_seen P room u of None \<Rightarrow> False | Some s \<Rightarrow> t - s < of_int (PRESENCE_TIMEOUT_SECONDS cfg))"

text \<open>The same events on the service.\<close>

fun presence_call :: "'r redis \<Rightarrow> settings \<Rightarrow> timestamp \<times> presence_event \<Rightarrow> ('r, unit) eff" where
  "presence_call redis cfg (t, Online room u name) = set_online redis t room u name"
| "presence_call redis cfg (t, Offline room u) = set_offline redis t room u"
| "presence_call redis cfg (t, Beat room u) = heartbeat redis t room u"
| "presence_call redis cfg (t, RemoveAll u) = remove_user_from_all_rooms redis t u"
| "presence_call redis cfg (t, Listing room) = thenE (get_online_users redis cfg t room) (ret ())"

definition presence_run :: "'r redis \<Rightarrow> settings \<Rightarrow> (timestamp \<times> presence_event) list \<Rightarrow> ('r, unit) eff" where
  "presence_run redis cfg evs = forE evs (presence_call redis cfg)"

definition presence_history :: "(timestamp \<times> presence_event) list \<Rightarrow> presence_spec" where
  "presence_history evs = fold (\<lambda>(t, ev). presence_next t ev) evs nobody"

section \<open>What each operation does to the store\<close>

lemma presence_key_inject [simp]: "presence_key a = presence_key b \<longleftrightarrow> a = b"
  by (simp add: presence_key_def)

lemma usernames_not_presence [simp]: "presence_key room \<noteq> ''usernames''" "''usernames'' \<noteq> presence_key room"
  by (simp_all add: presence_key_def)

lemma glob_presence: "glob ''presence:*'' k \<longleftrightarrow> (\<exists>room. k = presence_key room)"
  using glob_prefix [of "''presence:''" k] by (simp add: presence_key_def)

text \<open>The relation between the store and the specification at time \<open>T\<close>.\<close>

definition room_sim :: "settings \<Rightarrow> timestamp \<Rightarrow> (string \<Rightarrow> timestamp option) \<Rightarrow> zset \<Rightarrow> bool" where
  "room_sim cfg T seen z \<longleftrightarrow>
     distinct (keys z) \<and> set z \<subseteq> Map.graph seen \<and>
     {p \<in> Map.graph seen. T - of_int (PRESENCE_TIMEOUT_SECONDS cfg) < snd p} \<subseteq> set z \<and>
     (\<forall>p\<in>Map.graph seen. 0 \<le> snd p)"

definition presence_sim :: "settings \<Rightarrow> timestamp \<Rightarrow> presence_spec \<Rightarrow> redis_store \<Rightarrow> bool" where
  "presence_sim cfg T P S \<longleftrightarrow>
     (\<forall>room. room_sim cfg T (last_seen P room) (zset_of S (presence_key room))
        \<and> map_of (deadlines S) (presence_key room) = None) \<and>
     map_of (hash_of S ''usernames'') = user_names P \<and> map_of (deadlines S) ''usernames'' = None"

lemma room_sim_later: "room_sim cfg T seen z \<Longrightarrow> T \<le> T' \<Longrightarrow> room_sim cfg T' seen z"
  unfolding room_sim_def by (force dest: diff_right_mono order.strict_trans1)

lemma presence_sim_later: "presence_sim cfg T P S \<Longrightarrow> T \<le> T' \<Longrightarrow> presence_sim cfg T' P S"
  unfolding presence_sim_def using room_sim_later by blast

lemma presence_sim_empty: "presence_sim cfg T nobody empty_store"
  by (simp add: presence_sim_def room_sim_def nobody_def empty_store_def zset_of_def hash_of_def fun_eq_iff)

lemma room_sim_insert: "room_sim cfg T seen z \<Longrightarrow> 0 \<le> s \<Longrightarrow> room_sim cfg T (seen(u \<mapsto> s)) (zinsert u s z)"
  by (auto simp: room_sim_def set_zinsert distinct_zinsert graph_map_upd graph_fun_upd_None)

lemma room_sim_remove: "room_sim cfg T seen z \<Longrightarrow> room_sim cfg T (seen(u := None)) (filter (\<lambda>(m, _). m \<noteq> u) z)"
  by (auto simp: room_sim_def distinct_filter_keys graph_fun_upd_None)

lemma room_sim_prune:
  "room_sim cfg T seen z \<Longrightarrow>
   room_sim cfg T seen (filter (\<lambda>(_, s). \<not> in_range 0 (Some (T - of_int (PRESENCE_TIMEOUT_SECONDS cfg))) s) z)"
  by (auto simp: room_sim_def distinct_filter_keys in_range_def)

lemma presence_sim_purge: "presence_sim cfg T P S \<Longrightarrow> presence_sim cfg T P (purge t S)"
  by (simp add: presence_sim_def zset_of_purge hash_of_purge deadlines_purge)

lemma presence_sim_put:
  assumes "presence_sim cfg T P S" and "room_sim cfg T seen z"
  shows "presence_sim cfg T (P\<lparr>last_seen := (last_seen P)(room := seen)\<rparr>) (put_zset (presence_key room) z S)"
  using assms by (auto simp: presence_sim_def deadlines_put_zset)

lemma presence_sim_room: "presence_sim cfg T P S \<Longrightarrow> room_sim cfg T (last_seen P room) (zset_of S (presence_key room))"
  by (simp add: presence_sim_def)

lemma presence_sim_ZADD:
  "presence_sim cfg T P S \<Longrightarrow> 0 \<le> s \<Longrightarrow>
   presence_sim cfg T (see room u (Some s) P) (snd (exec1 t (ZADD (presence_key room) [(u, s)]) S))"
  unfolding see_def by (simp add: presence_sim_put presence_sim_room room_sim_insert)

lemma presence_sim_ZREM:
  "presence_sim cfg T P S \<Longrightarrow>
   presence_sim cfg T (see room u None P) (snd (exec1 t (ZREM (presence_key room) u) S))"
  unfolding see_def by (simp add: presence_sim_put presence_sim_room room_sim_remove)

lemma presence_sim_prune:
  assumes "presence_sim cfg T P S"
  shows "presence_sim cfg T P
     (snd (exec1 t (ZREMRANGEBYSCORE (presence_key room) 0 (T - of_int (PRESENCE_TIMEOUT_SECONDS cfg))) S))"
  using presence_sim_put [OF assms room_sim_prune [OF presence_sim_room [OF assms, of room]], of room] by simp

lemma presence_sim_HSET:
  "presence_sim cfg T P S \<Longrightarrow>
   presence_sim cfg T (P\<lparr>user_names := (user_names P)(u \<mapsto> name)\<rparr>) (snd (exec1 t (HSET ''usernames'' u name) S))"
  by (simp add: presence_sim_def)

text \<open>After pruning, the members by score are the users the specification calls present.\<close>

lemma room_listing:
  assumes z: "room_sim cfg t (last_seen P room) z"
    and above: "\<And>u s. (u, s) \<in> set z \<Longrightarrow> t - of_int (PRESENCE_TIMEOUT_SECONDS cfg) < s"
  shows "set (map fst (filter (\<lambda>(_, s). in_range (t - of_int (PRESENCE_TIMEOUT_SECONDS cfg)) None s) z))
    = {u. present cfg t room P u}" (is "set ?uids = _")
proof (intro set_eqI iffI CollectI)
  fix u assume "u \<in> set ?uids"
  then obtain s where s: "(u, s) \<in> set z" by auto
  with z have "last_seen P room u = Some s" by (auto simp: room_sim_def dest: in_graphD)
  with above [OF s] show "present cfg t room P u" by (simp add: present_def)
next
  fix u assume "u \<in> {u. present cfg t room P u}"
  then obtain s where s: "last_seen P room u = Some s" "t - of_int (PRESENCE_TIMEOUT_SECONDS cfg) < s"
    by (cases "last_seen P room u") (auto simp: present_def)
  then have "(u, s) \<in> Map.graph (last_seen P room)" by (simp add: in_graphI)
  with z s(2) have "(u, s) \<in> set z" by (auto simp: room_sim_def)
  with s(2) show "u \<in> set ?uids" by (force simp: in_range_def)
qed

definition zrem_all :: "timestamp \<Rightarrow> string \<Rightarrow> string list \<Rightarrow> redis_store \<Rightarrow> redis_store" where
  "zrem_all t u = fold (\<lambda>k S. snd (exec1 t (ZREM k u) (purge t S)))"

lemma presence_sim_zrem_all:
  assumes "presence_sim cfg T P S" and "\<forall>k\<in>set ks. \<exists>room. k = presence_key room"
  shows "presence_sim cfg T
      (P\<lparr>last_seen := (\<lambda>room. if presence_key room \<in> set ks then (last_seen P room)(u := None) else last_seen P room)\<rparr>)
      (zrem_all t u ks S)
    \<and> (\<forall>room. presence_key room \<notin> set ks \<longrightarrow> zset_of (zrem_all t u ks S) (presence_key room) = zset_of S (presence_key room))"
  using assms unfolding zrem_all_def
proof (induction ks arbitrary: P S)
  case (Cons k ks)
  then obtain room where k: "k = presence_key room" by auto
  let ?S = "snd (exec1 t (ZREM k u) (purge t S))" and ?P = "see room u None P"
  have "presence_sim cfg T ?P ?S"
    using Cons.prems(1) k by (simp only: presence_sim_ZREM presence_sim_purge)
  note IH = Cons.IH [OF this]
  have "\<And>room'. zset_of ?S (presence_key room') =
      (if room' = room then filter (\<lambda>(m, _). m \<noteq> u) (zset_of S k) else zset_of S (presence_key room'))"
    using Cons.prems(1) k by (simp add: presence_sim_def zset_of_purge)
  moreover have "(\<lambda>r. if presence_key r \<in> set ks then (last_seen ?P r)(u := None) else last_seen ?P r)
     = (\<lambda>r. if presence_key r \<in> set (k # ks) then (last_seen P r)(u := None) else last_seen P r)"
    by (auto simp: see_def k fun_eq_iff)
  moreover have "?P\<lparr>last_seen := f\<rparr> = P\<lparr>last_seen := f\<rparr>" for f
    by (simp add: see_def)
  ultimately show ?case using IH Cons.prems(2) k by (simp add: see_def)
qed (simp add: presence_sim_def)

lemma room_score:
  assumes z: "room_sim cfg t (last_seen P room) z"
  shows "(case map_of z u of None \<Rightarrow> False | Some s \<Rightarrow> t - s < of_int (PRESENCE_TIMEOUT_SECONDS cfg))
    = present cfg t room P u"
proof (cases "map_of z u")
  case None
  then have "(u, s) \<notin> set z" for s
    using z by (metis map_of_eq_Some_iff option.distinct(1) room_sim_def)
  then have "\<not> t - of_int (PRESENCE_TIMEOUT_SECONDS cfg) < s" if "last_seen P room u = Some s" for s
    using z that in_graphI [of "last_seen P room" u s] by (auto simp: room_sim_def)
  with None show ?thesis by (cases "last_seen P room u") (auto simp: present_def)
next
  case (Some s)
  then have "last_seen P room u = Some s"
    using z by (auto simp: room_sim_def dest: map_of_SomeD in_graphD)
  with Some show ?thesis by (simp add: present_def)
qed

lemma zrem_all_complete:
  assumes sim: "presence_sim cfg t P S" and keys: "\<forall>k\<in>set ks. \<exists>room. k = presence_key room"
    and all: "\<And>room p. p \<in> set (zset_of S (presence_key room)) \<Longrightarrow> presence_key room \<in> set ks"
  shows "presence_sim cfg t (presence_next t (RemoveAll u) P) (zrem_all t u ks S)"
proof -
  let ?S' = "zrem_all t u ks S"
  let ?P = "P\<lparr>last_seen := (\<lambda>room. if presence_key room \<in> set ks then (last_seen P room)(u := None) else last_seen P room)\<rparr>"
  have sim': "presence_sim cfg t ?P ?S'"
    and kept: "\<And>room. presence_key room \<notin> set ks \<Longrightarrow> zset_of ?S' (presence_key room) = zset_of S (presence_key room)"
    using presence_sim_zrem_all [OF sim keys, where t = t and u = u] by blast+
  have rest: "zset_of ?S' (presence_key room) = []" if "presence_key room \<notin> set ks" for room
    using kept [OF that] all [of _ room] that by (metis list.set_intros(1) neq_Nil_conv)
  have "room_sim cfg t ((last_seen P room)(u := None)) (zset_of ?S' (presence_key room))" for room
  proof (cases "presence_key room \<in> set ks")
    case True
    then show ?thesis using presence_sim_room [OF sim', of room] by simp
  next
    case False
    then show ?thesis using presence_sim_room [OF sim', of room] rest [of room]
      by (auto simp: room_sim_def graph_fun_upd_None)
  qed
  with sim' show ?thesis by (simp add: presence_sim_def)
qed

context redis_available begin

lemma redis1_runs:
  obtains r' where "redis1 redis t c r = (Inr (fst (exec1 t c (purge t (view r)))), r')"
    and "view r' = snd (exec1 t c (purge t (view r)))"
  using redis1_exec by blast

lemma ZADD_runs:
  assumes "presence_sim cfg t P (view r)" "0 \<le> t"
  obtains x r' where "redis1 redis t (ZADD (presence_key room) [(u, t)]) r = (Inr x, r')"
    and "presence_sim cfg t (see room u (Some t) P) (view r')"
  by (rule redis1_runs [of t "ZADD (presence_key room) [(u, t)]" r])
    (metis assms presence_sim_ZADD presence_sim_purge)

lemma ZREM_runs:
  assumes "presence_sim cfg t P (view r)"
  obtains x r' where "redis1 redis t (ZREM (presence_key room) u) r = (Inr x, r')"
    and "presence_sim cfg t (see room u None P) (view r')"
  by (rule redis1_runs [of t "ZREM (presence_key room) u" r])
    (metis assms presence_sim_ZREM presence_sim_purge)

lemma HSET_runs:
  assumes "presence_sim cfg t P (view r)"
  obtains x r' where "redis1 redis t (HSET ''usernames'' u name) r = (Inr x, r')"
    and "presence_sim cfg t (P\<lparr>user_names := (user_names P)(u \<mapsto> name)\<rparr>) (view r')"
  by (rule redis1_runs [of t "HSET ''usernames'' u name" r])
    (metis assms presence_sim_HSET presence_sim_purge)

lemma online_entries_runs:
  assumes "presence_sim cfg t P (view r)"
  obtains r' where "online_entries redis t uids r = (Inr (map (\<lambda>u. (u, display_name (user_names P u))) uids), r')"
    and "presence_sim cfg t P (view r')"
  using assms
proof (induction uids arbitrary: r thesis)
  case (Cons u uids)
  have sim: "presence_sim cfg t P (purge t (view r))"
    by (rule presence_sim_purge [OF Cons.prems(2)])
  obtain r1 where r1: "redis1 redis t (HGET ''usernames'' u) r = (Inr (RStr (user_names P u)), r1)"
    "presence_sim cfg t P (view r1)"
    by (rule redis1_runs [of t "HGET ''usernames'' u" r]) (use sim in \<open>simp add: presence_sim_def\<close>)
  obtain r2 where "online_entries redis t uids r1 = (Inr (map (\<lambda>u. (u, display_name (user_names P u))) uids), r2)"
    "presence_sim cfg t P (view r2)"
    by (rule Cons.IH [OF _ r1(2)])
  with r1(1) show ?case by (intro Cons.prems(1) [of r2]) (simp_all add: bindE_def)
qed simp

lemma get_online_users_runs:
  assumes "presence_sim cfg t P (view r)"
  obtains us r' where "get_online_users redis cfg t room r = (Inr us, r')"
    and "presence_sim cfg t P (view r')" and "distinct (map fst us)"
    and "set us = {(u, display_name (user_names P u)) | u. present cfg t room P u}"
proof -
  let ?cut = "t - of_int (PRESENCE_TIMEOUT_SECONDS cfg)" and ?k = "presence_key room"
  obtain x r1 where r1: "redis1 redis t (ZREMRANGEBYSCORE ?k 0 ?cut) r = (Inr x, r1)"
    and v1: "view r1 = snd (exec1 t (ZREMRANGEBYSCORE ?k 0 ?cut) (purge t (view r)))"
    by (rule redis1_runs)
  have s1: "presence_sim cfg t P (view r1)"
    unfolding v1 by (intro presence_sim_prune presence_sim_purge assms)
  let ?z = "zset_of (view r1) ?k"
  let ?uids = "map fst (filter (\<lambda>(_, s). in_range ?cut None s) ?z)"
  have z: "room_sim cfg t (last_seen P room) ?z" by (rule presence_sim_room [OF s1])
  have above: "?cut < s" if "(u, s) \<in> set ?z" for u s
  proof -
    have "0 \<le> s" using z that by (force simp: room_sim_def)
    with that show ?thesis by (auto simp: v1 in_range_def)
  qed
  obtain r2 where r2: "redis1 redis t (ZRANGEBYSCORE ?k ?cut None) r1 = (Inr (RStrs ?uids), r2)"
    and s2: "presence_sim cfg t P (view r2)"
    by (rule redis1_runs [of t "ZRANGEBYSCORE ?k ?cut None" r1])
      (use s1 presence_sim_purge [OF s1] in \<open>simp add: presence_sim_def zset_of_purge\<close>)
  obtain r3 where r3: "online_entries redis t ?uids r2 = (Inr (map (\<lambda>u. (u, display_name (user_names P u))) ?uids), r3)"
    and s3: "presence_sim cfg t P (view r3)"
    by (rule online_entries_runs [OF s2])
  have "set ?uids = {u. present cfg t room P u}"
    by (rule room_listing [OF z above])
  then have "set (map (\<lambda>u. (u, display_name (user_names P u))) ?uids)
      = {(u, display_name (user_names P u)) | u. present cfg t room P u}"
    by (simp only: set_map) blast
  moreover have "distinct ?uids" using z by (simp add: room_sim_def distinct_filter_keys)
  then have "distinct (map fst (map (\<lambda>u. (u, display_name (user_names P u))) ?uids))"
    by (simp only: map_map comp_def fst_conv map_ident)
  moreover have "get_online_users redis cfg t room r
      = (Inr (map (\<lambda>u. (u, display_name (user_names P u))) ?uids), r3)"
    using r1 r2 r3 by (simp only: get_online_users_def Let_def eff_simps bindE_def thenE_def prod.case sum.case as_strs.simps)
  ultimately show thesis using s3 that by blast
qed

lemma is_online_runs:
  assumes "presence_sim cfg t P (view r)"
  obtains r' where "is_online redis cfg t room u r = (Inr (present cfg t room P u), r')"
    and "presence_sim cfg t P (view r')"
proof -
  let ?z = "zset_of (view r) (presence_key room)"
  have z: "room_sim cfg t (last_seen P room) ?z" by (rule presence_sim_room [OF assms])
  obtain r1 where r1: "redis1 redis t (ZSCORE (presence_key room) u) r = (Inr (RScore (map_of ?z u)), r1)"
    and s1: "presence_sim cfg t P (view r1)"
    by (rule redis1_runs [of t "ZSCORE (presence_key room) u" r])
      (use assms presence_sim_purge [OF assms] in \<open>simp add: presence_sim_def zset_of_purge\<close>)
  have "(case map_of ?z u of None \<Rightarrow> False | Some s \<Rightarrow> t - s < of_int (PRESENCE_TIMEOUT_SECONDS cfg))
      = present cfg t room P u"
    by (rule room_score [OF z])
  with r1 have "is_online redis cfg t room u r = (Inr (present cfg t room P u), r1)"
    by (simp add: is_online_def bindE_def)
  with s1 show thesis by (rule that [rotated])
qed

lemma remove_user_from_all_rooms_runs:
  assumes "presence_sim cfg t P (view r)"
  obtains r' where "remove_user_from_all_rooms redis t u r = (Inr (), r')"
    and "presence_sim cfg t (presence_next t (RemoveAll u) P) (view r')"
proof -
  let ?S = "purge t (view r)"
  let ?ks = "filter (glob ''presence:*'') (all_keys ?S)"
  have sim: "presence_sim cfg t P ?S" by (rule presence_sim_purge [OF assms])
  obtain r1 where r1: "redis1 redis t (SCAN ''presence:*'') r = (Inr (RStrs ?ks), r1)" and v1: "view r1 = ?S"
    by (rule redis1_runs [of t "SCAN ''presence:*''" r]) simp
  have "implements view (forE ?ks (\<lambda>key. thenE (redis1 redis t (ZREM key u)) (ret ())))
      (\<lambda>S. ((), fold (\<lambda>k S. snd (exec1 t (ZREM k u) (purge t S))) ?ks S))"
    by (intro implements_forE implements_cong [OF implements_thenE [OF implements_redis1 implements_ret]]) simp
  then obtain r2 where r2: "forE ?ks (\<lambda>key. thenE (redis1 redis t (ZREM key u)) (ret ())) r1 = (Inr (), r2)"
    and v2: "view r2 = zrem_all t u ?ks ?S"
    by (rule implementsE [of _ _ _ r1]) (simp add: v1 zrem_all_def)
  have "remove_user_from_all_rooms redis t u r = (Inr (), r2)"
    using r1 r2 by (simp add: remove_user_from_all_rooms_def bindE_def)
  moreover have "presence_sim cfg t (presence_next t (RemoveAll u) P) (view r2)"
    unfolding v2 by (rule zrem_all_complete [OF sim]) (auto simp: glob_presence dest: zset_key)
  ultimately show thesis by (rule that)
qed

lemma presence_call_runs:
  assumes "presence_sim cfg T P (view r)" and "T \<le> t" "0 \<le> t"
  obtains r' where "presence_call redis cfg (t, ev) r = (Inr (), r')"
    and "presence_sim cfg t (presence_next t ev P) (view r')"
proof -
  have sim: "presence_sim cfg t P (view r)" by (rule presence_sim_later [OF assms(1,2)])
  show thesis
  proof (cases ev)
    case (Online room u name)
    obtain x r1 where r1: "redis1 redis t (ZADD (presence_key room) [(u, t)]) r = (Inr x, r1)"
      and s1: "presence_sim cfg t (see room u (Some t) P) (view r1)"
      by (rule ZADD_runs [OF sim \<open>0 \<le> t\<close>])
    obtain y r2 where r2: "redis1 redis t (HSET ''usernames'' u name) r1 = (Inr y, r2)"
      and s2: "presence_sim cfg t ((see room u (Some t) P)\<lparr>user_names := (user_names (see room u (Some t) P))(u \<mapsto> name)\<rparr>) (view r2)"
      by (rule HSET_runs [OF s1])
    show thesis
      by (rule that [of r2]) (use r1 r2 s2 Online in \<open>simp_all add: set_online_def thenE_def bindE_def see_def\<close>)
  next
    case (Offline room u)
    then show thesis
      using ZREM_runs [OF sim, of room u] that
      by (metis (no_types, lifting) presence_call.simps(2) presence_next.simps(2) ret_apply set_offline_def thenE_Inr)
  next
    case (Beat room u)
    then show thesis
      using ZADD_runs [OF sim \<open>0 \<le> t\<close>, of room u] that
      by (metis (no_types, lifting) presence_call.simps(3) presence_next.simps(3) ret_apply heartbeat_def thenE_Inr)
  next
    case (RemoveAll u)
    then show thesis
      using remove_user_from_all_rooms_runs [OF sim, of u] that by (metis presence_call.simps(4))
  next
    case (Listing room)
    then show thesis
      using get_online_users_runs [OF sim, of room] that
      by (metis (no_types, lifting) presence_call.simps(5) presence_next.simps(5) ret_apply thenE_Inr)
  qed
qed

lemma presence_run_runs:
  assumes "presence_sim cfg T P (view r)" and "sorted (T # map fst evs)" "0 \<le> T"
  obtains r' where "presence_run redis cfg evs r = (Inr (), r')"
    and "presence_sim cfg (last (T # map fst evs)) (fold (\<lambda>(t, ev). presence_next t ev) evs P) (view r')"
  using assms
proof (induction evs arbitrary: T P r thesis)
  case Nil
  then show ?case by (simp add: presence_run_def)
next
  case (Cons e evs)
  obtain t ev where e: "e = (t, ev)" by (cases e)
  then have "T \<le> t" "0 \<le> t" using Cons.prems by auto
  then obtain r1 where r1: "presence_call redis cfg (t, ev) r = (Inr (), r1)"
    "presence_sim cfg t (presence_next t ev P) (view r1)"
    using presence_call_runs [OF Cons.prems(2)] by blast
  obtain r2 where "presence_run redis cfg evs r1 = (Inr (), r2)"
    "presence_sim cfg (last (t # map fst evs)) (fold (\<lambda>(t, ev). presence_next t ev) evs (presence_next t ev P)) (view r2)"
    using Cons.IH [OF _ r1(2)] Cons.prems(3) e \<open>0 \<le> t\<close> by auto
  then show ?case
    using r1(1) e by (intro Cons.prems(1) [of r2]) (simp_all add: presence_run_def thenE_def bindE_def)
qed

lemma presence_run_sim:
  assumes "view r = empty_store" and "sorted (0 # map fst evs @ [now])"
    and "presence_run redis cfg evs r = (res, r')"
  shows "res = Inr () \<and> presence_sim cfg now (presence_history evs) (view r')"
proof -
  have "presence_sim cfg 0 nobody (view r)" and "sorted (0 # map fst evs)"
    using assms(1,2) by (simp_all add: presence_sim_empty sorted_append)
  then obtain r1 where run: "presence_run redis cfg evs r = (Inr (), r1)"
    and sim: "presence_sim cfg (last (0 # map fst evs)) (presence_history evs) (view r1)"
    unfolding presence_history_def by (rule presence_run_runs) simp_all
  have "last (0 # map fst evs) \<in> set (0 # map fst evs)" by (rule last_in_set) simp
  then have "last (0 # map fst evs) \<le> now"
    using assms(2) by (auto simp only: sorted_append sorted_simps set_append set_simps append_Cons [symmetric])
  with sim run assms(3) show ?thesis by (auto intro: presence_sim_later)
qed

end

section \<open>Properties\<close>

text \<open>
  C21. After every run of presence operations, on whichever instances, a listing of a room
  returns without error, once each, exactly the users whose last sign of life in the room is
  more recent than the timeout, with the name last reported for them, or \<open>Unknown\<close>.
\<close>

theorem online_users_exact:
  assumes "redis_available redis view" and "view r = empty_store"
    and "sorted (0 # map fst evs @ [now])"
    and "presence_run redis cfg evs r = (res, r')"
  shows "res = Inr () \<and>
    (\<exists>us. fst (get_online_users redis cfg now room r') = Inr us \<and> distinct (map fst us) \<and>
       set us = {(u, display_name (user_names (presence_history evs) u)) | u.
                   present cfg now room (presence_history evs) u})"
proof -
  have sim: "res = Inr () \<and> presence_sim cfg now (presence_history evs) (view r')"
    by (rule redis_available.presence_run_sim [OF assms])
  obtain us r2 where "get_online_users redis cfg now room r' = (Inr us, r2)" "distinct (map fst us)"
    "set us = {(u, display_name (user_names (presence_history evs) u)) | u. present cfg now room (presence_history evs) u}"
    by (rule redis_available.get_online_users_runs [OF assms(1) conjunct2 [OF sim]])
  with sim show ?thesis by auto
qed

theorem online_users_exact_witness:
  "fst (presence_run mem_redis default_settings
      [(10, Online ''r'' ''u1'' ''ann''), (20, Online ''r'' ''u2'' ''bob''), (60, Beat ''r'' ''u2''),
       (65, Online ''s'' ''u1'' ''ann'')] empty_store) = Inr () \<and>
   present default_settings 75 ''r'' (presence_history
      [(10, Online ''r'' ''u1'' ''ann''), (20, Online ''r'' ''u2'' ''bob''), (60, Beat ''r'' ''u2''),
       (65, Online ''s'' ''u1'' ''ann'')]) ''u2'' \<and>
   \<not> present default_settings 75 ''r'' (presence_history
      [(10, Online ''r'' ''u1'' ''ann''), (20, Online ''r'' ''u2'' ''bob''), (60, Beat ''r'' ''u2''),
       (65, Online ''s'' ''u1'' ''ann'')]) ''u1''"
  using online_users_exact [OF mem.redis_available_axioms, of empty_store
      "[(10, Online ''r'' ''u1'' ''ann''), (20, Online ''r'' ''u2'' ''bob''), (60, Beat ''r'' ''u2''),
       (65, Online ''s'' ''u1'' ''ann'')]" 75 default_settings _ _ "''r''"]
  by (simp add: present_def presence_history_def see_def nobody_def default_settings_def prod_eq_iff)

text \<open>
  The two ways to ask agree: at any time a user is in the listing of a room exactly when
  \<open>is_online\<close> answers true for the user and the room.
\<close>

theorem online_users_agree:
  assumes "redis_available redis view" and "view r = empty_store"
    and "sorted (0 # map fst evs @ [now])"
    and "presence_run redis cfg evs r = (res, r')"
    and "get_online_users redis cfg now room r' = (Inr us, r1)"
  shows "user_id \<in> set (map fst us) \<longleftrightarrow> fst (is_online redis cfg now room user_id r') = Inr True"
proof -
  have sim': "presence_sim cfg now (presence_history evs) (view r')"
    using redis_available.presence_run_sim [OF assms(1-4)] by simp
  have "fst (is_online redis cfg now room user_id r') = Inr (present cfg now room (presence_history evs) user_id)"
    by (rule redis_available.is_online_runs [OF assms(1) sim', of room user_id]) simp
  moreover have "set us = {(u, display_name (user_names (presence_history evs) u)) | u. present cfg now room (presence_history evs) u}"
    by (rule redis_available.get_online_users_runs [OF assms(1) sim', of room]) (use assms(5) in auto)
  ultimately show ?thesis by force
qed

theorem online_users_agree_witness:
  "''u2'' \<in> set (map fst [(''u2'', ''bob'')]) \<longleftrightarrow>
   fst (is_online mem_redis default_settings 75 ''r'' ''u2''
     (snd (presence_run mem_redis default_settings
        [(10, Online ''r'' ''u1'' ''ann''), (20, Online ''r'' ''u2'' ''bob'')] empty_store))) = Inr True"
  by (rule online_users_agree [OF mem.redis_available_axioms, of empty_store
      "[(10, Online ''r'' ''u1'' ''ann''), (20, Online ''r'' ''u2'' ''bob'')]" 75]) code_simp+

end
