(* ===== verification/Typing.thy ===== *)
theory Typing
  imports Redis
begin

text \<open>
  Typing indicators (\<open>app/services/typing_service.py\<close>): one Redis string per room and user
  that expires by itself after three seconds. The specification keeps, per room and user, when
  typing was last reported and under which name.
\<close>

section \<open>The service\<close>

definition TYPING_TTL_SECONDS :: int where
  "TYPING_TTL_SECONDS = 3"

definition typing_key :: "string \<Rightarrow> string \<Rightarrow> string" where
  "typing_key room_id user_id = ''typing:'' @ room_id @ '':'' @ user_id"

definition set_typing :: "'r redis \<Rightarrow> timestamp \<Rightarrow> string \<Rightarrow> string \<Rightarrow> string \<Rightarrow> ('r, unit) eff" where
  "set_typing redis now room_id user_id username =
     thenE (redis1 redis now (SETEX (typing_key room_id user_id) TYPING_TTL_SECONDS username)) (ret ())"

definition clear_typing :: "'r redis \<Rightarrow> timestamp \<Rightarrow> string \<Rightarrow> string \<Rightarrow> ('r, unit) eff" where
  "clear_typing redis now room_id user_id =
     thenE (redis1 redis now (DEL (typing_key room_id user_id))) (ret ())"

text \<open>\<open>key_str.split(":")[-1]\<close>: what follows the last colon.\<close>

definition last_field :: "string \<Rightarrow> string" where
  "last_field s = rev (takeWhile (\<lambda>c. c \<noteq> CHR '':'') (rev s))"

text \<open>The loop over the keys found; a key without a value, or with an empty one, adds nothing.\<close>

fun typing_entries :: "'r redis \<Rightarrow> timestamp \<Rightarrow> string list \<Rightarrow> ('r, (string \<times> string) list) eff" where
  "typing_entries redis now [] = ret []"
| "typing_entries redis now (key # ks) =
     bindE (bindE (redis1 redis now (GETKEY key)) as_str) (\<lambda>username.
     bindE (typing_entries redis now ks) (\<lambda>rest.
     ret (case username of
            None \<Rightarrow> rest
          | Some name \<Rightarrow> if name = [] then rest else (last_field key, name) # rest)))"

definition get_typing_users :: "'r redis \<Rightarrow> timestamp \<Rightarrow> string \<Rightarrow> ('r, (string \<times> string) list) eff" where
  "get_typing_users redis now room_id =
     bindE (bindE (redis1 redis now (SCAN (''typing:'' @ room_id @ '':*''))) as_strs) (\<lambda>ks.
     typing_entries redis now ks)"

section \<open>The specification\<close>

datatype typing_event =
    Typing string string string
  | Stopped string string

type_synonym typing_spec = "string \<Rightarrow> string \<Rightarrow> (timestamp \<times> string) option"

fun typing_next :: "timestamp \<Rightarrow> typing_event \<Rightarrow> typing_spec \<Rightarrow> typing_spec" where
  "typing_next t (Typing room u name) P = P(room := (P room)(u \<mapsto> (t, name)))"
| "typing_next t (Stopped room u) P = P(room := (P room)(u := None))"

fun typing_call :: "'r redis \<Rightarrow> timestamp \<times> typing_event \<Rightarrow> ('r, unit) eff" where
  "typing_call redis (t, Typing room u name) = set_typing redis t room u name"
| "typing_call redis (t, Stopped room u) = clear_typing redis t room u"

definition typing_run :: "'r redis \<Rightarrow> (timestamp \<times> typing_event) list \<Rightarrow> ('r, unit) eff" where
  "typing_run redis evs = forE evs (typing_call redis)"

definition typing_history :: "(timestamp \<times> typing_event) list \<Rightarrow> typing_spec" where
  "typing_history evs = fold (\<lambda>(t, ev). typing_next t ev) evs (\<lambda>_ _. None)"

text \<open>The name shown for a user at time \<open>t\<close>, if the indicator is still alive.\<close>

definition typing_at :: "timestamp \<Rightarrow> typing_spec \<Rightarrow> string \<Rightarrow> string \<Rightarrow> string option" where
  "typing_at t P room u =
     (case P room u of None \<Rightarrow> None | Some (s, name) \<Rightarrow> if t < s + of_int TYPING_TTL_SECONDS then Some name else None)"

text \<open>Identifiers as the program makes them: UUIDs have no colon and no glob character.\<close>

definition plain_id :: "string \<Rightarrow> bool" where
  "plain_id s \<longleftrightarrow> CHR '':'' \<notin> set s \<and> CHR ''*'' \<notin> set s"

fun plain_event :: "typing_event \<Rightarrow> bool" where
  "plain_event (Typing room u name) \<longleftrightarrow> plain_id room \<and> plain_id u"
| "plain_event (Stopped room u) \<longleftrightarrow> plain_id room \<and> plain_id u"

section \<open>The simulation\<close>

lemma takeWhile_colon: "CHR '':'' \<notin> set a \<Longrightarrow> takeWhile (\<lambda>c. c \<noteq> CHR '':'') (a @ CHR '':'' # b) = a"
  by (induction a) auto

lemma append_colon_inject:
  assumes "CHR '':'' \<notin> set a" "CHR '':'' \<notin> set a'" and "a @ CHR '':'' # b = a' @ CHR '':'' # b'"
  shows "a = a' \<and> b = b'"
proof -
  have "a = a'" using takeWhile_colon [OF assms(1), of b] takeWhile_colon [OF assms(2), of b'] assms(3) by simp
  with assms(3) show ?thesis by simp
qed

lemma typing_key_inject:
  "plain_id room \<Longrightarrow> plain_id room' \<Longrightarrow> typing_key room u = typing_key room' u' \<longleftrightarrow> room = room' \<and> u = u'"
  using append_colon_inject by (auto simp: typing_key_def plain_id_def)

lemma last_field_typing_key: "plain_id u \<Longrightarrow> last_field (typing_key room u) = u"
  unfolding last_field_def typing_key_def plain_id_def using takeWhile_colon [of "rev u" "rev (''typing:'' @ room)"]
  by simp

lemma glob_typing:
  assumes "plain_id room" and "plain_id room'"
  shows "glob (''typing:'' @ room @ '':*'') (typing_key room' u) \<longleftrightarrow> room' = room"
proof -
  have "glob ((''typing:'' @ room @ '':'') @ ''*'') (typing_key room' u)
      \<longleftrightarrow> (\<exists>s. typing_key room' u = (''typing:'' @ room @ '':'') @ s)"
    by (rule glob_prefix) (use assms(1) in \<open>simp add: plain_id_def\<close>)
  also have "\<dots> \<longleftrightarrow> room' = room"
    using append_colon_inject [of room' room] assms by (auto simp: typing_key_def plain_id_def)
  finally show ?thesis by simp
qed

text \<open>The value of a string key at a time not before the store's.\<close>

definition str_at :: "timestamp \<Rightarrow> redis_store \<Rightarrow> string \<Rightarrow> string option" where
  "str_at t S k = (if expired t S k then None else map_of (strs S) k)"

definition typing_sim :: "timestamp \<Rightarrow> typing_spec \<Rightarrow> redis_store \<Rightarrow> bool" where
  "typing_sim T P S \<longleftrightarrow>
     (\<forall>room u t. plain_id room \<longrightarrow> plain_id u \<longrightarrow> T \<le> t \<longrightarrow> str_at t S (typing_key room u) = typing_at t P room u) \<and>
     (\<forall>k\<in>set (all_keys S). \<exists>room u. plain_id room \<and> plain_id u \<and> k = typing_key room u)"

lemma typing_sim_empty: "typing_sim T (\<lambda>_ _. None) empty_store"
  by (simp add: typing_sim_def str_at_def empty_store_def typing_at_def all_keys_def expired_def)

lemma typing_sim_later: "typing_sim T P S \<Longrightarrow> T \<le> T' \<Longrightarrow> typing_sim T' P S"
  by (simp add: typing_sim_def)

lemma expired_mono: "expired t S k \<Longrightarrow> t \<le> t' \<Longrightarrow> expired t' S k"
  by (auto simp: expired_def split: option.splits)

lemma str_at_purge: "t \<le> t' \<Longrightarrow> str_at t' (purge t S) k = str_at t' S k"
  using expired_mono [of t S k t'] by (auto simp: str_at_def strs_purge expired_def deadlines_purge split: option.splits)

lemma all_keys_purge: "set (all_keys (purge t S)) \<subseteq> set (all_keys S)"
  by (auto simp: all_keys_def purge_def)

lemma typing_sim_purge: "typing_sim T P S \<Longrightarrow> T \<le> t \<Longrightarrow> typing_sim t P (purge t S)"
  using all_keys_purge by (fastforce simp: typing_sim_def str_at_purge)

lemma str_at_SETEX:
  "str_at t' (snd (exec1 t (SETEX k secs v) S)) k' =
     (if k' = k then if t' < t + of_int secs then Some v else None else str_at t' S k')"
  by (auto simp: str_at_def expired_def)

lemma str_at_DEL: "str_at t' (snd (exec1 t (DEL k) S)) k' = (if k' = k then None else str_at t' S k')"
  by (auto simp: str_at_def expired_def del_key_def)

lemma typing_at_next:
  "typing_at t' (typing_next t (Typing room u name) P) room' u' =
     (if room' = room \<and> u' = u then if t' < t + of_int TYPING_TTL_SECONDS then Some name else None
      else typing_at t' P room' u')"
  "typing_at t' (typing_next t (Stopped room u) P) room' u' =
     (if room' = room \<and> u' = u then None else typing_at t' P room' u')"
  by (auto simp: typing_at_def)

lemma typing_sim_SETEX:
  assumes "typing_sim T P S" "T \<le> t" "plain_id room" "plain_id u"
  shows "typing_sim t (typing_next t (Typing room u name) P)
     (snd (exec1 t (SETEX (typing_key room u) TYPING_TTL_SECONDS name) (purge t S)))" (is "typing_sim t ?P ?S")
proof -
  have sim: "typing_sim t P (purge t S)" by (rule typing_sim_purge [OF assms(1,2)])
  have "str_at t' ?S (typing_key room' u') = typing_at t' ?P room' u'"
    if "plain_id room'" "plain_id u'" "t \<le> t'" for room' u' t'
    using sim assms(3,4) that
    by (simp only: typing_sim_def str_at_SETEX typing_at_next typing_key_inject)
  moreover have "set (all_keys ?S) \<subseteq> insert (typing_key room u) (set (all_keys (purge t S)))"
    by (auto simp: all_keys_def dom_update)
  ultimately show ?thesis using sim assms(3,4) unfolding typing_sim_def by blast
qed

lemma typing_sim_DEL:
  assumes "typing_sim T P S" "T \<le> t" "plain_id room" "plain_id u"
  shows "typing_sim t (typing_next t (Stopped room u) P)
     (snd (exec1 t (DEL (typing_key room u)) (purge t S)))" (is "typing_sim t ?P ?S")
proof -
  have sim: "typing_sim t P (purge t S)" by (rule typing_sim_purge [OF assms(1,2)])
  have "str_at t' ?S (typing_key room' u') = typing_at t' ?P room' u'"
    if "plain_id room'" "plain_id u'" "t \<le> t'" for room' u' t'
    using sim assms(3,4) that
    by (simp only: typing_sim_def str_at_DEL typing_at_next typing_key_inject)
  moreover have "set (all_keys ?S) \<subseteq> set (all_keys (purge t S))"
    by (auto simp: all_keys_def del_key_def delete_keys)
  ultimately show ?thesis using sim unfolding typing_sim_def by blast
qed

text \<open>Which entries a listing shows for a list of keys.\<close>

definition shown :: "timestamp \<Rightarrow> redis_store \<Rightarrow> string list \<Rightarrow> (string \<times> string) set" where
  "shown t S ks = {(last_field k, name) | k name. k \<in> set ks \<and> str_at t S k = Some name \<and> name \<noteq> []}"

lemma shown_purge: "shown t (purge t S) ks = shown t S ks"
  by (simp add: shown_def str_at_purge)

lemma shown_Cons: "shown t S (k # ks) =
  (case str_at t S k of None \<Rightarrow> {} | Some name \<Rightarrow> if name = [] then {} else {(last_field k, name)}) \<union> shown t S ks"
  by (cases "str_at t S k") (auto simp: shown_def)

lemma str_at_key: "str_at t S k = Some name \<Longrightarrow> k \<in> set (all_keys S)"
  by (force simp: str_at_def all_keys_def split: if_splits dest: map_of_SomeD)

lemma shown_room:
  assumes sim: "typing_sim t P S" and room: "plain_id room"
  shows "shown t S (filter (glob (''typing:'' @ room @ '':*'')) (all_keys S))
    = {(u, name) | u name. plain_id u \<and> typing_at t P room u = Some name \<and> name \<noteq> []}" (is "_ = ?R")
proof (intro equalityI subsetI)
  fix p assume "p \<in> shown t S (filter (glob (''typing:'' @ room @ '':*'')) (all_keys S))"
  then obtain k name where k: "k \<in> set (all_keys S)" "glob (''typing:'' @ room @ '':*'') k"
    "str_at t S k = Some name" "name \<noteq> []" "p = (last_field k, name)"
    unfolding shown_def set_filter by blast
  then obtain room' u where "plain_id room'" "plain_id u" "k = typing_key room' u"
    using sim by (auto simp: typing_sim_def)
  moreover from this k(2) room have "room' = room" by (simp only: glob_typing)
  ultimately show "p \<in> ?R" using k sim by (auto simp: typing_sim_def last_field_typing_key)
next
  fix p assume "p \<in> ?R"
  then obtain u name where u: "p = (u, name)" "plain_id u" "typing_at t P room u = Some name" "name \<noteq> []" by blast
  then have at: "str_at t S (typing_key room u) = Some name" using sim room by (simp add: typing_sim_def)
  moreover have "glob (''typing:'' @ room @ '':*'') (typing_key room u)" using glob_typing [OF room room] by blast
  ultimately show "p \<in> shown t S (filter (glob (''typing:'' @ room @ '':*'')) (all_keys S))"
    unfolding shown_def set_filter
    using u str_at_key [OF at] last_field_typing_key [OF u(2), of room] by (intro CollectI exI [of _ "typing_key room u"] exI [of _ name]) simp
qed

context redis_available begin

lemma typing_entries_runs:
  obtains es r' where "typing_entries redis t ks r = (Inr es, r')" and "set es = shown t (view r) ks"
proof (induction ks arbitrary: r thesis)
  case Nil
  then show ?case by (simp add: shown_def)
next
  case (Cons k ks)
  obtain r1 where r1: "redis1 redis t (GETKEY k) r = (Inr (RStr (str_at t (view r) k)), r1)"
    and v1: "view r1 = purge t (view r)"
    using redis1_exec [of t "GETKEY k" r] by (auto simp: strs_purge str_at_def)
  obtain es r2 where "typing_entries redis t ks r1 = (Inr es, r2)" "set es = shown t (view r) ks"
    using Cons.IH [of r1] v1 by (metis shown_purge)
  with r1 show ?case
    by (intro Cons.prems [of "case str_at t (view r) k of None \<Rightarrow> es
            | Some name \<Rightarrow> if name = [] then es else (last_field k, name) # es" r2])
      (simp_all add: bindE_def shown_Cons split: option.split)
qed

lemma typing_call_runs:
  assumes "typing_sim T P (view r)" "T \<le> t" "plain_event ev"
  obtains r' where "typing_call redis (t, ev) r = (Inr (), r')" and "typing_sim t (typing_next t ev P) (view r')"
proof (cases ev)
  case (Typing room u name)
  obtain x r' where "redis1 redis t (SETEX (typing_key room u) TYPING_TTL_SECONDS name) r = (Inr x, r')"
    "view r' = snd (exec1 t (SETEX (typing_key room u) TYPING_TTL_SECONDS name) (purge t (view r)))"
    using redis1_exec by blast
  then show thesis
    using Typing assms typing_sim_SETEX [OF assms(1,2), of room u name]
    by (intro that [of r']) (simp_all add: set_typing_def thenE_def bindE_def)
next
  case (Stopped room u)
  obtain x r' where "redis1 redis t (DEL (typing_key room u)) r = (Inr x, r')"
    "view r' = snd (exec1 t (DEL (typing_key room u)) (purge t (view r)))"
    using redis1_exec by blast
  then show thesis
    using Stopped assms typing_sim_DEL [OF assms(1,2), of room u]
    by (intro that [of r']) (simp_all add: clear_typing_def thenE_def bindE_def)
qed

lemma typing_run_runs:
  assumes "typing_sim T P (view r)" "sorted (T # map fst evs @ [now])" "\<forall>e\<in>set evs. plain_event (snd e)"
  obtains r' where "typing_run redis evs r = (Inr (), r')"
    and "typing_sim now (fold (\<lambda>(t, ev). typing_next t ev) evs P) (view r')"
  using assms
proof (induction evs arbitrary: T P r thesis)
  case Nil
  then show ?case by (auto simp: typing_run_def intro: typing_sim_later)
next
  case (Cons e evs)
  obtain t ev where e: "e = (t, ev)" by (cases e)
  then have "T \<le> t" "plain_event ev" using Cons.prems by auto
  then obtain r1 where r1: "typing_call redis (t, ev) r = (Inr (), r1)" "typing_sim t (typing_next t ev P) (view r1)"
    using typing_call_runs [OF Cons.prems(2)] by blast
  have "sorted (t # map fst evs @ [now])" "\<forall>e\<in>set evs. plain_event (snd e)"
    using Cons.prems(3,4) e by auto
  then obtain r2 where "typing_run redis evs r1 = (Inr (), r2)"
    "typing_sim now (fold (\<lambda>(t, ev). typing_next t ev) evs (typing_next t ev P)) (view r2)"
    using Cons.IH [OF _ r1(2)] by blast
  then show ?case
    using r1(1) e by (intro Cons.prems(1) [of r2]) (simp_all add: typing_run_def thenE_def bindE_def)
qed

lemma get_typing_users_runs:
  assumes sim: "typing_sim t P (view r)" and room: "plain_id room"
  obtains us r' where "get_typing_users redis t room r = (Inr us, r')"
    and "set us = {(u, name) | u name. plain_id u \<and> typing_at t P room u = Some name \<and> name \<noteq> []}"
proof -
  let ?S = "purge t (view r)"
  let ?ks = "filter (glob (''typing:'' @ room @ '':*'')) (all_keys ?S)"
  have sim': "typing_sim t P ?S" by (rule typing_sim_purge [OF sim]) simp
  obtain r1 where r1: "redis1 redis t (SCAN (''typing:'' @ room @ '':*'')) r = (Inr (RStrs ?ks), r1)" "view r1 = ?S"
    using redis1_exec [of t "SCAN (''typing:'' @ room @ '':*'')" r] by (auto simp del: append.simps)
  obtain us r2 where us: "typing_entries redis t ?ks r1 = (Inr us, r2)" "set us = shown t ?S ?ks"
    using typing_entries_runs [of t ?ks r1] r1(2) by metis
  have "get_typing_users redis t room r = (Inr us, r2)"
    using r1 us by (simp add: get_typing_users_def bindE_def)
  moreover have "shown t ?S ?ks = {(u, name) | u name. plain_id u \<and> typing_at t P room u = Some name \<and> name \<noteq> []}"
    by (rule shown_room [OF sim' room])
  ultimately show thesis using us(2) by (intro that) simp_all
qed

end

section \<open>Properties\<close>



end
