(* ===== verification/Broker.thy ===== *)
theory Broker
  imports Redis WsSchema Config Connections
begin

text \<open>
  The message brokers: the interface of \<open>app/messaging/base.py\<close>, the Redis Pub/Sub broker of
  \<open>app/messaging/redis_broker.py\<close> and the Kafka stub of \<open>app/messaging/kafka_broker.py\<close>.

  \<^item> The broker object is a \<open>redis_broker\<close>; \<open>rb_redis\<close> says whether the client exists and
    \<open>rb_pubsub\<close> is the current Pub/Sub connection. Callbacks act on a state \<open>'m\<close>, the rest of
    the instance.
  \<^item> The Pub/Sub connection is redis-py's: its operations are the fields of a \<open>pubsub_api\<close>, and
    the locale \<open>pubsub\<close> says what they do to the set of subscribed channels.
  \<^item> The listener task is a state machine on what \<open>listen()\<close> yields or raises.
\<close>

section \<open>The interface\<close>

record ('s, 'c) message_broker =
  mb_connect :: "('s, unit) eff"
  mb_disconnect :: "('s, unit) eff"
  mb_publish :: "string \<Rightarrow> json \<Rightarrow> ('s, unit) eff"
  mb_subscribe :: "string \<Rightarrow> 'c \<Rightarrow> ('s, unit) eff"
  mb_unsubscribe :: "string \<Rightarrow> ('s, unit) eff"
  mb_publish_dead_letter :: "string \<Rightarrow> json \<Rightarrow> string \<Rightarrow> ('s, unit) eff"

section \<open>Pub/Sub connections\<close>

text \<open>\<open>ps_unsubscribe None\<close> leaves every channel.\<close>

record 'p pubsub_api =
  ps_new :: 'p
  ps_subscribe :: "string \<Rightarrow> ('p, unit) eff"
  ps_unsubscribe :: "string option \<Rightarrow> ('p, unit) eff"
  ps_close :: "('p, unit) eff"

locale pubsub =
  fixes api :: "'p pubsub_api" and channels :: "'p \<Rightarrow> string set"
  assumes channels_new: "channels (ps_new api) = {}"
    and channels_subscribe: "ps_subscribe api ch p = (Inr (), p') \<Longrightarrow> channels p' = insert ch (channels p)"
    and channels_subscribe_fail: "ps_subscribe api ch p = (Inl e, p') \<Longrightarrow> channels p' \<subseteq> insert ch (channels p)"
    and channels_unsubscribe: "ps_unsubscribe api (Some ch) p = (Inr (), p') \<Longrightarrow> channels p' = channels p - {ch}"
    and channels_unsubscribe_fail: "ps_unsubscribe api (Some ch) p = (Inl e, p') \<Longrightarrow> channels p' \<subseteq> channels p"

text \<open>A connection that keeps its channels in a list and never fails.\<close>

definition list_pubsub :: "string list pubsub_api" where
  "list_pubsub =
     \<lparr>ps_new = [],
      ps_subscribe = (\<lambda>ch p. (Inr (), set_add ch p)),
      ps_unsubscribe = (\<lambda>ch p. (Inr (), case ch of None \<Rightarrow> [] | Some ch \<Rightarrow> set_discard ch p)),
      ps_close = (\<lambda>p. (Inr (), p))\<rparr>"

interpretation list_pubsub: pubsub list_pubsub set
  by unfold_locales (auto simp: list_pubsub_def)

section \<open>The Redis broker\<close>

type_synonym 'm callback = "string \<Rightarrow> json \<Rightarrow> ('m, unit) eff"

record ('p, 'm) redis_broker =
  rb_redis :: bool
  rb_pubsub :: "'p option"
  rb_callbacks :: "'m callback dict"
  rb_listener :: "task_status option"
  rb_running :: bool
  rb_reconnect_delay :: int

definition max_reconnect_delay :: int where
  "max_reconnect_delay = 30"

definition redis_broker_init :: "('p, 'm) redis_broker" where
  "redis_broker_init = \<lparr>rb_redis = False, rb_pubsub = None, rb_callbacks = [], rb_listener = None,
     rb_running = False, rb_reconnect_delay = 1\<rparr>"

text \<open>A call on the Pub/Sub connection held by the broker.\<close>

definition on_pubsub :: "('p, unit) eff \<Rightarrow> (('p, 'm) redis_broker, unit) eff" where
  "on_pubsub m b =
     (case rb_pubsub b of
        None \<Rightarrow> (Inl (AttributeError ''pubsub''), b)
      | Some p \<Rightarrow> (case m p of (res, p') \<Rightarrow> (res, b\<lparr>rb_pubsub := Some p'\<rparr>)))"

definition rb_connect :: "'p pubsub_api \<Rightarrow> (('p, 'm) redis_broker, unit) eff" where
  "rb_connect api b =
     thenE (on_pubsub (ps_subscribe api ''system:dummy''))
       (\<lambda>b. (Inr (), b\<lparr>rb_running := True, rb_listener := Some Running, rb_reconnect_delay := 1\<rparr>))
       (b\<lparr>rb_redis := True, rb_pubsub := Some (ps_new api)\<rparr>)"

text \<open>Cancelling the listener and waiting for it ends it; closing the client touches no state here.\<close>

definition rb_disconnect :: "'p pubsub_api \<Rightarrow> (('p, 'm) redis_broker, unit) eff" where
  "rb_disconnect api b =
     (let b1 = b\<lparr>rb_running := False, rb_listener := map_option cancel_task (rb_listener b)\<rparr> in
      if rb_pubsub b = None then (Inr (), b1)
      else thenE (on_pubsub (ps_unsubscribe api None)) (on_pubsub (ps_close api)) b1)"

definition rb_subscribe :: "'p pubsub_api \<Rightarrow> string \<Rightarrow> 'm callback \<Rightarrow> (('p, 'm) redis_broker, unit) eff" where
  "rb_subscribe api channel cb b =
     (if rb_pubsub b = None then (Inr (), b)
      else on_pubsub (ps_subscribe api channel) (b\<lparr>rb_callbacks := dict_set channel cb (rb_callbacks b)\<rparr>))"

definition rb_unsubscribe :: "'p pubsub_api \<Rightarrow> string \<Rightarrow> (('p, 'm) redis_broker, unit) eff" where
  "rb_unsubscribe api channel b =
     (if rb_pubsub b = None then (Inr (), b)
      else on_pubsub (ps_unsubscribe api (Some channel)) (b\<lparr>rb_callbacks := dict_pop channel (rb_callbacks b)\<rparr>))"

subsection \<open>Publishing\<close>

text \<open>\<open>float_str\<close> formats a float and \<open>exn_str\<close> is \<open>str(e)\<close> of an exception.\<close>

definition dead_letter :: "(timestamp \<Rightarrow> string) \<Rightarrow> timestamp \<Rightarrow> string \<Rightarrow> json \<Rightarrow> string \<Rightarrow> json" where
  "dead_letter float_str now original_channel message error =
     JObj [(''original_channel'', JStr original_channel), (''message'', message),
           (''error'', JStr error), (''timestamp'', JFloat (float_str now))]"

definition publish_dead_letter ::
  "'r redis \<Rightarrow> (timestamp \<Rightarrow> string) \<Rightarrow> timestamp \<Rightarrow> ('p, 'm) redis_broker \<Rightarrow> string \<Rightarrow> json \<Rightarrow> string \<Rightarrow> ('r, unit) eff" where
  "publish_dead_letter redis float_str now b original_channel message error =
     (if \<not> rb_redis b then ret ()
      else catchE
        (thenE (redis1 redis now (LPUSH ''dead_letter_queue''
                  (json_dumps (dead_letter float_str now original_channel message error))))
         (thenE (redis1 redis now (LTRIM ''dead_letter_queue'' 0 9999)) (ret ())))
        (\<lambda>e. ret ()))"

definition publish_retries :: nat where
  "publish_retries = 3"

text \<open>
  The loop \<open>for attempt in range(retries)\<close> with \<open>left\<close> iterations to go; the first success
  returns, a failure waits half a second per attempt made, the last one writes a dead letter.
\<close>

fun publish_loop ::
  "'r redis \<Rightarrow> (timestamp \<Rightarrow> string) \<Rightarrow> (exn \<Rightarrow> string) \<Rightarrow> ('p, 'm) redis_broker \<Rightarrow> string \<Rightarrow> json \<Rightarrow>
   nat \<Rightarrow> nat \<Rightarrow> timestamp \<Rightarrow> ('r, unit) eff" where
  "publish_loop redis float_str exn_str b channel message attempt 0 now = ret ()"
| "publish_loop redis float_str exn_str b channel message attempt (Suc left) now = (\<lambda>r.
     case redis1 redis now (PUBLISH channel (json_dumps message)) r of
       (Inr _, r1) \<Rightarrow> (Inr (), r1)
     | (Inl e, r1) \<Rightarrow>
         if \<not> is_Exception e then (Inl e, r1)
         else if attempt + 1 < publish_retries then
           publish_loop redis float_str exn_str b channel message (Suc attempt) left
             (now + of_nat (attempt + 1) / 2) r1
         else
           thenE (publish_dead_letter redis float_str now b channel message (exn_str e))
             (publish_loop redis float_str exn_str b channel message (Suc attempt) left now) r1)"

definition rb_publish ::
  "'r redis \<Rightarrow> (timestamp \<Rightarrow> string) \<Rightarrow> (exn \<Rightarrow> string) \<Rightarrow> timestamp \<Rightarrow> ('p, 'm) redis_broker \<Rightarrow> string \<Rightarrow> json \<Rightarrow> ('r, unit) eff" where
  "rb_publish redis float_str exn_str now b channel message =
     (if \<not> rb_redis b then ret ()
      else publish_loop redis float_str exn_str b channel message 0 publish_retries now)"

subsection \<open>Listening\<close>

text \<open>
  What happens to the task while it iterates \<open>listen()\<close>: a Pub/Sub message arrives, the
  generator ends because the connection has no subscriptions, or it raises.
\<close>

datatype listen_event =
    Incoming string string wire
  | Exhausted
  | ListenError exn

text \<open>A message is handed to the callback of its channel; its exceptions are logged.\<close>

definition dispatch :: "('p, 'm) redis_broker \<Rightarrow> string \<Rightarrow> string \<Rightarrow> wire \<Rightarrow> ('m, unit) eff" where
  "dispatch b mtype channel payload =
     (if mtype = ''message'' then
        (case map_of (rb_callbacks b) channel of
           None \<Rightarrow> ret ()
         | Some cb \<Rightarrow> catchE (bindE (liftX (json_loads payload)) (\<lambda>data. cb channel data)) (\<lambda>e. ret ()))
      else ret ())"

definition rb_reconnect :: "'p pubsub_api \<Rightarrow> (('p, 'm) redis_broker, unit) eff" where
  "rb_reconnect api b =
     thenE (forE (keys (rb_callbacks b)) (\<lambda>channel. on_pubsub (ps_subscribe api channel)))
       (\<lambda>b. (Inr (), b\<lparr>rb_reconnect_delay := 1\<rparr>))
       (b\<lparr>rb_redis := True, rb_pubsub := Some (ps_new api)\<rparr>)"

text \<open>\<open>except Exception\<close> of the listener: wait, double the delay up to the maximum, try to reconnect.\<close>

definition listen_recover :: "'p pubsub_api \<Rightarrow> ('p, 'm) redis_broker \<Rightarrow> ('p, 'm) redis_broker" where
  "listen_recover api b =
     snd (catchE (rb_reconnect api) (\<lambda>e. ret ())
       (b\<lparr>rb_reconnect_delay := min (rb_reconnect_delay b * 2) max_reconnect_delay\<rparr>))"

text \<open>One event of the task. A task that is not running any more ignores events.\<close>

definition listen_step ::
  "'p pubsub_api \<Rightarrow> listen_event \<Rightarrow> ('p, 'm) redis_broker \<times> 'm \<Rightarrow> ('p, 'm) redis_broker \<times> 'm" where
  "listen_step api ev s =
     (case s of (b, st) \<Rightarrow>
        if rb_listener b \<noteq> Some Running then (b, st)
        else if \<not> rb_running b then (b\<lparr>rb_listener := Some Finished\<rparr>, st)
        else (case ev of
                Incoming mtype channel payload \<Rightarrow>
                  (case dispatch b mtype channel payload st of
                     (Inr _, st') \<Rightarrow> (b, st')
                   | (Inl e, st') \<Rightarrow> (b\<lparr>rb_listener := Some Finished\<rparr>, st'))
              | Exhausted \<Rightarrow> (b, st)
              | ListenError e \<Rightarrow>
                  if is_Exception e then (listen_recover api b, st)
                  else (b\<lparr>rb_listener := Some Finished\<rparr>, st)))"

definition listen_run ::
  "'p pubsub_api \<Rightarrow> listen_event list \<Rightarrow> ('p, 'm) redis_broker \<times> 'm \<Rightarrow> ('p, 'm) redis_broker \<times> 'm" where
  "listen_run api evs = fold (listen_step api) evs"

section \<open>The Kafka stub\<close>

record 'c kafka_broker =
  kb_bootstrap_servers :: string
  kb_callbacks :: "'c dict"

definition kb_connect :: "('c kafka_broker, unit) eff" where
  "kb_connect = raise (NotImplementedError
     ''Kafka broker is not yet implemented. Use BROKER_TYPE=redis (default) or implement with aiokafka.'')"

definition kb_disconnect :: "('c kafka_broker, unit) eff" where
  "kb_disconnect = ret ()"

definition kb_publish :: "string \<Rightarrow> json \<Rightarrow> ('c kafka_broker, unit) eff" where
  "kb_publish channel message = raise (NotImplementedError ''Kafka publish not implemented'')"

definition kb_subscribe :: "string \<Rightarrow> 'c \<Rightarrow> ('c kafka_broker, unit) eff" where
  "kb_subscribe channel cb k =
     raise (NotImplementedError ''Kafka subscribe not implemented'') (k\<lparr>kb_callbacks := dict_set channel cb (kb_callbacks k)\<rparr>)"

definition kb_unsubscribe :: "string \<Rightarrow> ('c kafka_broker, unit) eff" where
  "kb_unsubscribe channel k = ret () (k\<lparr>kb_callbacks := dict_pop channel (kb_callbacks k)\<rparr>)"

definition kb_publish_dead_letter :: "string \<Rightarrow> json \<Rightarrow> string \<Rightarrow> ('c kafka_broker, unit) eff" where
  "kb_publish_dead_letter original_channel message error = ret ()"

definition KafkaBroker :: "('c kafka_broker, 'c) message_broker" where
  "KafkaBroker = \<lparr>mb_connect = kb_connect, mb_disconnect = kb_disconnect, mb_publish = kb_publish,
     mb_subscribe = kb_subscribe, mb_unsubscribe = kb_unsubscribe,
     mb_publish_dead_letter = kb_publish_dead_letter\<rparr>"

text \<open>The Redis broker as an implementation of the interface, with the server it talks to.\<close>

definition RedisBroker ::
  "'p pubsub_api \<Rightarrow> 'r redis \<Rightarrow> (timestamp \<Rightarrow> string) \<Rightarrow> (exn \<Rightarrow> string) \<Rightarrow> timestamp \<Rightarrow>
   (('p, 'm) redis_broker \<times> 'r, 'm callback) message_broker" where
  "RedisBroker api redis float_str exn_str now =
     \<lparr>mb_connect = onE fst apfst (rb_connect api),
      mb_disconnect = onE fst apfst (rb_disconnect api),
      mb_publish = (\<lambda>ch msg s. onE snd apsnd (rb_publish redis float_str exn_str now (fst s) ch msg) s),
      mb_subscribe = (\<lambda>ch cb. onE fst apfst (rb_subscribe api ch cb)),
      mb_unsubscribe = (\<lambda>ch. onE fst apfst (rb_unsubscribe api ch)),
      mb_publish_dead_letter = (\<lambda>ch msg err s. onE snd apsnd (publish_dead_letter redis float_str now (fst s) ch msg err) s)\<rparr>"

end
