(* ===== verification/Broker_Props.thy ===== *)
theory Broker_Props
  imports Broker
begin

text \<open>
  Properties of the brokers: publishing is at most once and never raises, the dead-letter queue
  keeps the newest 10000 letters, the listener survives failing callbacks, backs off within
  bounds and resubscribes every channel, and the subscriptions of a running broker are its
  callbacks.
\<close>

section \<open>Publishing\<close>

text \<open>Servers on which a call that raises an error has done nothing.\<close>

locale redis_atomic = redis_server +
  assumes failed: "redis t cs r = (Inl e, r') \<Longrightarrow> is_Exception e \<and> view r' = view r"

interpretation mem: redis_atomic mem_redis id
  by unfold_locales (auto simp: mem_redis_def split: prod.splits)

interpretation down: redis_atomic down_redis id
  by unfold_locales (auto simp: down_redis_def is_Exception_def)

text \<open>A server that refuses the next \<open>n\<close> calls and then recovers.\<close>

definition flaky_redis :: "(nat \<times> redis_store) redis" where
  "flaky_redis t cs s =
     (case s of (0, S) \<Rightarrow> (case exec t cs S of (xs, S') \<Rightarrow> (Inr xs, (0, S')))
      | (Suc n, S) \<Rightarrow> (Inl (RedisError ''Connection reset''), (n, S)))"

interpretation flaky: redis_atomic flaky_redis snd
  by unfold_locales (auto simp: flaky_redis_def is_Exception_def split: prod.splits nat.splits)

abbreviation dlq :: string where
  "dlq \<equiv> ''dead_letter_queue''"

text \<open>What a call to publish may do to the messages sent and to the dead letters.\<close>

definition publish_outcome :: "string \<times> wire \<Rightarrow> redis_store \<Rightarrow> redis_store \<Rightarrow> bool" where
  "publish_outcome msg S S' \<longleftrightarrow>
     published S' = published S @ [msg] \<and> list_of S' dlq = list_of S dlq \<or>
     published S' = published S \<and>
       (list_of S' dlq = list_of S dlq
        \<or> (\<exists>letter. list_of S' dlq = letter # list_of S dlq \<or> list_of S' dlq = take 10000 (letter # list_of S dlq)))"

definition dlq_undying :: "redis_store \<Rightarrow> bool" where
  "dlq_undying S \<longleftrightarrow> map_of (deadlines S) dlq = None"

lemma published_purge [simp]: "published (purge t S) = published S"
  by (simp add: purge_def)

lemma dlq_purge [simp]:
  "dlq_undying S \<Longrightarrow> list_of (purge t S) dlq = list_of S dlq"
  "dlq_undying S \<Longrightarrow> dlq_undying (purge t S)"
  by (simp_all add: dlq_undying_def list_of_purge deadlines_purge)

lemma exec1_PUBLISH:
  "published (snd (exec1 t (PUBLISH ch v) S)) = published S @ [(ch, v)]"
  "list_of (snd (exec1 t (PUBLISH ch v) S)) k = list_of S k"
  by (simp_all add: list_of_def)

lemma exec1_LPUSH:
  "published (snd (exec1 t (LPUSH k v) S)) = published S"
  "list_of (snd (exec1 t (LPUSH k v) S)) k = v # list_of S k"
  "dlq_undying (snd (exec1 t (LPUSH k v) S)) = dlq_undying S"
  by (simp_all add: list_of_def dlq_undying_def)

lemma exec1_LTRIM:
  "published (snd (exec1 t (LTRIM k 0 9999) S)) = published S"
  "list_of (snd (exec1 t (LTRIM k 0 9999) S)) k = take 10000 (list_of S k)"
  "dlq_undying (snd (exec1 t (LTRIM k 0 9999) S)) = dlq_undying S"
  by (auto simp: list_of_def dlq_undying_def ltrim_def Let_def split: option.split)

context redis_atomic begin

lemma redis1_cases:
  obtains x r' where "redis1 redis t c r = (Inr x, r')" "view r' = snd (exec1 t c (purge t (view r)))"
  | e r' where "redis1 redis t c r = (Inl e, r')" "is_Exception e" "view r' = view r"
proof (cases "redis t [c] r")
  case (Pair res r')
  show thesis
  proof (cases res)
    case (Inl e)
    with Pair failed show thesis by (intro that(2) [of e r']) (auto simp: redis1_def bindE_def)
  next
    case (Inr xs)
    with Pair executes have "exec t [c] (view r) = (xs, view r')" by simp
    with Pair Inr show thesis
      by (intro that(1) [of "hd xs" r']) (auto simp: redis1_def bindE_def exec_def reply_at_def split: prod.splits)
  qed
qed

lemma publish_dead_letter_outcome:
  assumes "dlq_undying (view r)"
  obtains r' where "publish_dead_letter redis fs now b ch msg err r = (Inr (), r')"
    and "publish_outcome m (view r) (view r')" "published (view r') = published (view r)"
proof (cases "rb_redis b")
  case False
  then show thesis by (intro that [of r]) (simp_all add: publish_dead_letter_def publish_outcome_def)
next
  case True
  let ?l = "json_dumps (dead_letter fs now ch msg err)"
  show thesis
  proof (cases rule: redis1_cases [of now "LPUSH dlq ?l" r])
    case (1 x r1)
    with assms have r1: "published (view r1) = published (view r)" "list_of (view r1) dlq = ?l # list_of (view r) dlq"
      "dlq_undying (view r1)"
      by (simp_all only: exec1_LPUSH dlq_purge published_purge)
    show thesis
    proof (cases rule: redis1_cases [of now "LTRIM dlq 0 9999" r1])
      case (1 y r2)
      with r1 have "published (view r2) = published (view r)"
        "list_of (view r2) dlq = take 10000 (?l # list_of (view r) dlq)"
        by (simp_all only: exec1_LTRIM dlq_purge published_purge)
      with True 1(1) \<open>redis1 redis now (LPUSH dlq ?l) r = (Inr x, r1)\<close> show thesis
        by (intro that [of r2]) (auto simp: publish_dead_letter_def publish_outcome_def catchE_def thenE_def bindE_def)
    next
      case (2 e r2)
      with r1 True \<open>redis1 redis now (LPUSH dlq ?l) r = (Inr x, r1)\<close> show thesis
        by (intro that [of r2]) (auto simp: publish_dead_letter_def publish_outcome_def catchE_def thenE_def bindE_def)
    qed
  next
    case (2 e r1)
    with True show thesis
      by (intro that [of r1]) (auto simp: publish_dead_letter_def publish_outcome_def catchE_def thenE_def bindE_def)
  qed
qed

lemma publish_loop_outcome:
  assumes "dlq_undying (view r)" and "attempt + left = publish_retries"
  shows "\<exists>r'. publish_loop redis fs es b ch msg attempt left now r = (Inr (), r')
    \<and> publish_outcome (ch, json_dumps msg) (view r) (view r')"
  using assms
proof (induction left arbitrary: attempt now r)
  case 0
  then show ?case by (simp add: publish_outcome_def)
next
  case (Suc left)
  show ?case
  proof (cases rule: redis1_cases [of now "PUBLISH ch (json_dumps msg)" r])
    case (1 x r1)
    with Suc.prems(1) have "publish_outcome (ch, json_dumps msg) (view r) (view r1)"
      by (simp only: publish_outcome_def exec1_PUBLISH dlq_purge published_purge simp_thms)
    with 1 show ?thesis by simp
  next
    case (2 e r1)
    show ?thesis
    proof (cases "attempt + 1 < publish_retries")
      case True
      then show ?thesis using 2 Suc.IH [of r1 "Suc attempt"] Suc.prems by simp
    next
      case False
      with Suc.prems have "left = 0" by simp
      obtain r2 where "publish_dead_letter redis fs now b ch msg (es e) r1 = (Inr (), r2)"
        "publish_outcome (ch, json_dumps msg) (view r1) (view r2)"
        by (rule publish_dead_letter_outcome [of r1]) (use 2 Suc.prems in auto)
      with 2 False \<open>left = 0\<close> show ?thesis by (simp add: thenE_def bindE_def)
    qed
  qed
qed

end



section \<open>Dead letters\<close>

text \<open>A sequence of dead letters: time, channel, message, error.\<close>

type_synonym letter = "timestamp \<times> string \<times> json \<times> string"

definition send_letters ::
  "'r redis \<Rightarrow> (timestamp \<Rightarrow> string) \<Rightarrow> ('p, 'm) redis_broker \<Rightarrow> letter list \<Rightarrow> ('r, unit) eff" where
  "send_letters redis float_str b ls =
     forE ls (\<lambda>(now, ch, msg, err). publish_dead_letter redis float_str now b ch msg err)"

definition letter_text :: "(timestamp \<Rightarrow> string) \<Rightarrow> letter \<Rightarrow> wire" where
  "letter_text float_str l = (case l of (now, ch, msg, err) \<Rightarrow> json_dumps (dead_letter float_str now ch msg err))"

lemma take_append_take: "take n (xs @ take n ys) = take n (xs @ ys)"
  by (simp add: min_def)

context redis_available begin

lemma publish_dead_letter_runs:
  assumes "rb_redis b" "dlq_undying (view r)"
  obtains r' where "publish_dead_letter redis fs now b ch msg err r = (Inr (), r')" "dlq_undying (view r')"
    "list_of (view r') dlq = take 10000 (letter_text fs (now, ch, msg, err) # list_of (view r) dlq)"
proof -
  let ?l = "json_dumps (dead_letter fs now ch msg err)"
  obtain x r1 where r1: "redis1 redis now (LPUSH dlq ?l) r = (Inr x, r1)"
    "view r1 = snd (exec1 now (LPUSH dlq ?l) (purge now (view r)))" using redis1_exec by blast
  obtain y r2 where r2: "redis1 redis now (LTRIM dlq 0 9999) r1 = (Inr y, r2)"
    "view r2 = snd (exec1 now (LTRIM dlq 0 9999) (purge now (view r1)))" using redis1_exec by blast
  have "dlq_undying (view r1)" and l1: "list_of (view r1) dlq = ?l # list_of (view r) dlq"
    unfolding r1(2) using assms(2) by (simp_all only: exec1_LPUSH dlq_purge)
  then have "dlq_undying (view r2)" "list_of (view r2) dlq = take 10000 (?l # list_of (view r) dlq)"
    unfolding r2(2) by (simp_all only: exec1_LTRIM dlq_purge)
  with r1(1) r2(1) assms(1) show thesis
    by (intro that [of r2]) (simp_all add: publish_dead_letter_def letter_text_def catchE_def thenE_def bindE_def)
qed

lemma send_letters_runs:
  assumes "rb_redis b" "dlq_undying (view r)" "length (list_of (view r) dlq) \<le> 10000"
  shows "\<exists>r'. send_letters redis fs b ls r = (Inr (), r') \<and>
    list_of (view r') dlq = take 10000 (rev (map (letter_text fs) ls) @ list_of (view r) dlq)"
  using assms
proof (induction ls arbitrary: r)
  case Nil
  then show ?case by (simp add: send_letters_def)
next
  case (Cons l ls)
  obtain now ch msg err where l: "l = (now, ch, msg, err)" by (cases l)
  obtain r1 where r1: "publish_dead_letter redis fs now b ch msg err r = (Inr (), r1)" "dlq_undying (view r1)"
    "list_of (view r1) dlq = take 10000 (letter_text fs l # list_of (view r) dlq)"
    using publish_dead_letter_runs [OF Cons.prems(1,2)] l by blast
  obtain r2 where "send_letters redis fs b ls r1 = (Inr (), r2)"
    "list_of (view r2) dlq = take 10000 (rev (map (letter_text fs) ls) @ list_of (view r1) dlq)"
    using Cons.IH [of r1] Cons.prems(1) r1(2,3) by auto
  moreover from this(2) r1(3)
  have "list_of (view r2) dlq = take 10000 (rev (map (letter_text fs) (l # ls)) @ list_of (view r) dlq)"
    using take_append_take [of 10000 "rev (map (letter_text fs) ls)" "letter_text fs l # list_of (view r) dlq"]
    by (simp only: rev.simps list.map append_assoc append.simps)
  ultimately show ?case using r1(1) l by (simp add: send_letters_def thenE_def bindE_def)
qed

end

text \<open>
  However many messages fail, the dead-letter queue holds the newest 10000 letters, the
  last one first, and never more.
\<close>

theorem dead_letters_newest:
  assumes "redis_available redis view" and "rb_redis b"
    and "map_of (deadlines (view r)) ''dead_letter_queue'' = None" and "list_of (view r) ''dead_letter_queue'' = []"
  shows "\<exists>r'. send_letters redis float_str b ls r = (Inr (), r') \<and>
    list_of (view r') ''dead_letter_queue'' = take 10000 (rev (map (letter_text float_str) ls))"
  using redis_available.send_letters_runs [OF assms(1,2), of r float_str ls] assms(3,4) by (simp add: dlq_undying_def)

theorem dead_letters_newest_witness:
  "\<exists>r'. send_letters mem_redis (\<lambda>_. ''0.0'') (redis_broker_init\<lparr>rb_redis := True\<rparr> :: (string list, unit) redis_broker)
      [(1, ''room:a'', JInt 1, ''down''), (2, ''room:a'', JInt 2, ''down'')] empty_store = (Inr (), r') \<and>
    list_of r' ''dead_letter_queue'' = map (letter_text (\<lambda>_. ''0.0''))
      [(2, ''room:a'', JInt 2, ''down''), (1, ''room:a'', JInt 1, ''down'')]"
  using dead_letters_newest [OF mem.redis_available_axioms,
      of "redis_broker_init\<lparr>rb_redis := True\<rparr> :: (string list, unit) redis_broker" empty_store "\<lambda>_. ''0.0''"
        "[(1, ''room:a'', JInt 1, ''down''), (2, ''room:a'', JInt 2, ''down'')]"]
  by (simp add: empty_store_def list_of_def)

section \<open>The listener\<close>

definition listening :: "('p, 'm) redis_broker \<Rightarrow> bool" where
  "listening b \<longleftrightarrow> rb_running b \<and> rb_listener b = Some Running"

text \<open>A callback is well behaved when it is not cancelled from within; it may raise anything else.\<close>

definition callbacks_contained :: "('p, 'm) redis_broker \<Rightarrow> bool" where
  "callbacks_contained b \<longleftrightarrow> (\<forall>cb\<in>ran (map_of (rb_callbacks b)). \<forall>ch j st. fst (cb ch j st) \<noteq> Inl CancelledError)"

lemma dispatch_returns:
  assumes "callbacks_contained b" shows "fst (dispatch b mtype ch payload st) = Inr ()"
proof (cases "mtype = ''message'' \<and> map_of (rb_callbacks b) ch \<noteq> None")
  case True
  then obtain cb where cb: "map_of (rb_callbacks b) ch = Some cb" by auto
  with assms have no: "fst (cb ch j s) \<noteq> Inl CancelledError" for j s
    by (auto simp: callbacks_contained_def ran_def)
  have "fst (catchE (bindE (liftX (json_loads payload)) (cb ch)) (\<lambda>e. ret ()) st) = Inr ()"
  proof (cases payload)
    case (JsonText j)
    then show ?thesis using no [of j st] by (cases "cb ch j st"; cases "fst (cb ch j st)")
      (auto simp: catchE_def bindE_def is_Exception_def)
  qed (simp add: catchE_def bindE_def is_Exception_def)
  with True cb show ?thesis by (simp add: dispatch_def)
qed (auto simp: dispatch_def split: option.split)

text \<open>
  The listener outlives its callbacks: while the task runs, every incoming message is
  dispatched in order on the state the previous ones left, whether or not callbacks raise or
  payloads are invalid JSON, and the broker itself is unchanged.
\<close>

theorem listener_survives_callbacks:
  assumes "listening b" and "callbacks_contained b"
  shows "listen_run api (map (\<lambda>(t, ch, d). Incoming t ch d) ms) (b, st)
    = (b, fold (\<lambda>(t, ch, d) st. snd (dispatch b t ch d st)) ms st)"
proof (induction ms arbitrary: st)
  case (Cons m ms)
  obtain t ch d where m: "m = (t, ch, d)" by (cases m)
  have "dispatch b t ch d st = (Inr (), snd (dispatch b t ch d st))"
    using dispatch_returns [OF assms(2), of t ch d st] by (metis prod.collapse)
  then have "listen_step api (Incoming t ch d) (b, st) = (b, snd (dispatch b t ch d st))"
    using assms(1) by (auto simp: listen_step_def listening_def split: prod.split sum.split)
  then show ?case using Cons.IH m by (simp add: listen_run_def)
qed (simp add: listen_run_def)

definition log_callback :: "json list callback" where
  "log_callback ch j st = (if j = JNull then (Inl (ValueError ''null''), st) else (Inr (), st @ [j]))"

definition log_broker :: "(string list, json list) redis_broker" where
  "log_broker = redis_broker_init\<lparr>rb_running := True, rb_listener := Some Running,
     rb_callbacks := [(''room:r'', log_callback)]\<rparr>"

theorem listener_survives_callbacks_witness:
  "listen_run list_pubsub (map (\<lambda>(t, ch, d). Incoming t ch d)
      [(''message'', ''room:r'', JsonText (JInt 1)), (''message'', ''room:r'', JsonText JNull),
       (''message'', ''room:r'', RawText ''x''), (''message'', ''room:r'', JsonText (JInt 2))]) (log_broker, [])
    = (log_broker, [JInt 1, JInt 2])"
proof -
  have "listening log_broker" "callbacks_contained log_broker"
    by (auto simp: listening_def callbacks_contained_def log_broker_def redis_broker_init_def log_callback_def ran_def
        split: if_splits)
  then show ?thesis
    by (subst listener_survives_callbacks)
      (simp_all add: dispatch_def log_broker_def log_callback_def redis_broker_init_def catchE_def bindE_def is_Exception_def)
qed

section \<open>Backoff\<close>

lemma on_pubsub_fields:
  assumes "on_pubsub m b = (res, b')"
  shows "rb_reconnect_delay b' = rb_reconnect_delay b" "rb_callbacks b' = rb_callbacks b"
    "rb_running b' = rb_running b" "rb_listener b' = rb_listener b" "rb_redis b' = rb_redis b"
  using assms by (auto simp: on_pubsub_def split: option.splits prod.splits)

lemma resubscribe_fields:
  assumes "forE chs (\<lambda>ch. on_pubsub (f ch)) b = (res, b')"
  shows "rb_reconnect_delay b' = rb_reconnect_delay b \<and> rb_callbacks b' = rb_callbacks b \<and>
    rb_running b' = rb_running b \<and> rb_listener b' = rb_listener b \<and> rb_redis b' = rb_redis b"
  using assms
proof (induction chs arbitrary: b)
  case (Cons ch chs)
  obtain x b1 where b1: "on_pubsub (f ch) b = (x, b1)" by (cases "on_pubsub (f ch) b")
  show ?case
  proof (cases x)
    case (Inl e)
    with b1 Cons.prems show ?thesis by (auto simp: thenE_def bindE_def dest: on_pubsub_fields)
  next
    case (Inr y)
    with b1 Cons.prems have "forE chs (\<lambda>ch. on_pubsub (f ch)) b1 = (res, b')" by (simp add: thenE_def bindE_def)
    from Cons.IH [OF this] on_pubsub_fields [OF b1] show ?thesis by simp
  qed
qed simp

lemma rb_reconnect_cases:
  obtains b' where "rb_reconnect api b = (Inr (), b')" "rb_reconnect_delay b' = 1"
    "rb_callbacks b' = rb_callbacks b" "rb_running b' = rb_running b" "rb_listener b' = rb_listener b"
  | e b' where "rb_reconnect api b = (Inl e, b')" "rb_reconnect_delay b' = rb_reconnect_delay b"
    "rb_callbacks b' = rb_callbacks b" "rb_running b' = rb_running b" "rb_listener b' = rb_listener b"
proof -
  let ?b = "b\<lparr>rb_redis := True, rb_pubsub := Some (ps_new api)\<rparr>"
  let ?m = "forE (keys (rb_callbacks b)) (\<lambda>ch. on_pubsub (ps_subscribe api ch))"
  obtain res b1 where m: "?m ?b = (res, b1)" by (cases "?m ?b")
  note f = resubscribe_fields [OF m]
  show thesis
  proof (cases res)
    case (Inl e)
    with m f show thesis by (intro that(2) [of e b1]) (simp_all add: rb_reconnect_def thenE_def bindE_def)
  next
    case (Inr u)
    with m f show thesis
      by (intro that(1) [of "b1\<lparr>rb_reconnect_delay := 1\<rparr>"]) (simp_all add: rb_reconnect_def thenE_def bindE_def)
  qed
qed

definition delay_ok :: "('p, 'm) redis_broker \<Rightarrow> bool" where
  "delay_ok b \<longleftrightarrow> 1 \<le> rb_reconnect_delay b \<and> rb_reconnect_delay b \<le> max_reconnect_delay"

lemma listen_recover_delay: "delay_ok b \<Longrightarrow> delay_ok (listen_recover api b)"
  by (rule rb_reconnect_cases [of api "b\<lparr>rb_reconnect_delay := min (rb_reconnect_delay b * 2) max_reconnect_delay\<rparr>"])
    (auto simp: listen_recover_def catchE_def delay_ok_def max_reconnect_delay_def)

lemma listen_step_delay:
  assumes "delay_ok b" shows "delay_ok (fst (listen_step api ev (b, st)))"
proof -
  have "delay_ok (b\<lparr>rb_listener := l\<rparr>)" for l using assms by (simp add: delay_ok_def)
  then show ?thesis
    using assms listen_recover_delay [of b api] by (cases ev) (auto simp: listen_step_def split: prod.split sum.split)
qed

text \<open>
  Whatever the listener meets, from the start the delay before a reconnection attempt stays
  between one second and thirty.
\<close>

lemma backoff_bounded:
  assumes "1 \<le> rb_reconnect_delay b" "rb_reconnect_delay b \<le> 30"
  shows "1 \<le> rb_reconnect_delay (fst (listen_run api evs (b, st)))
    \<and> rb_reconnect_delay (fst (listen_run api evs (b, st))) \<le> 30"
proof -
  have "delay_ok (fst (listen_run api evs s))" if "delay_ok (fst s)" for s
    using that
  proof (induction evs arbitrary: s)
    case (Cons ev evs)
    then show ?case using listen_step_delay [of "fst s" api ev "snd s"] by (simp add: listen_run_def)
  qed (simp add: listen_run_def)
  from this [of "(b, st)"] assms show ?thesis by (simp add: delay_ok_def max_reconnect_delay_def)
qed

text \<open>A connection on which no subscription succeeds.\<close>

definition dead_pubsub :: "string list pubsub_api" where
  "dead_pubsub = list_pubsub\<lparr>ps_subscribe := (\<lambda>ch p. (Inl (RedisError ''Connection refused''), p))\<rparr>"

lemma backoff_bounded_witness:
  "rb_reconnect_delay (fst (listen_run dead_pubsub (replicate 7 (ListenError (RedisError ''reset''))) (log_broker, []))) = 30"
proof -
  have "rb_reconnect_delay (fst (listen_run dead_pubsub (replicate 7 (ListenError (RedisError ''reset''))) (log_broker, []))) \<ge> 30"
    by code_simp
  then show ?thesis
    using backoff_bounded [of log_broker dead_pubsub "replicate 7 (ListenError (RedisError ''reset''))" "[]"]
    by (simp add: log_broker_def redis_broker_init_def)
qed

section \<open>Subscriptions\<close>

text \<open>Pub/Sub connections whose calls succeed.\<close>

locale reliable_pubsub = pubsub +
  assumes subscribes: "fst (ps_subscribe api ch p) = Inr ()"
    and unsubscribes: "fst (ps_unsubscribe api ch' p) = Inr ()"

interpretation list_pubsub: reliable_pubsub list_pubsub set
  by unfold_locales (simp_all add: list_pubsub_def)

definition subscribed :: "('p \<Rightarrow> string set) \<Rightarrow> ('p, 'm) redis_broker \<Rightarrow> string set" where
  "subscribed channels b = (case rb_pubsub b of None \<Rightarrow> {} | Some p \<Rightarrow> channels p)"

definition channel_set :: "('p, 'm) redis_broker \<Rightarrow> string set" where
  "channel_set b = set (keys (rb_callbacks b))"

context pubsub begin

lemma resubscribe:
  assumes "forE chs (\<lambda>ch. on_pubsub (ps_subscribe api ch)) b = (Inr (), b')"
  shows "subscribed channels b' = set chs \<union> subscribed channels b"
  using assms
proof (induction chs arbitrary: b)
  case (Cons ch chs)
  then obtain b1 where b1: "on_pubsub (ps_subscribe api ch) b = (Inr (), b1)"
    "forE chs (\<lambda>ch. on_pubsub (ps_subscribe api ch)) b1 = (Inr (), b')"
    by (auto elim: thenE_InrE)
  then have "subscribed channels b1 = insert ch (subscribed channels b)"
    by (auto simp: on_pubsub_def subscribed_def channels_subscribe split: option.splits prod.splits)
  then show ?case using Cons.IH [OF b1(2)] by auto
qed simp

lemma reconnected:
  assumes "rb_reconnect api b = (Inr (), b')"
  shows "subscribed channels b' = channel_set b" "rb_callbacks b' = rb_callbacks b" "rb_reconnect_delay b' = 1"
proof -
  let ?b = "b\<lparr>rb_redis := True, rb_pubsub := Some (ps_new api)\<rparr>"
  obtain b1 where b1: "forE (keys (rb_callbacks b)) (\<lambda>ch. on_pubsub (ps_subscribe api ch)) ?b = (Inr (), b1)"
    "b' = b1\<lparr>rb_reconnect_delay := 1\<rparr>"
    using assms by (auto simp: rb_reconnect_def elim: thenE_InrE)
  from resubscribe [OF b1(1)] b1(2) show "subscribed channels b' = channel_set b"
    by (simp add: subscribed_def channels_new channel_set_def)
  from resubscribe_fields [OF b1(1)] b1(2) show "rb_callbacks b' = rb_callbacks b" "rb_reconnect_delay b' = 1"
    by simp_all
qed

end

text \<open>
  A reconnection that succeeds is subscribed to exactly the channels with a callback, keeps
  the callbacks and resets the delay. In particular a broker without callbacks ends up with no
  subscription at all: the placeholder channel of \<open>connect\<close> is not restored.
\<close>

theorem reconnect_resubscribes:
  assumes "pubsub api channels" and "rb_reconnect api b = (Inr (), b')"
  shows "subscribed channels b' = channel_set b \<and> rb_callbacks b' = rb_callbacks b \<and> rb_reconnect_delay b' = 1"
  using pubsub.reconnected [OF assms] by simp

theorem reconnect_resubscribes_witness:
  "let b = snd (rb_connect list_pubsub (redis_broker_init :: (string list, unit) redis_broker))
   in subscribed set b = {''system:dummy''} \<and> subscribed set (snd (rb_reconnect list_pubsub b)) = {}"
proof -
  let ?b = "snd (rb_connect list_pubsub (redis_broker_init :: (string list, unit) redis_broker))"
  have "subscribed set ?b = {''system:dummy''}" "channel_set ?b = {}"
    and "rb_reconnect list_pubsub ?b = (Inr (), snd (rb_reconnect list_pubsub ?b))"
    by (simp_all add: rb_connect_def rb_reconnect_def thenE_def bindE_def on_pubsub_def list_pubsub_def
        redis_broker_init_def subscribed_def channel_set_def)
  then show ?thesis
    using reconnect_resubscribes [OF list_pubsub.pubsub_axioms, of ?b "snd (rb_reconnect list_pubsub ?b)"]
    by (simp add: Let_def)
qed

text \<open>The broker's life: connected once, then subscribing, unsubscribing and listening.\<close>

inductive rb_reach :: "'p pubsub_api \<Rightarrow> ('p, 'm) redis_broker \<Rightarrow> bool" for api :: "'p pubsub_api" where
  rb_start: "rb_connect api redis_broker_init = (Inr (), b) \<Longrightarrow> rb_reach api b"
| rb_sub: "rb_reach api b \<Longrightarrow> rb_reach api (snd (rb_subscribe api ch cb b))"
| rb_unsub: "rb_reach api b \<Longrightarrow> ch \<noteq> ''system:dummy'' \<Longrightarrow> rb_reach api (snd (rb_unsubscribe api ch b))"
| rb_event: "rb_reach api b \<Longrightarrow> rb_reach api (fst (listen_step api ev (b, st)))"

definition subscriptions_match :: "('p \<Rightarrow> string set) \<Rightarrow> ('p, 'm) redis_broker \<Rightarrow> bool" where
  "subscriptions_match channels b \<longleftrightarrow>
     rb_pubsub b \<noteq> None \<and> channel_set b \<subseteq> subscribed channels b \<and>
     subscribed channels b \<subseteq> insert ''system:dummy'' (channel_set b)"

context reliable_pubsub begin

lemma match_subscribe:
  assumes "subscriptions_match channels b"
  shows "subscriptions_match channels (snd (rb_subscribe api ch cb b))"
proof -
  obtain p where p: "rb_pubsub b = Some p" using assms by (auto simp: subscriptions_match_def)
  obtain p' where p': "ps_subscribe api ch p = (Inr (), p')" using subscribes by (metis prod.collapse)
  have "channels p' = insert ch (channels p)" by (rule channels_subscribe [OF p'])
  then show ?thesis using assms p p'
    by (auto simp: subscriptions_match_def rb_subscribe_def on_pubsub_def subscribed_def channel_set_def dom_update)
qed

lemma match_unsubscribe:
  assumes "subscriptions_match channels b" "ch \<noteq> ''system:dummy''"
  shows "subscriptions_match channels (snd (rb_unsubscribe api ch b))"
proof -
  obtain p where p: "rb_pubsub b = Some p" using assms(1) by (auto simp: subscriptions_match_def)
  obtain p' where p': "ps_unsubscribe api (Some ch) p = (Inr (), p')" using unsubscribes by (metis prod.collapse)
  have "channels p' = channels p - {ch}" by (rule channels_unsubscribe [OF p'])
  then show ?thesis using assms p p'
    by (auto simp: subscriptions_match_def rb_unsubscribe_def on_pubsub_def subscribed_def channel_set_def delete_keys)
qed

lemma resubscribe_succeeds:
  "rb_pubsub b \<noteq> None \<Longrightarrow> \<exists>b'. forE chs (\<lambda>ch. on_pubsub (ps_subscribe api ch)) b = (Inr (), b') \<and> rb_pubsub b' \<noteq> None"
proof (induction chs arbitrary: b)
  case (Cons ch chs)
  then obtain p where p: "rb_pubsub b = Some p" by auto
  obtain p' where "ps_subscribe api ch p = (Inr (), p')" using subscribes by (metis prod.collapse)
  with p Cons.IH [of "b\<lparr>rb_pubsub := Some p'\<rparr>"] show ?case by (simp add: thenE_def bindE_def on_pubsub_def)
qed simp

lemma match_recover: "subscriptions_match channels (listen_recover api b)"
proof -
  let ?d = "b\<lparr>rb_reconnect_delay := min (rb_reconnect_delay b * 2) max_reconnect_delay\<rparr>"
  obtain b1 where b1: "forE (keys (rb_callbacks b)) (\<lambda>ch. on_pubsub (ps_subscribe api ch))
      (?d\<lparr>rb_redis := True, rb_pubsub := Some (ps_new api)\<rparr>) = (Inr (), b1)" "rb_pubsub b1 \<noteq> None"
    using resubscribe_succeeds [of "?d\<lparr>rb_redis := True, rb_pubsub := Some (ps_new api)\<rparr>" "keys (rb_callbacks b)"] by auto
  then have r: "rb_reconnect api ?d = (Inr (), b1\<lparr>rb_reconnect_delay := 1\<rparr>)"
    by (simp add: rb_reconnect_def thenE_def bindE_def)
  from reconnected [OF r] b1(2) show ?thesis
    by (auto simp: listen_recover_def catchE_def r subscriptions_match_def channel_set_def)
qed

lemma match_event:
  assumes "subscriptions_match channels b"
  shows "subscriptions_match channels (fst (listen_step api ev (b, st)))"
proof -
  have "subscriptions_match channels (b\<lparr>rb_listener := l\<rparr>)" for l
    using assms by (simp add: subscriptions_match_def subscribed_def channel_set_def)
  then show ?thesis
    using assms match_recover by (cases ev) (auto simp: listen_step_def split: prod.split sum.split)
qed

lemma reach_match: "rb_reach api b \<Longrightarrow> subscriptions_match channels b"
proof (induction rule: rb_reach.induct)
  case (rb_start b)
  obtain p where p: "ps_subscribe api ''system:dummy'' (ps_new api) = (Inr (), p)" using subscribes by (metis prod.collapse)
  with rb_start have "b = redis_broker_init\<lparr>rb_redis := True, rb_pubsub := Some p, rb_running := True,
      rb_listener := Some Running, rb_reconnect_delay := 1\<rparr>"
    by (auto simp: rb_connect_def redis_broker_init_def thenE_def bindE_def on_pubsub_def)
  moreover have "channels p = {''system:dummy''}" using channels_subscribe [OF p] channels_new by simp
  ultimately show ?case
    by (simp add: redis_broker_init_def subscriptions_match_def subscribed_def channel_set_def)
qed (simp_all add: match_subscribe match_unsubscribe match_event)

end

text \<open>
  C25. While the Pub/Sub connection works, the channels a broker is subscribed to are, through
  any sequence of subscriptions, cancellations, messages and reconnections, exactly those with a
  callback, and possibly the placeholder channel: no room is silently lost and no message
  arrives that nobody handles.
\<close>

theorem subscriptions_are_callbacks:
  assumes "reliable_pubsub api channels" and "rb_reach api b"
  shows "set (keys (rb_callbacks b)) \<subseteq> subscribed channels b
    \<and> subscribed channels b \<subseteq> insert ''system:dummy'' (set (keys (rb_callbacks b)))"
  using reliable_pubsub.reach_match [OF assms] by (simp add: subscriptions_match_def channel_set_def)

theorem subscriptions_are_callbacks_witness:
  "let b = snd (rb_subscribe list_pubsub ''room:r'' (\<lambda>_ _. ret ())
             (snd (rb_connect list_pubsub (redis_broker_init :: (string list, unit) redis_broker))))
   in ''room:r'' \<in> subscribed set b"
proof -
  have "rb_reach list_pubsub (snd (rb_subscribe list_pubsub ''room:r'' (\<lambda>_ _. ret ())
             (snd (rb_connect list_pubsub (redis_broker_init :: (string list, unit) redis_broker)))))"
    by (intro rb_sub rb_start)
      (simp add: rb_connect_def thenE_def bindE_def on_pubsub_def list_pubsub_def redis_broker_init_def)
  from subscriptions_are_callbacks [OF list_pubsub.reliable_pubsub_axioms this] show ?thesis
    by (simp add: Let_def rb_subscribe_def rb_connect_def thenE_def bindE_def on_pubsub_def list_pubsub_def redis_broker_init_def)
qed

section \<open>The broker interface\<close>

text \<open>
  What the rest of the program relies on of a \<open>MessageBroker\<close>: a subscription that succeeds sets
  the handler of its channel, a cancellation removes it, publishing changes no handler.
\<close>

locale broker_contract =
  fixes mb :: "('s, 'c) message_broker" and inv :: "'s \<Rightarrow> bool" and handler :: "'s \<Rightarrow> string \<Rightarrow> 'c option"
  assumes subscribed_handler: "inv s \<Longrightarrow> mb_subscribe mb ch cb s = (Inr (), s') \<Longrightarrow> inv s' \<and> handler s' = (handler s)(ch \<mapsto> cb)"
    and unsubscribed_handler: "inv s \<Longrightarrow> mb_unsubscribe mb ch s = (Inr (), s') \<Longrightarrow> inv s' \<and> handler s' = (handler s)(ch := None)"
    and published_handler: "inv s \<Longrightarrow> mb_publish mb ch msg s = (r, s') \<Longrightarrow> inv s' \<and> handler s' = handler s"

datatype 'c broker_op = Sub string 'c | Unsub string | Pub string json

fun broker_exec :: "('s, 'c) message_broker \<Rightarrow> 'c broker_op \<Rightarrow> ('s, unit) eff" where
  "broker_exec mb (Sub ch cb) = mb_subscribe mb ch cb"
| "broker_exec mb (Unsub ch) = mb_unsubscribe mb ch"
| "broker_exec mb (Pub ch msg) = mb_publish mb ch msg"

fun handler_spec :: "'c broker_op \<Rightarrow> (string \<Rightarrow> 'c option) \<Rightarrow> string \<Rightarrow> 'c option" where
  "handler_spec (Sub ch cb) h = h(ch \<mapsto> cb)"
| "handler_spec (Unsub ch) h = h(ch := None)"
| "handler_spec (Pub ch msg) h = h"

context broker_contract begin

lemma exec_spec: "inv s \<Longrightarrow> broker_exec mb op s = (Inr (), s') \<Longrightarrow> inv s' \<and> handler s' = handler_spec op (handler s)"
  by (cases op) (auto dest: subscribed_handler unsubscribed_handler published_handler)

lemma run_spec:
  assumes "inv s" "forE ops (broker_exec mb) s = (Inr (), s')"
  shows "inv s' \<and> handler s' = fold handler_spec ops (handler s)"
  using assms
proof (induction ops arbitrary: s)
  case (Cons op ops)
  then obtain s1 where "broker_exec mb op s = (Inr (), s1)" "forE ops (broker_exec mb) s1 = (Inr (), s')"
    by (auto elim: thenE_InrE)
  with Cons exec_spec show ?case by fastforce
qed simp

end

definition redis_handler :: "('p, 'm) redis_broker \<times> 'r \<Rightarrow> string \<Rightarrow> 'm callback option" where
  "redis_handler s = map_of (rb_callbacks (fst s))"

interpretation redis_contract: broker_contract "RedisBroker api redis fs es now" "\<lambda>s. rb_pubsub (fst s) \<noteq> None" redis_handler
  for api :: "'p pubsub_api" and redis :: "'r redis" and fs es now
  by unfold_locales
    (auto simp: RedisBroker_def onE_def redis_handler_def rb_subscribe_def rb_unsubscribe_def on_pubsub_def
      split: prod.splits option.splits)

interpretation kafka_contract: broker_contract KafkaBroker "\<lambda>_. True" "\<lambda>k. map_of (kb_callbacks k)"
  by unfold_locales (auto simp: KafkaBroker_def kb_subscribe_def kb_unsubscribe_def kb_publish_def)

context redis_atomic begin

lemma redis1_contained: "fst (redis1 redis t c r) = Inl e \<Longrightarrow> is_Exception e"
  by (cases rule: redis1_cases [of t c r]) auto

lemma publish_dead_letter_returns: "fst (publish_dead_letter redis fs now b ch msg err r) = Inr ()"
proof (cases "rb_redis b")
  case True
  let ?push = "redis1 redis now (LPUSH dlq (json_dumps (dead_letter fs now ch msg err)))"
  show ?thesis
  proof (cases "?push r")
    case push: (Pair res r1)
    with True show ?thesis
      using redis1_contained [of now "LPUSH dlq (json_dumps (dead_letter fs now ch msg err))" r]
        redis1_contained [of now "LTRIM dlq 0 9999" r1]
      by (cases res; cases "redis1 redis now (LTRIM dlq 0 9999) r1"; cases "fst (redis1 redis now (LTRIM dlq 0 9999) r1)")
        (auto simp: publish_dead_letter_def catchE_def thenE_def bindE_def)
  qed
qed (simp add: publish_dead_letter_def)

lemma publish_loop_returns: "fst (publish_loop redis fs es b ch msg attempt left now r) = Inr ()"
proof (induction left arbitrary: attempt now r)
  case (Suc left)
  obtain res r1 where res: "redis1 redis now (PUBLISH ch (json_dumps msg)) r = (res, r1)" by fastforce
  have dead: "publish_dead_letter redis fs now b ch msg err r1
      = (Inr (), snd (publish_dead_letter redis fs now b ch msg err r1))" for err
    using publish_dead_letter_returns [of fs now b ch msg err r1] by (metis prod.collapse)
  show ?case
  proof (cases res)
    case (Inl e)
    with res redis1_contained [of now "PUBLISH ch (json_dumps msg)" r] have "is_Exception e" by simp
    with res Inl Suc.IH show ?thesis
      by (simp add: thenE_def bindE_def) (subst dead, simp)
  next
    case (Inr x)
    with res show ?thesis by simp
  qed
qed simp

lemma rb_publish_returns: "fst (rb_publish redis fs es now b ch msg r) = Inr ()"
  by (simp add: rb_publish_def publish_loop_returns)

end

lemma on_pubsub_returns: "rb_pubsub b = Some p \<Longrightarrow> fst (m p) = Inr () \<Longrightarrow> fst (on_pubsub m b) = Inr ()"
  by (cases "m p") (simp add: on_pubsub_def)

lemma onE_fst: "fst (onE get upd m s) = fst (m (get s))"
  by (simp add: onE_def split: prod.split)

lemma broker_exec_returns:
  assumes "redis_atomic redis view" "reliable_pubsub api channels" "rb_pubsub (fst s) \<noteq> None"
  shows "fst (broker_exec (RedisBroker api redis fs es now) op s) = Inr ()"
proof (cases op)
  case (Sub ch cb)
  with assms show ?thesis
    by (auto simp: RedisBroker_def onE_fst rb_subscribe_def intro!: on_pubsub_returns reliable_pubsub.subscribes)
next
  case (Unsub ch)
  with assms show ?thesis
    by (auto simp: RedisBroker_def onE_fst rb_unsubscribe_def intro!: on_pubsub_returns reliable_pubsub.unsubscribes)
next
  case (Pub ch msg)
  with assms(1) show ?thesis by (simp add: RedisBroker_def onE_fst redis_atomic.rb_publish_returns)
qed

lemma broker_run_returns:
  assumes "redis_atomic redis view" "reliable_pubsub api channels" "rb_pubsub (fst s) \<noteq> None"
  shows "\<exists>s'. forE ops (broker_exec (RedisBroker api redis fs es now)) s = (Inr (), s')"
  using assms(3)
proof (induction ops arbitrary: s)
  case (Cons op ops)
  let ?mb = "RedisBroker api redis fs es now"
  obtain s1 where s1: "broker_exec ?mb op s = (Inr (), s1)"
    using broker_exec_returns [OF assms(1,2) Cons.prems] by (metis prod.collapse)
  have "rb_pubsub (fst s1) \<noteq> None" using redis_contract.exec_spec [OF Cons.prems s1] by simp
  from Cons.IH [OF this] s1 show ?case by (simp add: thenE_def bindE_def)
qed simp



end
