(* ===== verification/ChatEndpoint.thy ===== *)
theory ChatEndpoint
  imports Connections_Props RateLimiter Presence Typing Broker_Props MessageService Auth
begin

text \<open>
  The WebSocket endpoint (\<open>app/api/websocket/chat.py\<close>): authentication, the loop over the
  client's frames, the event handlers, the callback that delivers Pub/Sub messages, and the
  cleanup when the session ends.

  \<^item> \<open>world\<close> is the state one instance works on: its connection manager and broker, and the
    Redis server and the database it shares with the other instances.
  \<^item> \<open>env\<close> holds what does not change: the third-party functions and the settings.
  \<^item> A callback registered with the broker changes the connection manager only.

  A client event is a JSON value, so \<open>room_id\<close> may be anything: it becomes a string where the
  code puts it into an f-string, and has to be one where the code calls \<open>UUID\<close>.
\<close>

section \<open>State\<close>

record ('w, 'p, 'r, 'd) env =
  e_ws :: "'w ws_api"
  e_pubsub :: "'p pubsub_api"
  e_redis :: "'r redis"
  e_db :: "'d db_api"
  e_jwt :: jwt_api
  e_cfg :: settings
  e_float_str :: "timestamp \<Rightarrow> string"
  e_exn_str :: "exn \<Rightarrow> string"
  e_isoformat :: "timestamp \<Rightarrow> string"

record ('w, 'p, 'r, 'd) world =
  w_cm :: "'w conn_manager"
  w_broker :: "('p, 'w conn_manager) redis_broker"
  w_redis :: 'r
  w_db :: 'd

type_synonym ('w, 'p, 'r, 'd, 'a) chat = "(('w, 'p, 'r, 'd) world, 'a) eff"

definition on_redis :: "('r, 'a) eff \<Rightarrow> ('w, 'p, 'r, 'd, 'a) chat" where
  "on_redis = onE w_redis w_redis_update"

definition on_db :: "('d, 'a) eff \<Rightarrow> ('w, 'p, 'r, 'd, 'a) chat" where
  "on_db = onE w_db w_db_update"

definition on_broker :: "(('p, 'w conn_manager) redis_broker, 'a) eff \<Rightarrow> ('w, 'p, 'r, 'd, 'a) chat" where
  "on_broker = onE w_broker w_broker_update"

definition on_cm :: "('w conn_manager \<Rightarrow> 'w conn_manager) \<Rightarrow> ('w, 'p, 'r, 'd, unit) chat" where
  "on_cm f w = (Inr (), w\<lparr>w_cm := f (w_cm w)\<rparr>)"

text \<open>\<open>connection_manager.send_to_user\<close> and \<open>redis_broker.publish\<close> from a handler.\<close>

definition tell :: "string \<Rightarrow> ws_outbound \<Rightarrow> ('w, 'p, 'r, 'd, unit) chat" where
  "tell uid m = on_cm (send_to_user uid m)"

definition broker_publish :: "('w, 'p, 'r, 'd) env \<Rightarrow> timestamp \<Rightarrow> string \<Rightarrow> json \<Rightarrow> ('w, 'p, 'r, 'd, unit) chat" where
  "broker_publish env now channel message w =
     on_redis (rb_publish (e_redis env) (e_float_str env) (e_exn_str env) now (w_broker w) channel message) w"

text \<open>\<open>f"room:{room_id}"\<close> and \<open>{"type": t, "payload": m.model_dump()}\<close>.\<close>

definition room_channel :: "json \<Rightarrow> string" where
  "room_channel room_id = ''room:'' @ py_str room_id"

definition envelope :: "string \<Rightarrow> ws_outbound \<Rightarrow> json" where
  "envelope t m = JObj [(''type'', JStr t), (''payload'', model_dump m)]"

section \<open>Delivery of Pub/Sub messages\<close>

text \<open>The user a typing indicator is not sent back to; nothing but a string equals a user id.\<close>

fun excluded :: "json \<Rightarrow> string option" where
  "excluded (JStr s) = Some s"
| "excluded _ = None"

definition room_message_handler :: "string \<Rightarrow> 'w conn_manager callback" where
  "room_message_handler room_id ch message =
     bindE (liftX (json_get message ''type'' (JStr []))) (\<lambda>msg_type.
     bindE (liftX (json_get message ''payload'' (JObj []))) (\<lambda>payload.
     let deliver = (\<lambda>exclude. bindE (liftX (WSOutboundMessage payload)) (\<lambda>outbound st.
                      (Inr (), broadcast_to_room room_id outbound exclude st)))
     in
     if msg_type = JStr ''chat'' then
       bindE (liftX (json_get payload ''data'' (JObj []))) (\<lambda>d.
       bindE (liftX (json_get d ''sender_id'' (JStr []))) (\<lambda>sender_id. deliver None))
     else if msg_type = JStr ''presence'' then deliver None
     else if msg_type = JStr ''typing'' then
       thenE (liftX (WSOutboundMessage payload))
       (bindE (liftX (json_get payload ''data'' (JObj []))) (\<lambda>d.
        bindE (liftX (json_get d ''user_id'' (JStr []))) (\<lambda>typer_id. deliver (excluded typer_id))))
     else if msg_type = JStr ''system'' then deliver None
     else ret ()))"

section \<open>Event handlers\<close>

definition online_users_message :: "json \<Rightarrow> (string \<times> string) list \<Rightarrow> ws_outbound" where
  "online_users_message room_id online =
     \<lparr>wo_event = ''online_users'',
      wo_data = [(''room_id'', room_id),
                 (''users'', JArr (map (\<lambda>(u, n). JObj [(''user_id'', JStr u), (''username'', JStr n)]) online))]\<rparr>"

definition handle_join_room ::
  "('w, 'p, 'r, 'd) env \<Rightarrow> timestamp \<Rightarrow> string \<Rightarrow> string \<Rightarrow> json \<Rightarrow> ('w, 'p, 'r, 'd, unit) chat" where
  "handle_join_room env now user_id username event_data =
     bindE (liftX (json_get event_data ''room_id'' (JStr []))) (\<lambda>room_id.
     if \<not> truthy room_id then tell user_id (error_message ''room_id is required'' ''error'')
     else
       bindE (on_db (in_session (e_db env)
         (bindE (liftX (UUID_json room_id)) (\<lambda>rid.
          bindE (liftX (UUID user_id)) (\<lambda>uid.
          rs_is_member (e_db env) rid uid))))) (\<lambda>is_member.
       if \<not> is_member then tell user_id (error_message ''You are not a member of this room'' ''error'')
       else
         let channel = room_channel room_id; rid = py_str room_id in
         thenE (on_broker (rb_subscribe (e_pubsub env) channel (room_message_handler rid)))
         (thenE (on_cm (join_room user_id rid))
         (thenE (on_redis (set_online (e_redis env) now rid user_id username))
         (thenE (broker_publish env now channel (envelope ''presence'' (presence_update room_id user_id username ''online'')))
         (bindE (on_redis (get_online_users (e_redis env) (e_cfg env) now rid)) (\<lambda>online.
          tell user_id (online_users_message room_id online))))))))"

text \<open>
  \<open>conn.rooms.discard(room_id)\<close> of something that is not a string removes nothing, and raises
  when it is not hashable.
\<close>

definition leave_json :: "string \<Rightarrow> json \<Rightarrow> ('w conn_manager, unit) eff" where
  "leave_json uid room_id st =
     (case room_id of
        JStr rid \<Rightarrow> (Inr (), leave_room uid rid st)
      | _ \<Rightarrow> if get_connection uid st = None \<or> hashable room_id then (Inr (), st)
             else (Inl (TypeError ''unhashable type''), st))"

definition handle_leave_room ::
  "('w, 'p, 'r, 'd) env \<Rightarrow> timestamp \<Rightarrow> string \<Rightarrow> string \<Rightarrow> json \<Rightarrow> ('w, 'p, 'r, 'd, unit) chat" where
  "handle_leave_room env now user_id username event_data =
     bindE (liftX (json_get event_data ''room_id'' (JStr []))) (\<lambda>room_id.
     if \<not> truthy room_id then ret ()
     else
       thenE (onE w_cm w_cm_update (leave_json user_id room_id))
       (thenE (on_redis (set_offline (e_redis env) now (py_str room_id) user_id))
       (broker_publish env now (room_channel room_id)
          (envelope ''presence'' (presence_update room_id user_id username ''offline'')))))"

text \<open>\<open>v.strip()\<close> of something that need not be a string.\<close>

fun json_strip :: "json \<Rightarrow> exn + string" where
  "json_strip (JStr s) = Inr (strip s)"
| "json_strip _ = Inl (AttributeError ''strip'')"

definition save_and_commit ::
  "('w, 'p, 'r, 'd) env \<Rightarrow> json \<Rightarrow> string \<Rightarrow> string \<Rightarrow> json \<Rightarrow> ('d, message) eff" where
  "save_and_commit env room_id user_id content idempotency_key =
     in_session (e_db env)
       (bindE (liftX (UUID_json room_id)) (\<lambda>rid.
        bindE (liftX (UUID user_id)) (\<lambda>uid.
        bindE (ms_save_message (e_db env) rid uid content TEXT idempotency_key) (\<lambda>message.
        thenE (db_commit (e_db env)) (ret message)))))"

definition handle_message ::
  "('w, 'p, 'r, 'd) env \<Rightarrow> timestamp \<Rightarrow> string \<Rightarrow> string \<Rightarrow> json \<Rightarrow> ('w, 'p, 'r, 'd, unit) chat" where
  "handle_message env now user_id username event_data =
     bindE (liftX (json_get event_data ''room_id'' (JStr []))) (\<lambda>room_id.
     bindE (liftX (json_get event_data ''content'' (JStr []))) (\<lambda>content_value.
     bindE (liftX (json_strip content_value)) (\<lambda>content.
     bindE (liftX (json_get event_data ''idempotency_key'' JNull)) (\<lambda>idempotency_key.
     if \<not> truthy room_id \<or> content = [] then tell user_id (error_message ''room_id and content are required'' ''error'')
     else if length content > 5000 then tell user_id (error_message ''Message too long (max 5000 chars)'' ''error'')
     else
       bindE (on_db (save_and_commit env room_id user_id content idempotency_key)) (\<lambda>message.
       broker_publish env now (room_channel room_id)
         (envelope ''chat'' (chat_message (str_uuid (ms_id message)) (py_str room_id) user_id username content ''text''
            (e_isoformat env (ms_created_at message)))))))))"

definition handle_typing ::
  "('w, 'p, 'r, 'd) env \<Rightarrow> timestamp \<Rightarrow> string \<Rightarrow> string \<Rightarrow> json \<Rightarrow> bool \<Rightarrow> ('w, 'p, 'r, 'd, unit) chat" where
  "handle_typing env now user_id username event_data start =
     bindE (liftX (json_get event_data ''room_id'' (JStr []))) (\<lambda>room_id.
     if \<not> truthy room_id then ret ()
     else
       thenE (on_redis (if start then set_typing (e_redis env) now (py_str room_id) user_id username
                        else clear_typing (e_redis env) now (py_str room_id) user_id))
       (broker_publish env now (room_channel room_id)
          (envelope ''typing'' (typing_indicator room_id user_id username start))))"

section \<open>The session\<close>

definition dispatch_event ::
  "('w, 'p, 'r, 'd) env \<Rightarrow> timestamp \<Rightarrow> string \<Rightarrow> string \<Rightarrow> json \<Rightarrow> json \<Rightarrow> ('w, 'p, 'r, 'd, unit) chat" where
  "dispatch_event env now user_id username event event_data =
     (if event = JStr ''join_room'' then handle_join_room env now user_id username event_data
      else if event = JStr ''leave_room'' then handle_leave_room env now user_id username event_data
      else if event = JStr ''message'' then handle_message env now user_id username event_data
      else if event = JStr ''typing_start'' then handle_typing env now user_id username event_data True
      else if event = JStr ''typing_stop'' then handle_typing env now user_id username event_data False
      else if event = JStr ''ping'' \<or> event = JStr ''pong'' then tell user_id pong
      else tell user_id (error_message (''Unknown event: '' @ py_str event) ''error''))"

text \<open>The rate limit: any exception, also of an unreachable Redis, is answered as a denied request.\<close>

definition rate_checked ::
  "('w, 'p, 'r, 'd) env \<Rightarrow> timestamp \<Rightarrow> string \<Rightarrow> ('w, 'p, 'r, 'd, unit) chat \<Rightarrow> ('w, 'p, 'r, 'd, unit) chat" where
  "rate_checked env now user_id body w =
     (case on_redis (check_ws_rate_limit (e_redis env) (e_float_str env) now user_id
              (WS_RATE_LIMIT_PER_MINUTE (e_cfg env)) 60) w of
        (Inr _, w1) \<Rightarrow> body w1
      | (Inl e, w1) \<Rightarrow>
          if is_Exception e then
            tell user_id (error_message ''Rate limit exceeded. Please slow down.'' ''rate_limited'') w1
          else (Inl e, w1))"

text \<open>One turn of the loop: the frame \<open>raw\<close> received on connection \<open>c\<close>.\<close>

definition handle_frame ::
  "('w, 'p, 'r, 'd) env \<Rightarrow> nat \<Rightarrow> timestamp \<Rightarrow> string \<Rightarrow> string \<Rightarrow> wire \<Rightarrow> ('w, 'p, 'r, 'd, unit) chat" where
  "handle_frame env c now user_id username raw =
     thenE (on_cm (upd_conn c (update_activity now)))
     (case json_loads raw of
        Inl _ \<Rightarrow> tell user_id (error_message ''Invalid JSON format'' ''error'')
      | Inr data \<Rightarrow>
          bindE (liftX (json_get data ''event'' (JStr []))) (\<lambda>event.
          bindE (liftX (json_get data ''data'' (JObj []))) (\<lambda>event_data.
          rate_checked env now user_id (dispatch_event env now user_id username event event_data))))"

text \<open>The loop, until a handler raises or the client is gone.\<close>

fun chat_loop ::
  "('w, 'p, 'r, 'd) env \<Rightarrow> nat \<Rightarrow> string \<Rightarrow> string \<Rightarrow> (timestamp \<times> wire) list \<Rightarrow> ('w, 'p, 'r, 'd, unit) chat" where
  "chat_loop env c user_id username [] = raise WebSocketDisconnect"
| "chat_loop env c user_id username ((now, raw) # frames) =
     thenE (handle_frame env c now user_id username raw) (chat_loop env c user_id username frames)"

text \<open>The \<open>finally\<close> block. Only the publication is protected against exceptions.\<close>

definition session_cleanup ::
  "('w, 'p, 'r, 'd) env \<Rightarrow> nat \<Rightarrow> timestamp \<Rightarrow> string \<Rightarrow> string \<Rightarrow> ('w, 'p, 'r, 'd, unit) chat" where
  "session_cleanup env c now user_id username w =
     thenE
       (forE (case heap (w_cm w) c of None \<Rightarrow> [] | Some conn \<Rightarrow> rooms conn) (\<lambda>room_id.
          thenE (on_redis (set_offline (e_redis env) now room_id user_id))
            (catchE (broker_publish env now (''room:'' @ room_id)
                       (envelope ''presence'' (presence_update (JStr room_id) user_id username ''offline'')))
              (\<lambda>e. ret ()))))
       (on_cm (disconnect (e_ws env) user_id)) w"

text \<open>The heartbeat task's turn after each sleep of thirty seconds; it stops when the client is gone.\<close>

definition ping_frame :: wire where
  "ping_frame = json_dumps (JObj [(''event'', JStr ''ping''), (''data'', JObj [])])"

definition heartbeat_turn :: "'w ws_api \<Rightarrow> nat \<Rightarrow> 'w conn_manager \<Rightarrow> bool \<times> 'w conn_manager" where
  "heartbeat_turn api c st =
     (case heap st c of
        None \<Rightarrow> (False, st)
      | Some conn \<Rightarrow>
          if ws_connected api (websocket conn) then
            (case ws_send_text api ping_frame (websocket conn) of
               (Inr _, w) \<Rightarrow> (True, upd_conn c (\<lambda>conn. conn\<lparr>websocket := w\<rparr>) st)
             | (Inl _, w) \<Rightarrow> (False, upd_conn c (\<lambda>conn. conn\<lparr>websocket := w\<rparr>) st))
          else (False, st))"

text \<open>A rejected connection is closed with code 4001; a served one ends with its loop and cleanup.\<close>

datatype 'w session_end = Rejected string 'w | Served

definition reject :: "('w, 'p, 'r, 'd) env \<Rightarrow> 'w \<Rightarrow> string \<Rightarrow> ('w, 'p, 'r, 'd, 'w session_end) chat" where
  "reject env ws reason w =
     (case ws_close (e_ws env) 4001 reason ws of
        (Inr _, ws') \<Rightarrow> (Inr (Rejected reason ws'), w)
      | (Inl e, ws') \<Rightarrow> (Inl e, w))"

text \<open>
  \<open>payload.get("username", "Unknown")\<close>; the tokens the server signs carry a string here. Anything
  else is used in its printed form.
\<close>

definition claim_username :: "claims \<Rightarrow> string" where
  "claim_username payload = (case map_of payload ''username'' of None \<Rightarrow> ''Unknown'' | Some v \<Rightarrow> py_str v)"

text \<open>Who the client is, or the end of the session when it is not let in.\<close>

definition authenticate ::
  "('w, 'p, 'r, 'd) env \<Rightarrow> timestamp \<Rightarrow> 'w \<Rightarrow> string option \<Rightarrow> ('w, 'p, 'r, 'd, (string \<times> string) + 'w session_end) chat" where
  "authenticate env now ws token =
     (let refuse = (\<lambda>reason. bindE (reject env ws reason) (\<lambda>r. ret (Inr r))) in
      case token of
        None \<Rightarrow> refuse ''Missing authentication token''
      | Some tok \<Rightarrow>
          if tok = [] then refuse ''Missing authentication token''
          else
            (case decode_access_token (e_jwt env) (e_cfg env) now tok of
               None \<Rightarrow> refuse ''Invalid or expired token''
             | Some payload \<Rightarrow>
                 bindE (on_db (in_session (e_db env)
                   (bindE (liftX (UUID_json (claim_sub payload))) (\<lambda>i.
                    bindE (select_users (e_db env) (users_with_id i)) (\<lambda>rows. liftX (scalar_one_or_none rows)))))) (\<lambda>found.
                 (case found of
                    None \<Rightarrow> refuse ''User not found''
                  | Some u \<Rightarrow>
                      if \<not> u_is_active u then refuse ''User not found''
                      else ret (Inl (py_str (claim_sub payload), claim_username payload))))))"

text \<open>Registration of the connection and the welcome message; the connection object is returned.\<close>

definition session_start ::
  "('w, 'p, 'r, 'd) env \<Rightarrow> timestamp \<Rightarrow> 'w \<Rightarrow> string \<Rightarrow> string \<Rightarrow> ('w, 'p, 'r, 'd, nat) chat" where
  "session_start env now ws user_id username =
     bindE (onE w_cm w_cm_update (connect (e_ws env) (e_cfg env) ws user_id username now)) (\<lambda>c.
     thenE (tell user_id (system_message ''system'' (''Welcome, '' @ username @ ''! You are connected.'')))
     (ret c))"

definition serve ::
  "('w, 'p, 'r, 'd) env \<Rightarrow> timestamp \<Rightarrow> timestamp \<Rightarrow> 'w \<Rightarrow> string \<Rightarrow> string \<Rightarrow> (timestamp \<times> wire) list \<Rightarrow>
   ('w, 'p, 'r, 'd, 'w session_end) chat" where
  "serve env now finish ws user_id username frames =
     bindE (session_start env now ws user_id username) (\<lambda>c.
     thenE (finallyE (catchE (chat_loop env c user_id username frames) (\<lambda>e. ret ()))
                     (session_cleanup env c finish user_id username))
     (ret Served))"

definition websocket_chat ::
  "('w, 'p, 'r, 'd) env \<Rightarrow> timestamp \<Rightarrow> timestamp \<Rightarrow> 'w \<Rightarrow> string option \<Rightarrow> (timestamp \<times> wire) list \<Rightarrow>
   ('w, 'p, 'r, 'd, 'w session_end) chat" where
  "websocket_chat env now finish ws token frames =
     bindE (authenticate env now ws token) (\<lambda>who.
     (case who of
        Inl (user_id, username) \<Rightarrow> serve env now finish ws user_id username frames
      | Inr ending \<Rightarrow> ret ending))"

end
