(* ===== verification/Integrity.thy ===== *)
theory Integrity
  imports Routes ChatEndpoint
begin

text \<open>
  What the services and routes do to the consistency of the database. \<open>db_keeps R m\<close> says that
  a piece of work \<open>m\<close> in a session keeps a property \<open>R\<close> of the tables: of the stored ones whatever
  happens, and of those the session sees when it returns. A handler that runs in a session of its
  own then leaves a session that sees exactly the stored tables, and these have \<open>R\<close>.
\<close>

section \<open>Work in a session\<close>

definition db_keeps ::
  "('d \<Rightarrow> db_tables) \<Rightarrow> ('d \<Rightarrow> db_tables) \<Rightarrow> (db_tables \<Rightarrow> bool) \<Rightarrow> ('d, 'a) eff \<Rightarrow> bool" where
  "db_keeps view stored R m \<longleftrightarrow>
     (\<forall>d. R (view d) \<longrightarrow> R (stored d) \<longrightarrow> R (stored (snd (m d))) \<and> (\<not> isl (fst (m d)) \<longrightarrow> R (view (snd (m d)))))"

definition db_ok :: "('d \<Rightarrow> db_tables) \<Rightarrow> ('d \<Rightarrow> db_tables) \<Rightarrow> (db_tables \<Rightarrow> bool) \<Rightarrow> 'd \<Rightarrow> bool" where
  "db_ok view stored R d \<longleftrightarrow> view d = stored d \<and> R (stored d)"

text \<open>Insertions under the constraints of the tables, and deletions, keep \<open>R\<close>.\<close>

definition grows :: "(db_tables \<Rightarrow> bool) \<Rightarrow> new_row \<Rightarrow> bool" where
  "grows R x \<longleftrightarrow> (\<forall>T i t. R T \<longrightarrow> constraints_ok T x \<longrightarrow> i \<notin> ids T x \<longrightarrow> R (insert_row (fill i t x) T))"

lemma db_keepsI:
  assumes "\<And>d r d'. m d = (r, d') \<Longrightarrow> R (view d) \<Longrightarrow> R (stored d) \<Longrightarrow> R (stored d') \<and> (\<not> isl r \<longrightarrow> R (view d'))"
  shows "db_keeps view stored R m"
  using assms by (metis db_keeps_def prod.collapse)

lemma db_keepsD:
  assumes "db_keeps view stored R m" "m d = (r, d')" "R (view d)" "R (stored d)"
  shows "R (stored d')" "r = Inr x \<Longrightarrow> R (view d')"
  using assms by (force simp: db_keeps_def)+

named_theorems db_intros \<open>compositional rules for work that keeps the tables consistent\<close>

lemma db_keeps_ret [db_intros]: "db_keeps view stored R (ret x)"
  by (simp add: db_keeps_def)

lemma db_keeps_raise [db_intros]: "db_keeps view stored R (raise e)"
  by (simp add: db_keeps_def)

lemma db_keeps_liftX [db_intros]: "db_keeps view stored R (liftX r)"
  by (simp add: db_keeps_def)

lemma db_keeps_bindE [db_intros]:
  assumes "db_keeps view stored R m" and "\<And>x. db_keeps view stored R (f x)"
  shows "db_keeps view stored R (bindE m f)"
proof (rule db_keepsI)
  fix d r d' assume run: "bindE m f d = (r, d')" and R: "R (view d)" "R (stored d)"
  obtain r1 d1 where m: "m d = (r1, d1)" by fastforce
  note D = db_keepsD [OF assms(1) m R]
  show "R (stored d') \<and> (\<not> isl r \<longrightarrow> R (view d'))"
  proof (cases r1)
    case (Inl e)
    with run m D(1) show ?thesis by (auto simp: bindE_def)
  next
    case (Inr x)
    with run m have "f x d1 = (r, d')" by (simp add: bindE_def)
    from db_keepsD [OF assms(2) this D(2) [OF Inr] D(1)] show ?thesis by (cases r) auto
  qed
qed

lemma db_keeps_thenE [db_intros]:
  "db_keeps view stored R m \<Longrightarrow> db_keeps view stored R n \<Longrightarrow> db_keeps view stored R (thenE m n)"
  by (simp add: thenE_def db_keeps_bindE)

lemma db_keeps_if [db_intros]:
  "(b \<Longrightarrow> db_keeps view stored R m) \<Longrightarrow> (\<not> b \<Longrightarrow> db_keeps view stored R n) \<Longrightarrow> db_keeps view stored R (if b then m else n)"
  by simp

lemma db_keeps_option [db_intros]:
  "db_keeps view stored R m \<Longrightarrow> (\<And>x. db_keeps view stored R (f x)) \<Longrightarrow>
   db_keeps view stored R (case x of None \<Rightarrow> m | Some x \<Rightarrow> f x)"
  by (simp split: option.split)

context database begin

lemma db_keeps_execute [db_intros]: "db_keeps view stored R (db_execute api q)"
proof (rule db_keepsI)
  fix d r d' assume "db_execute api q d = (r, d')" "R (view d)" "R (stored d)"
  then show "R (stored d') \<and> (\<not> isl r \<longrightarrow> R (view d'))" by (cases r) (auto dest: select select_fail)
qed

lemma db_keeps_select_as [db_intros]: "db_keeps view stored R (select_as api dest wrap q)"
  unfolding select_as_def by (intro db_intros)

lemma db_keeps_add [db_intros]:
  assumes "grows R x" shows "db_keeps view stored R (db_add api x)"
proof (rule db_keepsI)
  fix d r d' assume "db_add api x d = (r, d')" "R (view d)" "R (stored d)"
  with assms show "R (stored d') \<and> (\<not> isl r \<longrightarrow> R (view d'))"
    by (cases r) (auto simp: grows_def dest: add add_fail)
qed

lemma db_keeps_add_as [db_intros]: "grows R x \<Longrightarrow> db_keeps view stored R (add_as api dest x)"
  unfolding add_as_def by (intro db_intros)

lemma db_keeps_delete [db_intros]:
  assumes "\<And>T. R T \<Longrightarrow> R (delete_row row T)" shows "db_keeps view stored R (db_delete api row)"
proof (rule db_keepsI)
  fix d r d' assume "db_delete api row d = (r, d')" "R (view d)" "R (stored d)"
  with assms show "R (stored d') \<and> (\<not> isl r \<longrightarrow> R (view d'))" by (cases r) (auto dest: delete delete_fail)
qed

lemma db_keeps_commit [db_intros]: "db_keeps view stored R (db_commit api)"
proof (rule db_keepsI)
  fix d r d' assume "db_commit api d = (r, d')" "R (view d)" "R (stored d)"
  then show "R (stored d') \<and> (\<not> isl r \<longrightarrow> R (view d'))" by (cases r) (auto dest: commit commit_fail)
qed

lemma db_ok_rollback: "R (stored d) \<Longrightarrow> db_ok view stored R (snd (db_rollback api d))"
  using rollback by (simp add: db_ok_def)

lemma db_ok_in_session:
  assumes "db_keeps view stored R m" "db_ok view stored R d"
  shows "db_ok view stored R (snd (in_session api m d))"
proof -
  obtain r d1 where "m d = (r, d1)" by fastforce
  with assms db_keepsD(1) [OF assms(1) this] show ?thesis
    by (simp add: in_session_def db_ok_def db_ok_rollback [unfolded db_ok_def])
qed

lemma db_ok_with_session:
  assumes "db_keeps view stored R m" "db_ok view stored R d"
  shows "db_ok view stored R (snd (with_session api m d))"
proof -
  obtain r d1 where m: "m d = (r, d1)" by fastforce
  have ok: "R (stored d1)" "\<And>x. r = Inr x \<Longrightarrow> R (view d1)"
    using db_keepsD [OF assms(1) m] assms(2) by (auto simp: db_ok_def)
  obtain c d2 where c: "db_commit api d1 = (c, d2)" by fastforce
  show ?thesis
  proof (cases r)
    case (Inl e)
    with m ok show ?thesis by (simp add: with_session_def db_ok_rollback)
  next
    case (Inr x)
    with m ok c show ?thesis
      using commit [of d1 "()" d2] commit_fail [of d1 _ d2] rollback [of d2]
      by (cases c) (auto simp: with_session_def db_ok_def)
  qed
qed

section \<open>The services\<close>

lemma db_keeps_get_room [db_intros]: "db_keeps view stored R (rs_get_room api rid)"
  unfolding rs_get_room_def by (intro db_intros)

lemma db_keeps_is_member [db_intros]: "db_keeps view stored R (rs_is_member api rid uid)"
  unfolding rs_is_member_def by (intro db_intros)

lemma db_keeps_join [db_intros]: "grows R (NewMember rid uid MEMBER) \<Longrightarrow> db_keeps view stored R (rs_join_room api rid uid)"
  unfolding rs_join_room_def by (intro db_intros)

lemma db_keeps_leave [db_intros]:
  "(\<And>m T. R T \<Longrightarrow> R (delete_row (MemberRow m) T)) \<Longrightarrow> db_keeps view stored R (rs_leave_room api rid uid)"
  unfolding rs_leave_room_def by (intro db_intros)

lemma db_keeps_create [db_intros]:
  "(\<And>n d p c. grows R (NewRoom n d p c)) \<Longrightarrow> (\<And>r u. grows R (NewMember r u ADMIN)) \<Longrightarrow>
   db_keeps view stored R (rs_create_room api req uid)"
  unfolding rs_create_room_def by (intro db_intros)

lemma db_keeps_room_responses [db_intros]: "db_keeps view stored R (room_responses api rs)"
  by (induction rs) (simp_all only: room_responses.simps db_keeps_bindE db_keeps_select_as db_keeps_ret db_intros)

lemma db_keeps_user_rooms [db_intros]: "db_keeps view stored R (rs_list_user_rooms api uid)"
  unfolding rs_list_user_rooms_def by (intro db_intros)

lemma db_keeps_public_rooms [db_intros]: "db_keeps view stored R (rs_list_public_rooms api)"
  unfolding rs_list_public_rooms_def by (intro db_intros)

lemma db_keeps_members [db_intros]: "db_keeps view stored R (rs_get_room_members api iso_f rid)"
  unfolding rs_get_room_members_def by (intro db_intros)

lemma db_keeps_insert_message [db_intros]:
  "(\<And>k. grows R (NewMessage rid sender content mtype k)) \<Longrightarrow> db_keeps view stored R (ms_insert api rid sender content mtype key)"
  unfolding ms_insert_def by (intro db_intros)

lemma db_keeps_save_message [db_intros]:
  "(\<And>k. grows R (NewMessage rid (Some sender) content mtype k)) \<Longrightarrow>
   db_keeps view stored R (ms_save_message api rid sender content mtype key)"
  unfolding ms_save_message_def by (intro db_intros)

lemma db_keeps_history [db_intros]: "db_keeps view stored R (ms_get_room_messages api iso_f from_f rid n before)"
  unfolding ms_get_room_messages_def Let_def by (intro db_intros)

lemma db_keeps_register [db_intros]:
  "(\<And>n e h d. grows R (NewUser n e h d)) \<Longrightarrow> db_keeps view stored R (as_register api bc salt req)"
  unfolding as_register_def by (intro db_intros)

lemma db_keeps_login [db_intros]: "db_keeps view stored R (as_login api bc jw cfg now req)"
  unfolding as_login_def by (intro db_intros)

lemma db_keeps_find_active [db_intros]: "db_keeps view stored R (find_active api i)"
  unfolding find_active_def by (intro db_intros)

lemma db_keeps_refresh [db_intros]: "db_keeps view stored R (as_refresh_token api jw cfg now token)"
  unfolding as_refresh_token_def by (intro db_intros)

lemma db_keeps_current_user [db_intros]: "db_keeps view stored R (get_current_user api jw cfg now h)"
  unfolding get_current_user_def Let_def by (intro db_intros)

section \<open>The routes\<close>

lemma db_ok_in_session_of:
  "db_keeps view stored R m \<Longrightarrow> keeps (db_ok view stored R) (in_session api m)"
  by (simp add: keeps_def db_ok_in_session)

lemma db_ok_with_session_of [keeps_intros]:
  "db_keeps view stored R m \<Longrightarrow> keeps (db_ok view stored R) (with_session api m)"
  by (simp add: keeps_def db_ok_with_session)

lemma keeps_current_user [keeps_intros]:
  "(\<And>u. db_keeps view stored R (m u)) \<Longrightarrow> keeps (db_ok view stored R) (as_current_user api jw cfg now hdr m)"
  unfolding as_current_user_def by (intro keeps_intros db_intros)

lemma keeps_health: "keeps (db_ok view stored R) (health_check api cfg exn_str ping)"
proof (rule keepsI)
  fix d assume "db_ok view stored R d"
  with db_ok_in_session_of [OF db_keeps_execute, of R "\<lambda>T. [CountRow 1]"]
  have "db_ok view stored R (snd (in_session api (db_execute api (\<lambda>T. [CountRow 1])) d))" by (rule keepsD)
  then show "db_ok view stored R (snd (health_check api cfg exn_str ping d))"
    by (auto simp: health_check_def Let_def split: prod.split)
qed

end

text \<open>Properties of tables that every insertion allowed by the constraints and every deletion keeps.\<close>

definition closed :: "(db_tables \<Rightarrow> bool) \<Rightarrow> bool" where
  "closed R \<longleftrightarrow> (\<forall>x. grows R x) \<and> (\<forall>row T. R T \<longrightarrow> R (delete_row row T))"

lemma closed_tables_ok: "closed tables_ok"
  by (simp add: closed_def grows_def tables_ok_insert tables_ok_delete)

text \<open>Consistent tables whose memberships are all in \<open>H\<close>: kept by everything but a new membership.\<close>

definition tables_within :: "(uuid \<times> uuid) set \<Rightarrow> db_tables \<Rightarrow> bool" where
  "tables_within H T \<longleftrightarrow> tables_ok T \<and> memberships T \<subseteq> H"

lemma grows_message: "grows (tables_within H) (NewMessage rid sender content mtype k)"
  using tables_ok_insert [of _ "NewMessage rid sender content mtype k"]
  by (auto simp: grows_def tables_within_def memberships_def simp del: constraints_ok.simps)

context database begin

lemma keeps_routes:
  assumes "closed R"
  shows "keeps (db_ok view stored R) (route_register api bc email_str salt body)"
    and "keeps (db_ok view stored R) (route_login api bc jw cfg now login)"
    and "keeps (db_ok view stored R) (route_refresh api jw cfg now token)"
    and "keeps (db_ok view stored R) (route_get_me api jw cfg now hdr)"
    and "keeps (db_ok view stored R) (route_create_room api jw cfg now hdr req)"
    and "keeps (db_ok view stored R) (route_list_rooms api jw cfg now hdr mine)"
    and "keeps (db_ok view stored R) (route_get_room api jw cfg iso_f now hdr rid)"
    and "keeps (db_ok view stored R) (route_join_room api jw cfg now hdr rid)"
    and "keeps (db_ok view stored R) (route_leave_room api jw cfg now hdr rid)"
    and "keeps (db_ok view stored R) (route_get_room_members api jw cfg iso_f now hdr rid)"
    and "keeps (db_ok view stored R) (route_get_messages api jw cfg iso_f from_f now hdr rid limit before)"
proof -
  have R: "grows R x" "R T \<Longrightarrow> R (delete_row row T)" for x T row using assms by (auto simp: closed_def)
  note rules = keeps_intros db_intros R
  show "keeps (db_ok view stored R) (route_register api bc email_str salt body)"
    unfolding route_register_def by (intro rules)
  show "keeps (db_ok view stored R) (route_login api bc jw cfg now login)"
    unfolding route_login_def by (intro rules)
  show "keeps (db_ok view stored R) (route_refresh api jw cfg now token)"
    unfolding route_refresh_def by (intro rules)
  show "keeps (db_ok view stored R) (route_get_me api jw cfg now hdr)"
    unfolding route_get_me_def by (intro rules)
  show "keeps (db_ok view stored R) (route_create_room api jw cfg now hdr req)"
    unfolding route_create_room_def by (intro rules)
  show "keeps (db_ok view stored R) (route_list_rooms api jw cfg now hdr mine)"
    unfolding route_list_rooms_def by (intro rules)
  show "keeps (db_ok view stored R) (route_get_room api jw cfg iso_f now hdr rid)"
    unfolding route_get_room_def by (intro rules)
  show "keeps (db_ok view stored R) (route_join_room api jw cfg now hdr rid)"
    unfolding route_join_room_def by (intro rules)
  show "keeps (db_ok view stored R) (route_leave_room api jw cfg now hdr rid)"
    unfolding route_leave_room_def by (intro rules)
  show "keeps (db_ok view stored R) (route_get_room_members api jw cfg iso_f now hdr rid)"
    unfolding route_get_room_members_def by (intro rules)
  show "keeps (db_ok view stored R) (route_get_messages api jw cfg iso_f from_f now hdr rid limit before)"
    unfolding route_get_messages_def by (intro rules)
qed

text \<open>The membership check, also when the database may fail.\<close>

lemma select_as_Inr:
  assumes "select_as api dest wrap q d = (Inr xs, d')" "\<And>x. dest (wrap x) = Some x" shows "xs = q (view d)"
proof -
  from assms(1) obtain rows d1 where "db_execute api (\<lambda>T. map wrap (q T)) d = (Inr rows, d1)"
    and xs: "(case those (map dest rows) of None \<Rightarrow> raise (TypeError ''row'') | Some xs \<Rightarrow> ret xs) d1 = (Inr xs, d')"
    unfolding select_as_def by (rule bindE_InrE)
  then have "rows = map wrap (q (view d))" by (auto dest: select)
  with xs those_map_dest [of dest wrap "q (view d)", OF assms(2)] show ?thesis by simp
qed

lemma is_member_true:
  assumes "rs_is_member api rid uid d = (Inr True, d')" shows "(rid, uid) \<in> memberships (view d)"
proof -
  from assms obtain rows d1 where q: "select_members api (memberships_of rid uid) d = (Inr rows, d1)"
    and found: "bindE (liftX (scalar_one_or_none rows)) (\<lambda>member. ret (member \<noteq> None)) d1 = (Inr True, d')"
    unfolding rs_is_member_def by (rule bindE_InrE)
  have "rows = memberships_of rid uid (view d)" by (rule select_as_Inr [OF q]) simp
  moreover from found have "rows \<noteq> []" by (auto simp: bindE_def)
  ultimately obtain m where "m \<in> set (memberships_of rid uid (view d))" by (metis list.set_intros(1) neq_Nil_conv)
  then show ?thesis by (auto simp: memberships_of_def memberships_def)
qed

end

end
