(* ===== verification/App.thy ===== *)
theory App
  imports Broker_Props Database Config
begin

text \<open>
  The life of an instance (\<open>app/main.py\<close>, with \<open>init_db\<close> and \<open>close_db\<close> of
  \<open>app/db/session.py\<close>): what the lifespan handler sets up before the first request, what it
  tears down at the end, and the root endpoint. SQLAlchemy's engine and the shared Redis client
  are parameters. The handler is a context manager: \<open>serving\<close> stands for everything between the
  two halves, and an exception there is logged and passed on.
\<close>

section \<open>The engine\<close>

record 'd engine_api =
  en_create_all :: "('d, unit) eff"
  en_dispose :: "('d, unit) eff"

definition init_db :: "'d engine_api \<Rightarrow> ('d, unit) eff" where
  "init_db eng = thenE (en_create_all eng) (ret ())"

definition close_db :: "'d engine_api \<Rightarrow> ('d, unit) eff" where
  "close_db eng = thenE (en_dispose eng) (ret ())"

section \<open>The lifespan\<close>

text \<open>An instance is its connection manager and its broker; the services hold no state of their own.\<close>

type_synonym ('w, 'p) app_state = "'w conn_manager \<times> ('p, 'w conn_manager) redis_broker"

definition lifespan_startup :: "'d engine_api \<Rightarrow> 'p pubsub_api \<Rightarrow> ('d, ('w, 'p) app_state) eff" where
  "lifespan_startup eng api =
     thenE (init_db eng) (\<lambda>d.
       (case rb_connect api redis_broker_init of
          (Inr _, b) \<Rightarrow> (Inr (conn_manager_init, b), d)
        | (Inl e, b) \<Rightarrow> (Inl e, d)))"

definition lifespan_shutdown ::
  "'d engine_api \<Rightarrow> 'p pubsub_api \<Rightarrow> ('r, unit) eff \<Rightarrow> (('p, 'm) redis_broker \<times> 'r \<times> 'd, unit) eff" where
  "lifespan_shutdown eng api redis_close =
     thenE (onE fst apfst (rb_disconnect api))
     (thenE (onE (\<lambda>s. fst (snd s)) (\<lambda>f. apsnd (apfst f)) redis_close)
     (onE (\<lambda>s. snd (snd s)) (\<lambda>f. apsnd (apsnd f)) (close_db eng)))"

definition lifespan ::
  "'d engine_api \<Rightarrow> 'p pubsub_api \<Rightarrow> ('r, unit) eff \<Rightarrow> (('w, 'p) app_state \<Rightarrow> ('r \<times> 'd, ('w, 'p) app_state) eff) \<Rightarrow>
   ('r \<times> 'd, ('p, 'w conn_manager) redis_broker) eff" where
  "lifespan eng api redis_close serving =
     bindE (onE snd apsnd (lifespan_startup eng api)) (\<lambda>app.
     bindE (serving app) (\<lambda>(cm, b) s.
       (case lifespan_shutdown eng api redis_close (b, s) of
          (Inr _, b', s') \<Rightarrow> (Inr b', s')
        | (Inl e, b', s') \<Rightarrow> (Inl e, s'))))"

definition root :: "settings \<Rightarrow> json" where
  "root cfg = JObj [(''name'', JStr (APP_NAME cfg)), (''version'', JStr (APP_VERSION cfg)), (''docs'', JStr ''/docs''),
     (''client'', JStr ''/client/index.html''), (''health'', JStr ''/health'')]"

section \<open>Starting and stopping\<close>

lemma startup_Inr:
  assumes "lifespan_startup eng api d = (Inr (cm, b), d')"
  obtains "cm = conn_manager_init" "rb_connect api redis_broker_init = (Inr (), b)" "en_create_all eng d = (Inr (), d')"
proof -
  from assms obtain d1 where "init_db eng d = (Inr (), d1)"
    and *: "(case rb_connect api redis_broker_init of
               (Inr _, b) \<Rightarrow> (Inr (conn_manager_init, b), d1) | (Inl e, b) \<Rightarrow> (Inl e, d1)) = (Inr (cm, b), d')"
    unfolding lifespan_startup_def by (rule thenE_InrE) simp
  then have "en_create_all eng d = (Inr (), d1)" unfolding init_db_def by (auto elim: thenE_InrE)
  moreover from * have "cm = conn_manager_init" "d1 = d'" "rb_connect api redis_broker_init = (Inr (), b)"
    by (cases "rb_connect api redis_broker_init :: _ \<times> ('b, 'a conn_manager) redis_broker";
        cases "fst (rb_connect api redis_broker_init :: _ \<times> ('b, 'a conn_manager) redis_broker)"; simp)+
  ultimately show thesis using that by simp
qed

lemma connect_Inr:
  assumes "rb_connect api redis_broker_init = (Inr (), b)"
  obtains p where "ps_subscribe api ''system:dummy'' (ps_new api) = (Inr (), p)"
    and "b = redis_broker_init\<lparr>rb_redis := True, rb_pubsub := Some p, rb_running := True, rb_listener := Some Running,
               rb_reconnect_delay := 1\<rparr>"
  using assms
  by (cases "ps_subscribe api ''system:dummy'' (ps_new api)")
    (auto simp: rb_connect_def thenE_def bindE_def on_pubsub_def redis_broker_init_def split: sum.splits)

definition stopped :: "('p, 'm) redis_broker \<Rightarrow> bool" where
  "stopped b \<longleftrightarrow> \<not> rb_running b \<and> rb_listener b \<noteq> Some Running"

lemma keeps_stopped: "keeps stopped (on_pubsub m)"
  by (simp add: keeps_def stopped_def on_pubsub_def split: option.split prod.split)

lemma disconnect_stops:
  assumes "rb_disconnect api b = (res, b')" shows "stopped b'"
proof -
  let ?c = "b\<lparr>rb_running := False, rb_listener := map_option cancel_task (rb_listener b)\<rparr>"
  have "cancel_task t \<noteq> Running" for t by (cases t) auto
  then have "stopped ?c" by (cases "rb_listener b") (auto simp: stopped_def)
  moreover have "keeps stopped (thenE (on_pubsub (ps_unsubscribe api None)) (on_pubsub (ps_close api)))"
    by (intro keeps_intros keeps_stopped)
  ultimately show ?thesis
    using assms keepsD_eq by (fastforce simp: rb_disconnect_def Let_def split: if_splits)
qed

lemma shutdown_stops:
  assumes "lifespan_shutdown eng api redis_close (b, s) = (res, b', s')" shows "stopped b'"
proof -
  let ?stop = "onE fst apfst (rb_disconnect api)"
  let ?rest = "thenE (onE (\<lambda>s. fst (snd s)) (\<lambda>f. apsnd (apfst f)) redis_close)
     (onE (\<lambda>s. snd (snd s)) (\<lambda>f. apsnd (apsnd f)) (close_db eng))"
  obtain out b1 where out: "?stop (b, s) = (out, b1, s)" "stopped b1"
    using disconnect_stops [of api b] by (cases "rb_disconnect api b") (simp add: onE_def)
  have "keeps (\<lambda>x. stopped (fst x)) (onE (\<lambda>s. fst (snd s)) (\<lambda>f. apsnd (apfst f)) redis_close)"
    "keeps (\<lambda>x. stopped (fst x)) (onE (\<lambda>s. snd (snd s)) (\<lambda>f. apsnd (apsnd f)) (close_db eng))"
    by (auto simp: keeps_def onE_def split: prod.split)
  then have rest: "keeps (\<lambda>x. stopped (fst x)) ?rest" by (rule keeps_thenE)
  show ?thesis
  proof (cases out)
    case (Inl e)
    with out have "thenE ?stop ?rest (b, s) = (Inl e, b1, s)" by (intro thenE_Inl) simp
    with assms out(2) show ?thesis by (simp add: lifespan_shutdown_def)
  next
    case (Inr u)
    with out have "thenE ?stop ?rest (b, s) = ?rest (b1, s)" by (intro thenE_Inr) simp
    with assms have "?rest (b1, s) = (res, b', s')" by (simp add: lifespan_shutdown_def)
    from keepsD_eq [OF rest _ this] out(2) show ?thesis by simp
  qed
qed

text \<open>
  C38. An instance is served only after start-up, and start-up leaves it ready: no connections,
  a running listener, the placeholder channel as its only subscription and no handlers. When
  start-up raises nothing is served; when serving raises, the exception is passed on and
  shutdown is skipped; a lifespan that ends regularly leaves the listener stopped.
\<close>

theorem lifespan_exact:
  fixes eng :: "'d engine_api" and serving :: "('w, 'p) app_state \<Rightarrow> ('r \<times> 'd, ('w, 'p) app_state) eff"
  assumes "pubsub api channels"
  shows "case lifespan_startup eng api d of
      (Inl e, d1) \<Rightarrow> lifespan eng api redis_close serving (r, d) = (Inl e, r, d1)
    | (Inr (cm, b), d1) \<Rightarrow>
        cm = conn_manager_init \<and> listening b \<and> subscribed channels b = {''system:dummy''} \<and> rb_callbacks b = [] \<and>
        (case serving (cm, b) (r, d1) of
           (Inl e, s1) \<Rightarrow> lifespan eng api redis_close serving (r, d) = (Inl e, s1)
         | (Inr (cm', b'), s1) \<Rightarrow>
             (\<forall>b'' s2. lifespan eng api redis_close serving (r, d) = (Inr b'', s2) \<longrightarrow> stopped b''))"
proof (cases "lifespan_startup eng api d :: (exn + ('w, 'p) app_state) \<times> 'd")
  case (Pair res d1)
  show ?thesis
  proof (cases res)
    case (Inl e)
    with Pair show ?thesis by (simp add: lifespan_def onE_def bindE_def)
  next
    case (Inr app)
    obtain cm b where app: "app = (cm, b)" by (cases app)
    with Pair Inr have start: "lifespan_startup eng api d = (Inr (cm, b), d1)" by simp
    obtain p where p: "ps_subscribe api ''system:dummy'' (ps_new api) = (Inr (), p)"
      "b = redis_broker_init\<lparr>rb_redis := True, rb_pubsub := Some p, rb_running := True, rb_listener := Some Running,
               rb_reconnect_delay := 1\<rparr>"
      by (rule startup_Inr [OF start]) (rule connect_Inr)
    have "cm = conn_manager_init" by (rule startup_Inr [OF start])
    then have ready: "cm = conn_manager_init \<and> listening b \<and> subscribed channels b = {''system:dummy''} \<and> rb_callbacks b = []"
      using p pubsub.channels_subscribe [OF assms p(1)] pubsub.channels_new [OF assms]
      by (simp add: listening_def subscribed_def redis_broker_init_def)
    have run: "lifespan eng api redis_close serving (r, d) = bindE (serving (cm, b)) (\<lambda>(cm, b) s.
       (case lifespan_shutdown eng api redis_close (b, s) of
          (Inr _, b', s') \<Rightarrow> (Inr b', s') | (Inl e, b', s') \<Rightarrow> (Inl e, s'))) (r, d1)"
      by (simp add: lifespan_def onE_def bindE_def start)
    obtain out s1 where out: "serving (cm, b) (r, d1) = (out, s1)" by (rule prod.exhaust)
    show ?thesis
    proof (cases out)
      case (Inl e)
      with out ready start show ?thesis by (simp add: run bindE_def)
    next
      case (Inr app')
      obtain cm' b' where app': "app' = (cm', b')" by (cases app')
      have "stopped b''" if "lifespan eng api redis_close serving (r, d) = (Inr b'', s2)" for b'' s2
      proof -
        obtain out' c s3 where down: "lifespan_shutdown eng api redis_close (b', s1) = (out', c, s3)" by (rule prod_cases3)
        with that out Inr app' have "c = b''" by (cases out') (simp_all add: run bindE_def)
        with shutdown_stops [OF down] show ?thesis by simp
      qed
      with out ready start Inr app' show ?thesis by simp
    qed
  qed
qed

theorem lifespan_exact_witness:
  "fst (lifespan \<lparr>en_create_all = ret (), en_dispose = ret ()\<rparr> list_pubsub (ret ())
     (\<lambda>app :: (unit, string list) app_state. ret app) ((), ())) \<noteq> Inl CancelledError
   \<and> (case lifespan_startup \<lparr>en_create_all = ret (), en_dispose = ret ()\<rparr> list_pubsub () of
        (Inl e, d1) \<Rightarrow> False
      | (Inr (cm :: unit conn_manager, b), d1) \<Rightarrow> listening b \<and> subscribed set b = {''system:dummy''})"
  using lifespan_exact [OF list_pubsub.pubsub_axioms, where eng = "\<lparr>en_create_all = ret (), en_dispose = ret ()\<rparr>"
      and d = "()" and redis_close = "ret ()" and r = "()" and serving = "\<lambda>app :: (unit, string list) app_state. ret app"]
  by (simp add: lifespan_startup_def lifespan_def init_db_def rb_connect_def on_pubsub_def redis_broker_init_def list_pubsub_def
      thenE_def bindE_def onE_def lifespan_shutdown_def rb_disconnect_def close_db_def Let_def)

end
