(* ===== verification/Chat_Props.thy ===== *)
theory Chat_Props
  imports ChatEndpoint Auth_Props
begin

text \<open>
  Properties of the WebSocket endpoint that span the components: sessions drive the connection
  manager only through its own steps, a message is stored, published once and delivered on every
  instance to the connected members of its room, joining is reserved to members, and the ways in
  which a session departs from what it is meant to do.
\<close>

section \<open>Sessions and the connection manager\<close>

definition cm_ok :: "('w, 'p, 'r, 'd) env \<Rightarrow> ('w, 'p, 'r, 'd) world \<Rightarrow> bool" where
  "cm_ok env w \<longleftrightarrow> cm_reach (e_ws env) (e_cfg env) (w_cm w)"

lemma keeps_on_redis [keeps_intros]: "keeps (cm_ok env) (on_redis m)"
  by (auto simp: keeps_def on_redis_def onE_def cm_ok_def split: prod.split)

lemma keeps_on_db [keeps_intros]: "keeps (cm_ok env) (on_db m)"
  by (auto simp: keeps_def on_db_def onE_def cm_ok_def split: prod.split)

lemma keeps_on_broker [keeps_intros]: "keeps (cm_ok env) (on_broker m)"
  by (auto simp: keeps_def on_broker_def onE_def cm_ok_def split: prod.split)

lemma keeps_publish [keeps_intros]: "keeps (cm_ok env) (broker_publish env' now ch m)"
  by (rule keepsI) (simp only: broker_publish_def keepsD [OF keeps_on_redis])

lemma keeps_on_cm:
  assumes "\<And>st. cm_step (e_ws env) (e_cfg env) st (f st)" shows "keeps (cm_ok env) (on_cm f)"
  using assms by (auto simp: keeps_def on_cm_def cm_ok_def intro: reach_step)

lemma keeps_tell [keeps_intros]: "keeps (cm_ok env) (tell uid m)"
  unfolding tell_def by (rule keeps_on_cm) (rule step_send)

lemma keeps_connect [keeps_intros]:
  "keeps (cm_ok env) (onE w_cm w_cm_update (connect (e_ws env) (e_cfg env) ws uid name now))"
proof (rule keepsI)
  fix w assume "cm_ok env w"
  then have "cm_reach (e_ws env) (e_cfg env) (snd (connect (e_ws env) (e_cfg env) ws uid name now (w_cm w)))"
    unfolding cm_ok_def by (rule reach_step [OF _ step_connect])
  then show "cm_ok env (snd (onE w_cm w_cm_update (connect (e_ws env) (e_cfg env) ws uid name now) w))"
    by (simp add: onE_def cm_ok_def split_beta)
qed

lemma keeps_leave [keeps_intros]: "keeps (cm_ok env) (onE w_cm w_cm_update (leave_json uid room_id))"
proof (rule keepsI)
  fix w assume ok: "cm_ok env w"
  have "cm_reach (e_ws env) (e_cfg env) (leave_room uid rid (w_cm w))" for rid
    using ok unfolding cm_ok_def by (rule reach_step [OF _ step_leave])
  with ok show "cm_ok env (snd (onE w_cm w_cm_update (leave_json uid room_id) w))"
    by (cases room_id) (auto simp: onE_def leave_json_def cm_ok_def)
qed

lemma keeps_join_cm [keeps_intros]: "keeps (cm_ok env) (on_cm (join_room uid rid))"
  by (rule keeps_on_cm) (rule step_join)

lemma keeps_disconnect [keeps_intros]: "keeps (cm_ok env) (on_cm (disconnect (e_ws env) uid))"
  by (rule keeps_on_cm) (rule step_disconnect)

lemma keeps_activity [keeps_intros]: "keeps (cm_ok env) (on_cm (upd_conn c (update_activity now)))"
  by (rule keeps_on_cm) (rule step_activity)

lemma keeps_join [keeps_intros]: "keeps (cm_ok env) (handle_join_room env now uid name ed)"
  unfolding handle_join_room_def Let_def by (intro keeps_intros)

lemma keeps_leave_room [keeps_intros]: "keeps (cm_ok env) (handle_leave_room env now uid name ed)"
  unfolding handle_leave_room_def by (intro keeps_intros)

lemma keeps_message [keeps_intros]: "keeps (cm_ok env) (handle_message env now uid name ed)"
  unfolding handle_message_def by (intro keeps_intros)

lemma keeps_typing [keeps_intros]: "keeps (cm_ok env) (handle_typing env now uid name ed b)"
  unfolding handle_typing_def by (intro keeps_intros)

lemma keeps_dispatch [keeps_intros]: "keeps (cm_ok env) (dispatch_event env now uid name ev ed)"
  unfolding dispatch_event_def by (intro keeps_intros)

lemma keeps_rate_checked [keeps_intros]:
  assumes "keeps (cm_ok env) body" shows "keeps (cm_ok env) (rate_checked env now uid body)"
proof (rule keepsI)
  fix w assume "cm_ok env w"
  let ?m = "on_redis (check_ws_rate_limit (e_redis env) (e_float_str env) now uid (WS_RATE_LIMIT_PER_MINUTE (e_cfg env)) 60)"
  have "cm_ok env (snd (?m w))" by (rule keepsD [OF keeps_on_redis \<open>cm_ok env w\<close>])
  then show "cm_ok env (snd (rate_checked env now uid body w))"
    using keepsD [OF assms] keepsD [OF keeps_tell]
    by (cases "?m w") (auto simp: rate_checked_def split: sum.split)
qed

lemma keeps_handle_frame [keeps_intros]: "keeps (cm_ok env) (handle_frame env c now uid name raw)"
  unfolding handle_frame_def by (cases "json_loads raw") (auto intro!: keeps_intros)

lemma keeps_chat_loop [keeps_intros]: "keeps (cm_ok env) (chat_loop env c uid name frames)"
proof (induction frames)
  case Nil
  show ?case by (simp only: chat_loop.simps keeps_raise)
next
  case (Cons f frames)
  then show ?case by (cases f) (simp only: chat_loop.simps keeps_thenE keeps_handle_frame)
qed

lemma keeps_cleanup [keeps_intros]: "keeps (cm_ok env) (session_cleanup env c now uid name)"
proof (rule keepsI)
  fix w assume ok: "cm_ok env w"
  let ?m = "\<lambda>rs. thenE (forE rs (\<lambda>room_id.
          thenE (on_redis (set_offline (e_redis env) now room_id uid))
            (catchE (broker_publish env now (''room:'' @ room_id)
                       (envelope ''presence'' (presence_update (JStr room_id) uid name ''offline''))) (\<lambda>e. ret ()))))
       (on_cm (disconnect (e_ws env) uid))"
  have "keeps (cm_ok env) (?m rs)" for rs by (intro keeps_intros)
  from keepsD [OF this ok] show "cm_ok env (snd (session_cleanup env c now uid name w))"
    unfolding session_cleanup_def .
qed

lemma keeps_start [keeps_intros]: "keeps (cm_ok env) (session_start env now ws uid name)"
  unfolding session_start_def by (intro keeps_intros)

lemma keeps_serve [keeps_intros]: "keeps (cm_ok env) (serve env now finish ws uid name frames)"
  unfolding serve_def by (intro keeps_intros)

lemma keeps_reject [keeps_intros]: "keeps (cm_ok env) (reject env ws reason)"
  by (auto simp: keeps_def reject_def split: prod.split sum.split)

lemma keeps_authenticate [keeps_intros]: "keeps (cm_ok env) (authenticate env now ws token)"
  unfolding authenticate_def Let_def by (auto split: option.split intro!: keeps_intros)

lemma keeps_websocket_chat: "keeps (cm_ok env) (websocket_chat env now finish ws token frames)"
  unfolding websocket_chat_def by (auto split: sum.split intro!: keeps_intros)

text \<open>An instance on the stand-ins of the libraries, for concrete runs.\<close>

type_synonym sample = "(bool \<times> wire list, string list, redis_store, mem_db_state) world"

definition sample_env :: "(bool \<times> wire list, string list, redis_store, mem_db_state) env" where
  "sample_env = \<lparr>e_ws = list_ws, e_pubsub = list_pubsub, e_redis = mem_redis, e_db = mem_db, e_jwt = plain_jwt,
     e_cfg = default_settings, e_float_str = fraction_str, e_exn_str = (\<lambda>_. ''error''), e_isoformat = unary_iso\<rparr>"

definition sample_world :: sample where
  "sample_world = \<lparr>w_cm = conn_manager_init, w_broker = snd (rb_connect list_pubsub redis_broker_init),
     w_redis = empty_store, w_db = sample_db\<rparr>"

definition ann :: string where "ann = str_uuid (UUID_of 1)"
definition bob :: string where "bob = str_uuid (UUID_of 2)"
definition den :: string where "den = str_uuid (UUID_of 3)"

definition event_frame :: "string \<Rightarrow> (string \<times> json) list \<Rightarrow> wire" where
  "event_frame ev d = JsonText (JObj [(''event'', JStr ev), (''data'', JObj d)])"

text \<open>
  A whole session, from authentication through any frames the client sends to the cleanup,
  whatever raises on the way, moves the connection manager only through its own steps: what
  holds in every reachable state of the manager holds during and after every session.
\<close>

lemma chat_session_manager:
  assumes "cm_reach (e_ws env) (e_cfg env) (w_cm w)"
  shows "cm_reach (e_ws env) (e_cfg env) (w_cm (snd (websocket_chat env now finish ws token frames w)))"
  using keepsD [OF keeps_websocket_chat, of env w] assms by (simp add: cm_ok_def)

lemma chat_session_manager_witness:
  "cm_reach list_ws default_settings (w_cm (snd (websocket_chat sample_env 0 9 (False, [])
     (Some (tr_access_token (issue_tokens plain_jwt default_settings 0 (hd (users sample_tables)))))
     [(1, event_frame ''join_room'' [(''room_id'', JStr den)]), (2, RawText ''{''), (3, JsonText (JArr []))] sample_world)))"
  using chat_session_manager [of sample_env sample_world 0 9 "(False, [])"
      "Some (tr_access_token (issue_tokens plain_jwt default_settings 0 (hd (users sample_tables))))"
      "[(1, event_frame ''join_room'' [(''room_id'', JStr den)]), (2, RawText ''{''), (3, JsonText (JArr []))]"]
    reach_init [of list_ws default_settings]
  by (simp add: sample_env_def sample_world_def)

section \<open>From one client to every member\<close>

context redis_available begin

lemma rb_publish_runs:
  assumes "rb_redis b"
  obtains r' where "rb_publish redis fs es now b ch msg r = (Inr (), r')"
    and "published (view r') = published (view r) @ [(ch, json_dumps msg)]"
proof -
  obtain x r' where r': "redis1 redis now (PUBLISH ch (json_dumps msg)) r = (Inr x, r')"
    "view r' = snd (exec1 now (PUBLISH ch (json_dumps msg)) (purge now (view r)))" using redis1_exec by blast
  then have "publish_loop redis fs es b ch msg 0 publish_retries now r = (Inr (), r')"
    by (simp add: publish_retries_def numeral_3_eq_3)
  moreover have "published (view r') = published (view r) @ [(ch, json_dumps msg)]"
    unfolding r'(2) by (simp only: exec1_PUBLISH published_purge)
  ultimately show thesis using assms by (intro that) (simp_all add: rb_publish_def)
qed

end

context database_up begin

lemma save_unkeyed_runs:
  assumes "rid \<in> ro_id ` set (chat_rooms (view d))" "uid \<in> u_id ` set (users (view d))"
  obtains m d' where "ms_save_message api rid uid content mtype JNull d = (Inr m, d')"
    "ms_room_id m = rid" "ms_sender_id m = Some uid" "ms_content m = content"
    "view d' = (view d)\<lparr>messages := messages (view d) @ [m]\<rparr>"
proof -
  let ?x = "NewMessage rid (Some uid) content mtype None"
  obtain i t y d' where "add_as api dest_message ?x d = (Inr y, d')" "dest_message (fill i t ?x) = Some y"
    "view d' = insert_row (fill i t ?x) (view d)"
    by (rule add_as_runs [of ?x d dest_message]) (use assms in \<open>auto simp: fits_def\<close>)
  then show thesis by (intro that [of y d']) (auto simp: ms_save_message_def ms_insert_def bindE_def)
qed

end

context database_up begin

lemma commit_message_runs:
  assumes "rid \<in> ro_id ` set (chat_rooms (view d))" "uid \<in> u_id ` set (users (view d))"
  obtains m d' where "in_session api (bindE (ms_save_message api rid uid content TEXT JNull)
      (\<lambda>m. thenE (db_commit api) (ret m))) d = (Inr m, d')"
    "ms_room_id m = rid" "ms_sender_id m = Some uid" "ms_content m = content"
    "stored d' = (view d)\<lparr>messages := messages (view d) @ [m]\<rparr>"
proof -
  obtain m d1 where m: "ms_save_message api rid uid content TEXT JNull d = (Inr m, d1)"
    "ms_room_id m = rid" "ms_sender_id m = Some uid" "ms_content m = content"
    "view d1 = (view d)\<lparr>messages := messages (view d) @ [m]\<rparr>"
    by (rule save_unkeyed_runs [OF assms])
  obtain d2 where d2: "db_commit api d1 = (Inr (), d2)" using commit_up by blast
  then have "stored d2 = view d1" using commit by blast
  with m d2 rollback [of d2] show thesis
    by (intro that [of m "snd (db_rollback api d2)"]) (simp_all add: in_session_def bindE_def thenE_def)
qed

end

lemma bindE_liftX [simp]: "bindE (liftX (Inr x)) f = f x" "bindE (liftX (Inl e)) f = raise e"
  by (simp_all add: bindE_def fun_eq_iff)

lemma save_and_commit_runs:
  assumes "database_up (e_db env) view stored"
    and "UUID rid = Inr r" "UUID uid = Inr u" "r \<in> ro_id ` set (chat_rooms (view d))" "u \<in> u_id ` set (users (view d))"
  obtains m d' where "save_and_commit env (JStr rid) uid content JNull d = (Inr m, d')"
    "ms_room_id m = r" "ms_sender_id m = Some u" "ms_content m = content"
    "stored d' = (view d)\<lparr>messages := messages (view d) @ [m]\<rparr>"
  by (rule database_up.commit_message_runs [OF assms(1,4,5), of content])
    (use assms(2,3) in \<open>auto intro: that simp: save_and_commit_def\<close>)

text \<open>A message event with a room, a text and no key.\<close>

definition message_event :: "string \<Rightarrow> string \<Rightarrow> json" where
  "message_event rid s = JObj [(''room_id'', JStr rid), (''content'', JStr s)]"

definition chat_of :: "('w, 'p, 'r, 'd) env \<Rightarrow> string \<Rightarrow> string \<Rightarrow> string \<Rightarrow> message \<Rightarrow> ws_outbound" where
  "chat_of env rid uid uname m =
     chat_message (str_uuid (ms_id m)) rid uid uname (ms_content m) ''text'' (e_isoformat env (ms_created_at m))"

lemma handle_message_runs:
  assumes db: "database_up (e_db env) dview stored" and redis: "redis_available (e_redis env) rview"
    and ids: "UUID rid = Inr r" "UUID uid = Inr u"
    and fk: "r \<in> ro_id ` set (chat_rooms (dview (w_db w)))" "u \<in> u_id ` set (users (dview (w_db w)))"
    and msg: "rid \<noteq> []" "strip s \<noteq> []" "length (strip s) \<le> 5000" and up: "rb_redis (w_broker w)"
  obtains m w' where "handle_message env now uid uname (message_event rid s) w = (Inr (), w')"
    "ms_room_id m = r" "ms_sender_id m = Some u" "ms_content m = strip s"
    "stored (w_db w') = (dview (w_db w))\<lparr>messages := messages (dview (w_db w)) @ [m]\<rparr>"
    "published (rview (w_redis w')) = published (rview (w_redis w))
       @ [(''room:'' @ rid, json_dumps (envelope ''chat'' (chat_of env rid uid uname m)))]"
    "w_cm w' = w_cm w" "w_broker w' = w_broker w"
proof -
  obtain m d' where m: "save_and_commit env (JStr rid) uid (strip s) JNull (w_db w) = (Inr m, d')"
    "ms_room_id m = r" "ms_sender_id m = Some u" "ms_content m = strip s"
    "stored d' = (dview (w_db w))\<lparr>messages := messages (dview (w_db w)) @ [m]\<rparr>"
    by (rule save_and_commit_runs [OF db ids fk])
  let ?e = "envelope ''chat'' (chat_of env rid uid uname m)"
  obtain r' where r': "rb_publish (e_redis env) (e_float_str env) (e_exn_str env) now (w_broker w) (''room:'' @ rid) ?e (w_redis w)
      = (Inr (), r')"
    "published (rview r') = published (rview (w_redis w)) @ [(''room:'' @ rid, json_dumps ?e)]"
    by (rule redis_available.rb_publish_runs [OF redis up])
  show thesis
    by (rule that [of "w\<lparr>w_db := d', w_redis := r'\<rparr>" m])
      (use m r' msg in \<open>simp_all add: handle_message_def message_event_def on_db_def on_redis_def onE_def
        broker_publish_def room_channel_def bindE_def chat_of_def\<close>)
qed

lemma dispatch_chat:
  assumes "map_of (rb_callbacks b) (''room:'' @ rid) = Some (room_message_handler rid)"
  shows "dispatch b ''message'' (''room:'' @ rid) (json_dumps (envelope ''chat'' m)) st
    = (Inr (), broadcast_to_room rid m None st)"
proof -
  have "WSOutboundMessage (model_dump m) = Inr m" by simp
  moreover have "json_get (model_dump m) ''data'' (JObj []) = Inr (JObj (wo_data m))" by (simp add: model_dump_def)
  moreover have "\<exists>v. json_get (JObj (wo_data m)) ''sender_id'' (JStr []) = Inr v" by simp
  ultimately show ?thesis
    using assms by (auto simp: dispatch_def json_dumps_def envelope_def room_message_handler_def catchE_def Let_def bindE_def)
qed

text \<open>
  Redis hands a published message to every instance that is subscribed to its channel; each
  instance is its broker and its connection manager.
\<close>

definition fan_out ::
  "'p pubsub_api \<Rightarrow> ('p \<Rightarrow> string set) \<Rightarrow> string \<times> wire \<Rightarrow> (('p, 'w conn_manager) redis_broker \<times> 'w conn_manager) list \<Rightarrow>
   (('p, 'w conn_manager) redis_broker \<times> 'w conn_manager) list" where
  "fan_out api channels msg insts =
     map (\<lambda>(b, st). if fst msg \<in> subscribed channels b then listen_step api (Incoming ''message'' (fst msg) (snd msg)) (b, st)
                    else (b, st)) insts"

text \<open>An instance that takes part in a room.\<close>

definition serves_room ::
  "'w ws_api \<Rightarrow> settings \<Rightarrow> ('p \<Rightarrow> string set) \<Rightarrow> string \<Rightarrow> ('p, 'w conn_manager) redis_broker \<times> 'w conn_manager \<Rightarrow> bool" where
  "serves_room ws cfg channels rid inst \<longleftrightarrow>
     listening (fst inst) \<and> ''room:'' @ rid \<in> subscribed channels (fst inst)
     \<and> map_of (rb_callbacks (fst inst)) (''room:'' @ rid) = Some (room_message_handler rid)
     \<and> cm_reach ws cfg (snd inst)"

text \<open>
  A message reaches everybody in its room: when a client sends a valid message for an
  existing room, it is stored and committed, published exactly once, and after Redis has handed
  it to the subscribed instances, on each of them exactly the connected members of the room have
  it appended once to their send queues, unless a queue is full.
\<close>

lemma message_reaches_room:
  assumes "database_up (e_db env) dview stored" and "redis_available (e_redis env) rview"
    and "UUID rid = Inr r" "UUID uid = Inr u"
    and "r \<in> ro_id ` set (chat_rooms (dview (w_db w)))" "u \<in> u_id ` set (users (dview (w_db w)))"
    and "rid \<noteq> []" "strip s \<noteq> []" "length (strip s) \<le> 5000" "rb_redis (w_broker w)"
    and "\<forall>inst\<in>set insts. serves_room ws cfg channels rid inst"
    and "handle_message env now uid uname (message_event rid s) w = (res, w')"
  shows "res = Inr () \<and> (\<exists>m.
      ms_content m = strip s \<and> ms_sender_id m = Some u \<and> ms_room_id m = r
      \<and> messages (stored (w_db w')) = messages (dview (w_db w)) @ [m]
      \<and> published (rview (w_redis w')) = published (rview (w_redis w))
          @ [(''room:'' @ rid, json_dumps (envelope ''chat'' (chat_of env rid uid uname m)))]
      \<and> (\<forall>i < length insts. \<forall>c.
           heap (snd (fan_out api channels (last (published (rview (w_redis w')))) insts ! i)) c
           = map_option (\<lambda>conn. if \<exists>x \<in> set (get_room_user_ids rid (snd (insts ! i))). get_connection x (snd (insts ! i)) = Some c
                                then enqueue (model_dump_json (chat_of env rid uid uname m)) conn else conn)
               (heap (snd (insts ! i)) c)))"
proof -
  obtain m where m: "res = Inr ()" "ms_room_id m = r" "ms_sender_id m = Some u" "ms_content m = strip s"
    "stored (w_db w') = (dview (w_db w))\<lparr>messages := messages (dview (w_db w)) @ [m]\<rparr>"
    and pub: "published (rview (w_redis w')) = published (rview (w_redis w))
       @ [(''room:'' @ rid, json_dumps (envelope ''chat'' (chat_of env rid uid uname m)))]"
    by (rule handle_message_runs [OF assms(1-10), of now uname]) (use assms(12) in auto)
  let ?m = "chat_of env rid uid uname m"
  have "heap (snd (fan_out api channels (last (published (rview (w_redis w')))) insts ! i)) c
      = map_option (\<lambda>conn. if \<exists>x \<in> set (get_room_user_ids rid (snd (insts ! i))). get_connection x (snd (insts ! i)) = Some c
                           then enqueue (model_dump_json ?m) conn else conn) (heap (snd (insts ! i)) c)"
    if i: "i < length insts" for i c
  proof -
    obtain b st where inst: "insts ! i = (b, st)" by (cases "insts ! i")
    with assms(11) i have srv: "serves_room ws cfg channels rid (b, st)" by (metis nth_mem)
    then have "listen_step api (Incoming ''message'' (''room:'' @ rid) (json_dumps (envelope ''chat'' ?m))) (b, st)
        = (b, broadcast_to_room rid ?m None st)"
      by (simp add: serves_room_def listen_step_def listening_def dispatch_chat del: append.simps)
    with srv i inst have "snd (fan_out api channels (last (published (rview (w_redis w')))) insts ! i) = broadcast_to_room rid ?m None st"
      by (simp add: fan_out_def pub serves_room_def del: append.simps)
    then show ?thesis
      using broadcast_heap [of ws cfg st rid ?m None c] srv inst by (simp add: serves_room_def)
  qed
  with m pub show ?thesis by auto
qed

lemma sample_ids: "UUID ann = Inr (UUID_of 1)" "UUID bob = Inr (UUID_of 2)" "UUID den = Inr (UUID_of 3)"
  by (simp_all add: ann_def bob_def den_def UUID_str_uuid)

lemma sample_up:
  "database_up (e_db sample_env) working committed" "redis_available (e_redis sample_env) id"
  "reliable_pubsub (e_pubsub sample_env) set"
  by (simp_all add: sample_env_def mem_db.database_up_axioms mem.redis_available_axioms list_pubsub.reliable_pubsub_axioms)

lemma sample_message:
  "UUID_of 3 \<in> ro_id ` set (chat_rooms (working (w_db sample_world)))" "strip ''hi'' \<noteq> []" "length (strip ''hi'') \<le> 5000"
  "rb_redis (w_broker sample_world)"
  by (simp_all add: sample_world_def sample_db_def sample_tables_def rb_connect_def on_pubsub_def thenE_def bindE_def
      list_pubsub_def redis_broker_init_def strip_def is_space_def Let_def)

lemma sample_users: "UUID_of 1 \<in> u_id ` set (users (working (w_db sample_world)))"
  "UUID_of 2 \<in> u_id ` set (users (working (w_db sample_world)))"
  by (simp_all add: sample_world_def sample_db_def sample_tables_def)

definition room_broker :: "string \<Rightarrow> (string list, (bool \<times> wire list) conn_manager) redis_broker" where
  "room_broker rid = snd (rb_subscribe list_pubsub (''room:'' @ rid) (room_message_handler rid)
     (snd (rb_connect list_pubsub redis_broker_init)))"

definition room_manager :: "string \<Rightarrow> string \<Rightarrow> (bool \<times> wire list) conn_manager" where
  "room_manager uid rid = join_room uid rid (snd (connect list_ws default_settings (False, []) uid ''user'' 0 conn_manager_init))"

lemma room_manager_facts:
  "heap (room_manager uid rid) 0 = Some ((new_connection default_settings (True, []) uid ''user'' 0)\<lparr>rooms := [rid]\<rparr>)"
  "get_room_user_ids rid (room_manager uid rid) = [uid]" "get_connection uid (room_manager uid rid) = Some 0"
  "length (items (send_queue (enqueue p ((new_connection default_settings (True, []) uid ''user'' 0)\<lparr>rooms := [rid]\<rparr>)))) = 1"
  by (simp_all add: room_manager_def join_room_def connect_def list_ws_def conn_manager_init_def new_connection_def
      upd_conn_def room_add_def set_add_def get_room_user_ids_def get_connection_def Let_def enqueue_def queue_full_def
      queue_new_def default_settings_def)

lemma room_instance_serves: "serves_room list_ws default_settings set rid (room_broker rid, room_manager uid rid)"
proof -
  have "cm_reach list_ws default_settings (room_manager uid rid)"
    unfolding room_manager_def by (rule reach_step [OF reach_step [OF reach_init step_connect] step_join])
  then show ?thesis
    by (simp add: serves_room_def room_broker_def rb_subscribe_def rb_connect_def on_pubsub_def thenE_def bindE_def
        list_pubsub_def redis_broker_init_def listening_def subscribed_def)
qed

lemma message_reaches_room_witness:
  "let w' = snd (handle_message sample_env 5 ann ''ann'' (message_event den '' hi '') sample_world);
       insts = [(room_broker den, room_manager bob den), (room_broker den, room_manager ann den)]
   in map (\<lambda>inst. map_option (\<lambda>conn. length (items (send_queue conn))) (heap (snd inst) 0))
        (fan_out list_pubsub set (last (published (w_redis w'))) insts) = [Some 1, Some 1]"
proof -
  let ?run = "handle_message sample_env 5 ann ''ann'' (message_event den '' hi '') sample_world"
  let ?insts = "[(room_broker den, room_manager bob den), (room_broker den, room_manager ann den)]"
  let ?out = "fan_out list_pubsub set (last (published (w_redis (snd ?run)))) ?insts"
  have up: "database_up (e_db sample_env) working committed" "redis_available (e_redis sample_env) id"
    by (rule sample_up)+
  have tabs: "UUID_of 3 \<in> ro_id ` set (chat_rooms (working (w_db sample_world)))"
    "UUID_of 1 \<in> u_id ` set (users (working (w_db sample_world)))"
    by (simp_all add: sample_world_def sample_db_def sample_tables_def)
  have msg: "den \<noteq> []" "strip '' hi '' \<noteq> []" "length (strip '' hi '') \<le> 5000" "rb_redis (w_broker sample_world)"
    by (simp_all add: den_def) code_simp+
  have srv: "\<forall>inst\<in>set ?insts. serves_room list_ws default_settings set den inst"
    by (simp add: room_instance_serves)
  from message_reaches_room [OF up sample_ids(3,1) tabs msg srv, of 5 "''ann''" "fst ?run" "snd ?run" list_pubsub]
  obtain m where deliver: "\<forall>i < length ?insts. \<forall>c. heap (snd (?out ! i)) c
       = map_option (\<lambda>conn. if \<exists>x \<in> set (get_room_user_ids den (snd (?insts ! i))). get_connection x (snd (?insts ! i)) = Some c
                            then enqueue (model_dump_json (chat_of sample_env den ann ''ann'' m)) conn else conn)
           (heap (snd (?insts ! i)) c)" by auto
  have "map_option (\<lambda>conn. length (items (send_queue conn))) (heap (snd (?out ! i)) 0) = Some 1" if "i < 2" for i
  proof -
    obtain uid where "snd (?insts ! i) = room_manager uid den"
      using \<open>i < 2\<close> by (cases i) auto
    with deliver \<open>i < 2\<close> show ?thesis by (simp add: room_manager_facts)
  qed
  moreover have "length ?out = 2" by (simp add: fan_out_def)
  ultimately show ?thesis
    unfolding Let_def by (intro nth_equalityI) (auto simp: less_Suc_eq numeral_2_eq_2)
qed

section \<open>Joining\<close>

lemma membership_check:
  assumes "database_up (e_db env) dview stored" and "tables_ok (dview (w_db w))" and "UUID rid = Inr r" "UUID uid = Inr u"
  obtains d' where "on_db (in_session (e_db env)
         (bindE (liftX (UUID_json (JStr rid))) (\<lambda>rid. bindE (liftX (UUID uid)) (\<lambda>uid. rs_is_member (e_db env) rid uid)))) w
       = (Inr ((r, u) \<in> memberships (dview (w_db w))), w\<lparr>w_db := d'\<rparr>)" "stored d' = stored (w_db w)"
proof -
  obtain d1 where "rs_is_member (e_db env) r u (w_db w) = (Inr ((r, u) \<in> memberships (dview (w_db w))), d1)"
    "stored d1 = stored (w_db w)"
    by (rule database_up.rs_is_member_runs [OF assms(1,2)])
  with assms(3,4) show thesis
    using database.rollback [OF database_up.axioms(1) [OF assms(1)]]
    by (intro that [of "snd (db_rollback (e_db env) d1)"]) (simp_all add: on_db_def onE_def in_session_def)
qed

definition join_event :: "string \<Rightarrow> json" where
  "join_event rid = JObj [(''room_id'', JStr rid)]"

text \<open>
  C28. Who is not a member of a room does not get in: the request is answered with an error and
  has no other effect, the user is in no further room, the instance subscribes to nothing and
  Redis is not touched.
\<close>

theorem join_refused_to_strangers:
  assumes "database_up (e_db env) dview stored" and "tables_ok (dview (w_db w))" and "UUID rid = Inr r" "UUID uid = Inr u"
    and "rid \<noteq> []" and "(r, u) \<notin> memberships (dview (w_db w))"
    and "handle_join_room env now uid uname (join_event rid) w = (res, w')"
  shows "res = Inr () \<and> w_broker w' = w_broker w \<and> w_redis w' = w_redis w
    \<and> w_cm w' = send_to_user uid (error_message ''You are not a member of this room'' ''error'') (w_cm w)"
  by (rule membership_check [OF assms(1-4)])
    (use assms(5-7) in \<open>auto simp: handle_join_room_def join_event_def bindE_def tell_def on_cm_def\<close>)

theorem join_refused_to_strangers_witness:
  "w_cm (snd (handle_join_room sample_env 5 bob ''bob'' (join_event den) sample_world))
     = send_to_user bob (error_message ''You are not a member of this room'' ''error'') (w_cm sample_world)"
  using join_refused_to_strangers [of sample_env working committed sample_world den "UUID_of 3" bob "UUID_of 2" 5 "''bob''"
      "fst (handle_join_room sample_env 5 bob ''bob'' (join_event den) sample_world)"
      "snd (handle_join_room sample_env 5 bob ''bob'' (join_event den) sample_world)"] sample_ids sample_ok
  by (simp add: sample_env_def mem_db.database_up_axioms sample_world_def sample_db_def memberships_def sample_tables_def den_def)

lemma exec1_quiet: "(\<And>ch v. c \<noteq> PUBLISH ch v) \<Longrightarrow> published (snd (exec1 t c S)) = published S"
  by (cases c) (auto simp: put_zset_def del_key_def Let_def)

context redis_available begin

lemma redis1_quiet:
  assumes "\<And>ch v. c \<noteq> PUBLISH ch v"
  obtains r' where "redis1 redis t c r = (Inr (fst (exec1 t c (purge t (view r)))), r')" "published (view r') = published (view r)"
  using redis1_exec [of t c r] exec1_quiet [OF assms] by (metis published_purge)

lemma set_online_quiet:
  obtains r' where "set_online redis t room u name r = (Inr (), r')" "published (view r') = published (view r)"
proof -
  obtain r1 where r1: "redis1 redis t (ZADD (presence_key room) [(u, t)]) r = (Inr (fst (exec1 t (ZADD (presence_key room) [(u, t)]) (purge t (view r)))), r1)"
    "published (view r1) = published (view r)" by (rule redis1_quiet [of "ZADD (presence_key room) [(u, t)]" t r]) simp
  obtain r2 where "redis1 redis t (HSET ''usernames'' u name) r1 = (Inr (fst (exec1 t (HSET ''usernames'' u name) (purge t (view r1)))), r2)"
    "published (view r2) = published (view r1)" by (rule redis1_quiet [of "HSET ''usernames'' u name" t r1]) simp
  with r1 show thesis by (intro that [of r2]) (simp_all only: set_online_def thenE_def bindE_def prod.case sum.case ret_apply)
qed

lemma online_entries_quiet:
  obtains es r' where "online_entries redis t uids r = (Inr es, r')" "published (view r') = published (view r)"
proof (induction uids arbitrary: r thesis)
  case (Cons u uids)
  obtain r1 where r1: "redis1 redis t (HGET ''usernames'' u) r = (Inr (fst (exec1 t (HGET ''usernames'' u) (purge t (view r)))), r1)"
    "published (view r1) = published (view r)" by (rule redis1_quiet [of "HGET ''usernames'' u" t r]) simp
  obtain es r2 where "online_entries redis t uids r1 = (Inr es, r2)" "published (view r2) = published (view r1)"
    by (rule Cons.IH)
  with r1 show ?case by (intro Cons.prems [of _ r2]) (simp_all add: bindE_def)
qed simp

lemma get_online_users_quiet:
  obtains us r' where "get_online_users redis cfg t room r = (Inr us, r')" "published (view r') = published (view r)"
proof -
  let ?cut = "t - of_int (PRESENCE_TIMEOUT_SECONDS cfg)" and ?k = "presence_key room"
  obtain r1 where r1: "redis1 redis t (ZREMRANGEBYSCORE ?k 0 ?cut) r = (Inr (fst (exec1 t (ZREMRANGEBYSCORE ?k 0 ?cut) (purge t (view r)))), r1)"
    "published (view r1) = published (view r)" by (rule redis1_quiet [of "ZREMRANGEBYSCORE ?k 0 ?cut" t r]) simp
  obtain r2 where r2: "redis1 redis t (ZRANGEBYSCORE ?k ?cut None) r1 = (Inr (fst (exec1 t (ZRANGEBYSCORE ?k ?cut None) (purge t (view r1)))), r2)"
    "published (view r2) = published (view r1)" by (rule redis1_quiet [of "ZRANGEBYSCORE ?k ?cut None" t r1]) simp
  let ?uids = "map fst (filter (\<lambda>(_, s). in_range ?cut None s) (zset_of (purge t (view r1)) ?k))"
  obtain us r3 where "online_entries redis t ?uids r2 = (Inr us, r3)" "published (view r3) = published (view r2)"
    by (rule online_entries_quiet)
  with r1 r2 show thesis
    by (intro that [of us r3]) (simp_all add: get_online_users_def Let_def thenE_def bindE_def)
qed

end

lemma handle_join_runs:
  assumes "database_up (e_db env) dview stored" and "tables_ok (dview (w_db w))" and "UUID rid = Inr r" "UUID uid = Inr u"
    and "rid \<noteq> []" and "(r, u) \<in> memberships (dview (w_db w))"
    and "redis_available (e_redis env) rview" and "reliable_pubsub (e_pubsub env) channels"
    and "rb_redis (w_broker w)" "rb_pubsub (w_broker w) \<noteq> None"
  obtains us w' where "handle_join_room env now uid uname (join_event rid) w = (Inr (), w')"
    "w_cm w' = send_to_user uid (online_users_message (JStr rid) us) (join_room uid rid (w_cm w))"
    "map_of (rb_callbacks (w_broker w')) (''room:'' @ rid) = Some (room_message_handler rid)"
    "''room:'' @ rid \<in> subscribed channels (w_broker w')"
    "published (rview (w_redis w')) = published (rview (w_redis w))
        @ [(''room:'' @ rid, json_dumps (envelope ''presence'' (presence_update (JStr rid) uid uname ''online'')))]"
    "stored (w_db w') = stored (w_db w)"
proof -
  let ?ch = "''room:'' @ rid" and ?e = "envelope ''presence'' (presence_update (JStr rid) uid uname ''online'')"
  obtain p where p: "rb_pubsub (w_broker w) = Some p" using assms(10) by auto
  obtain p' where p': "ps_subscribe (e_pubsub env) ?ch p = (Inr (), p')"
    using reliable_pubsub.subscribes [OF assms(8)] by (metis prod.collapse)
  have ps: "pubsub (e_pubsub env) channels" using assms(8) by (simp add: reliable_pubsub_def)
  let ?b = "(w_broker w)\<lparr>rb_callbacks := dict_set ?ch (room_message_handler rid) (rb_callbacks (w_broker w)), rb_pubsub := Some p'\<rparr>"
  have sub: "rb_subscribe (e_pubsub env) ?ch (room_message_handler rid) (w_broker w) = (Inr (), ?b)"
    using p p' by (simp add: rb_subscribe_def on_pubsub_def)
  obtain r1 where r1: "set_online (e_redis env) now rid uid uname (w_redis w) = (Inr (), r1)"
    "published (rview r1) = published (rview (w_redis w))" by (rule redis_available.set_online_quiet [OF assms(7)])
  obtain r2 where r2: "rb_publish (e_redis env) (e_float_str env) (e_exn_str env) now ?b ?ch ?e r1 = (Inr (), r2)"
    "published (rview r2) = published (rview r1) @ [(?ch, json_dumps ?e)]"
    by (rule redis_available.rb_publish_runs [OF assms(7), of ?b]) (use assms(9) in simp_all)
  obtain us r3 where r3: "get_online_users (e_redis env) (e_cfg env) now rid r2 = (Inr us, r3)"
    "published (rview r3) = published (rview r2)" by (rule redis_available.get_online_users_quiet [OF assms(7)])
  obtain d' where d': "on_db (in_session (e_db env)
         (bindE (liftX (UUID_json (JStr rid))) (\<lambda>rid. bindE (liftX (UUID uid)) (\<lambda>uid. rs_is_member (e_db env) rid uid)))) w
       = (Inr ((r, u) \<in> memberships (dview (w_db w))), w\<lparr>w_db := d'\<rparr>)" "stored d' = stored (w_db w)"
    by (rule membership_check [OF assms(1-4)])
  have "handle_join_room env now uid uname (join_event rid) w
      = (Inr (), w\<lparr>w_db := d', w_broker := ?b, w_redis := r3,
                   w_cm := send_to_user uid (online_users_message (JStr rid) us) (join_room uid rid (w_cm w))\<rparr>)"
    unfolding handle_join_room_def join_event_def
    using d'(1) assms(5,6) sub r1(1) r2(1) r3(1)
    by (simp add: bindE_def thenE_def on_broker_def on_redis_def on_cm_def onE_def tell_def broker_publish_def Let_def
        room_channel_def)
  then show thesis
    by (rule that) (use d'(2) r1(2) r2(2) r3(2) pubsub.channels_subscribe [OF ps p'] in \<open>simp_all add: subscribed_def\<close>)
qed



section \<open>Admission\<close>

text \<open>The lookup of the account a token names.\<close>

lemma account_lookup:
  assumes "database_up (e_db env) dview stored" and "tables_ok (dview (w_db w))"
    and "u \<in> set (users (dview (w_db w)))" "uuid_int (u_id u) < 2 ^ 128"
  obtains d' where "on_db (in_session (e_db env)
         (bindE (liftX (UUID_json (JStr (str_uuid (u_id u))))) (\<lambda>i.
          bindE (select_users (e_db env) (users_with_id i)) (\<lambda>rows. liftX (scalar_one_or_none rows))))) w
       = (Inr (Some u), w\<lparr>w_db := d'\<rparr>)" "stored d' = stored (w_db w)" "dview d' = stored (w_db w)"
proof -
  let ?m = "bindE (liftX (UUID_json (JStr (str_uuid (u_id u))))) (\<lambda>i.
          bindE (select_users (e_db env) (users_with_id i)) (\<lambda>rows. liftX (scalar_one_or_none rows)))"
  obtain d1 where d1: "select_users (e_db env) (users_with_id (u_id u)) (w_db w) = (Inr (users_with_id (u_id u) (dview (w_db w))), d1)"
    "dview d1 = dview (w_db w)" "stored d1 = stored (w_db w)"
    by (rule database_up.select_as_runs [OF assms(1), of dest_user UserRow "users_with_id (u_id u)" "w_db w"]) auto
  have "users_with_id (u_id u) (dview (w_db w)) = [u]"
    unfolding users_with_id_def by (rule filter_unique) (use assms in \<open>auto simp: tables_ok_def\<close>)
  with d1(1) have "?m (w_db w) = (Inr (Some u), d1)"
    using UUID_str_uuid [OF assms(4)] by (simp add: bindE_def)
  then show thesis using d1(3) database.rollback [OF database_up.axioms(1) [OF assms(1)]]
    by (intro that [of "snd (db_rollback (e_db env) d1)"]) (simp_all add: on_db_def onE_def in_session_def)
qed

text \<open>What a client that is not let in gets: the WebSocket is closed with code 4001 and the reason.\<close>

definition refused :: "('w, 'p, 'r, 'd) env \<Rightarrow> 'w \<Rightarrow> string \<Rightarrow> exn + ((string \<times> string) + 'w session_end)" where
  "refused env ws reason =
     (case ws_close (e_ws env) 4001 reason ws of (Inr _, ws') \<Rightarrow> Inr (Inr (Rejected reason ws')) | (Inl e, ws') \<Rightarrow> Inl e)"

lemma reject_refused: "bindE (reject env ws reason) (\<lambda>r. ret (Inr r)) w = (refused env ws reason, w)"
  by (simp add: reject_def refused_def bindE_def split: prod.split sum.split)

lemma authenticate_refresh:
  assumes "jwt (e_jwt env)"
  shows "authenticate env now ws (Some (tr_refresh_token (issue_tokens (e_jwt env) (e_cfg env) t u))) w
    = (refused env ws ''Invalid or expired token'', w)"
  using jwt.decode_issued_typed(3) [OF assms, of "e_cfg env" now t u] jwt.not_empty [OF assms]
  by (simp add: authenticate_def Let_def reject_refused issued)

lemma authenticate_access:
  assumes "jwt (e_jwt env)" and "database_up (e_db env) dview stored" and "tables_ok (dview (w_db w))"
    and "u \<in> set (users (dview (w_db w)))" "uuid_int (u_id u) < 2 ^ 128"
    and "\<not> \<lfloor>t + of_int (ACCESS_TOKEN_EXPIRE_MINUTES (e_cfg env) * 60)\<rfloor> < \<lfloor>now\<rfloor>"
  obtains d' where "authenticate env now ws (Some (tr_access_token (issue_tokens (e_jwt env) (e_cfg env) t u))) w
      = (if u_is_active u then Inr (Inl (str_uuid (u_id u), u_username u)) else refused env ws ''User not found'', w\<lparr>w_db := d'\<rparr>)"
    "stored d' = stored (w_db w)" "dview d' = stored (w_db w)"
proof -
  obtain d' where d': "on_db (in_session (e_db env)
         (bindE (liftX (UUID_json (JStr (str_uuid (u_id u))))) (\<lambda>i.
          bindE (select_users (e_db env) (users_with_id i)) (\<lambda>rows. liftX (scalar_one_or_none rows))))) w
       = (Inr (Some u), w\<lparr>w_db := d'\<rparr>)" "stored d' = stored (w_db w)" "dview d' = stored (w_db w)"
    by (rule account_lookup [OF assms(2-5)])
  let ?p = "access_claims (e_cfg env) t u" and ?tok = "tr_access_token (issue_tokens (e_jwt env) (e_cfg env) t u)"
  have "\<not> expired_at now ?p" using assms(6) by (simp add: expired_at_def access_claims_def)
  then have "decode_access_token (e_jwt env) (e_cfg env) now ?tok = Some ?p"
    using jwt.decode_issued_typed(1) [OF assms(1), of "e_cfg env" now t u] by simp
  moreover have "?tok \<noteq> []" using jwt.not_empty [OF assms(1)] by (simp add: issued)
  moreover have "claim_sub ?p = JStr (str_uuid (u_id u))" "claim_username ?p = u_username u"
    by (simp_all add: claim_sub_def claim_username_def access_claims_def)
  ultimately have "authenticate env now ws (Some ?tok) w
      = (if u_is_active u then Inr (Inl (str_uuid (u_id u), u_username u)) else refused env ws ''User not found'', w\<lparr>w_db := d'\<rparr>)"
    using d'(1) by (simp add: authenticate_def Let_def bindE_def [of "on_db _"] reject_refused)
  then show thesis using d'(2,3) by (rule that)
qed

lemma authenticate_expired:
  assumes "jwt (e_jwt env)" and "\<lfloor>t + of_int (ACCESS_TOKEN_EXPIRE_MINUTES (e_cfg env) * 60)\<rfloor> < \<lfloor>now\<rfloor>"
  shows "authenticate env now ws (Some (tr_access_token (issue_tokens (e_jwt env) (e_cfg env) t u))) w
    = (refused env ws ''Invalid or expired token'', w)"
proof -
  have "expired_at now (access_claims (e_cfg env) t u)" using assms(2) by (simp add: expired_at_def access_claims_def)
  then show ?thesis
    using jwt.decode_issued_typed(1) [OF assms(1), of "e_cfg env" now t u] jwt.not_empty [OF assms(1)]
    by (simp add: authenticate_def Let_def reject_refused issued)
qed

text \<open>
  C27. Who gets into a chat session: the holder of an access token, for as long as the token is
  valid and the account is active, under the account's own id and name. An expired token, a
  refresh token, the token of a deactivated account and no token are each refused with their
  reason.
\<close>

theorem chat_admission:
  assumes "jwt (e_jwt env)" and "database_up (e_db env) dview stored" and "tables_ok (dview (w_db w))"
    and "u \<in> set (users (dview (w_db w)))" "uuid_int (u_id u) < 2 ^ 128"
  shows "fst (authenticate env now ws (Some (tr_access_token (issue_tokens (e_jwt env) (e_cfg env) t u))) w)
      = (if \<lfloor>t + of_int (ACCESS_TOKEN_EXPIRE_MINUTES (e_cfg env) * 60)\<rfloor> < \<lfloor>now\<rfloor> then refused env ws ''Invalid or expired token''
         else if u_is_active u then Inr (Inl (str_uuid (u_id u), u_username u))
         else refused env ws ''User not found'')
    \<and> fst (authenticate env now ws (Some (tr_refresh_token (issue_tokens (e_jwt env) (e_cfg env) t u))) w)
      = refused env ws ''Invalid or expired token''
    \<and> fst (authenticate env now ws None w) = refused env ws ''Missing authentication token''"
proof -
  have "fst (authenticate env now ws (Some (tr_access_token (issue_tokens (e_jwt env) (e_cfg env) t u))) w)
      = (if u_is_active u then Inr (Inl (str_uuid (u_id u), u_username u)) else refused env ws ''User not found'')"
    if "\<not> \<lfloor>t + of_int (ACCESS_TOKEN_EXPIRE_MINUTES (e_cfg env) * 60)\<rfloor> < \<lfloor>now\<rfloor>"
    by (rule authenticate_access [OF assms that, of ws]) (simp only: fst_conv)
  then show ?thesis
    using authenticate_expired [OF assms(1), of t now ws u w] authenticate_refresh [OF assms(1), of now ws t u w]
    by (auto simp: authenticate_def [of env now ws None] reject_refused simp del: of_int_mult)
qed

theorem chat_admission_witness:
  "let u = hd (users sample_tables); tok = Some (tr_access_token (issue_tokens plain_jwt default_settings 1000 u)) in
   fst (authenticate sample_env 2000 (True, []) tok sample_world) = Inr (Inl (ann, ''ann'')) \<and>
   fst (authenticate sample_env 2801 (True, []) tok sample_world) = Inr (Inr (Rejected ''Invalid or expired token'' (False, [])))"
proof -
  let ?u = "hd (users sample_tables)"
  have "tables_ok (working (w_db sample_world))" "?u \<in> set (users (working (w_db sample_world)))" "uuid_int (u_id ?u) < 2 ^ 128"
    and u: "u_is_active ?u" "u_username ?u = ''ann''" "str_uuid (u_id ?u) = ann"
    using sample_ok by (simp_all add: sample_world_def sample_db_def sample_tables_def ann_def)
  note ok = chat_admission [of sample_env, OF _ sample_up(1) this(1-3), of _ "(True, [])" 1000]
  have "jwt (e_jwt sample_env)" by (simp add: sample_env_def plain_jwt.jwt_axioms)
  from ok [OF this, of 2000] ok [OF this, of 2801] u show ?thesis
    by (simp add: Let_def sample_env_def default_settings_def refused_def list_ws_def)
qed

section \<open>Where sessions fall short\<close>

text \<open>
  Sending does not ask for membership: the message of a user who is not a member of a room
  is stored in it and published to everybody there.
\<close>

lemma message_without_membership:
  assumes "database_up (e_db env) dview stored" and "redis_available (e_redis env) rview"
    and "UUID rid = Inr r" "UUID uid = Inr u"
    and "r \<in> ro_id ` set (chat_rooms (dview (w_db w)))" "u \<in> u_id ` set (users (dview (w_db w)))"
    and "rid \<noteq> []" "strip s \<noteq> []" "length (strip s) \<le> 5000" "rb_redis (w_broker w)"
    and "(r, u) \<notin> memberships (dview (w_db w))"
    and "handle_message env now uid uname (message_event rid s) w = (res, w')"
  shows "res = Inr () \<and> (\<exists>m. messages (stored (w_db w')) = messages (dview (w_db w)) @ [m]
      \<and> ms_room_id m = r \<and> ms_sender_id m = Some u
      \<and> published (rview (w_redis w')) = published (rview (w_redis w))
          @ [(''room:'' @ rid, json_dumps (envelope ''chat'' (chat_of env rid uid uname m)))])
    \<and> (r, u) \<notin> memberships (stored (w_db w'))"
  by (rule handle_message_runs [OF assms(1-10), of now uname]) (use assms(11,12) in \<open>auto simp: memberships_def\<close>)

lemma message_without_membership_witness:
  "(UUID_of 3, UUID_of 2) \<notin> memberships sample_tables \<and>
   length (messages (committed (w_db (snd (handle_message sample_env 5 bob ''bob'' (message_event den ''hi'') sample_world))))) = 1"
proof -
  let ?run = "handle_message sample_env 5 bob ''bob'' (message_event den ''hi'') sample_world"
  have no: "(UUID_of 3, UUID_of 2) \<notin> memberships (working (w_db sample_world))" "den \<noteq> []"
    "messages (working (w_db sample_world)) = []" "working (w_db sample_world) = sample_tables"
    by (simp_all add: memberships_def sample_world_def sample_db_def sample_tables_def den_def)
  from message_without_membership [OF sample_up(1,2) sample_ids(3,2) sample_message(1) sample_users(2) no(2)
      sample_message(2-4) no(1), of 5 "''bob''" "fst ?run" "snd ?run"] no
  show ?thesis by auto
qed

text \<open>
  A frame that is JSON but not an object ends the session: it is not answered with an
  error like a frame that is not JSON, it raises out of the loop before the rate limit is even
  looked at.
\<close>

lemma non_object_frame_raises:
  assumes "\<forall>d. j \<noteq> JObj d"
  shows "fst (handle_frame env c now uid uname (JsonText j) w) = Inl (AttributeError ''get'')
    \<and> fst (chat_loop env c uid uname ((now, JsonText j) # frames) w) = Inl (AttributeError ''get'')"
  using assms by (cases j) (simp_all add: handle_frame_def thenE_def bindE_def on_cm_def)

lemma non_object_frame_raises_witness:
  "fst (chat_loop sample_env 0 ann ''ann'' [(1, JsonText (JArr [])), (2, event_frame ''ping'' [])] sample_world)
     = Inl (AttributeError ''get'')"
  using non_object_frame_raises [of "JArr []" sample_env 0 1 ann "''ann''" sample_world "[(2, event_frame ''ping'' [])]"] by simp

text \<open>
  Two spellings of one room are two rooms: membership is checked on the parsed identifier,
  but channel and room index use the text the client sent. A message sent under another spelling
  than the one the members joined with is stored in their room and changes nothing on any
  instance that serves them.
\<close>

lemma room_spelling_splits_delivery:
  assumes "database_up (e_db env) dview stored" and "redis_available (e_redis env) rview"
    and "UUID rid' = Inr r" "UUID uid = Inr u"
    and "r \<in> ro_id ` set (chat_rooms (dview (w_db w)))" "u \<in> u_id ` set (users (dview (w_db w)))"
    and "rid' \<noteq> []" "strip s \<noteq> []" "length (strip s) \<le> 5000" "rb_redis (w_broker w)"
    and "rid' \<noteq> rid" and "\<forall>inst\<in>set insts. subscribed channels (fst inst) \<subseteq> {''system:dummy'', ''room:'' @ rid}"
    and "handle_message env now uid uname (message_event rid' s) w = (res, w')"
  shows "res = Inr () \<and> (\<exists>m. messages (stored (w_db w')) = messages (dview (w_db w)) @ [m] \<and> ms_room_id m = r)
    \<and> fan_out api channels (last (published (rview (w_redis w')))) insts = insts"
proof -
  obtain m where m: "res = Inr ()" "ms_room_id m = r"
    "stored (w_db w') = (dview (w_db w))\<lparr>messages := messages (dview (w_db w)) @ [m]\<rparr>"
    and pub: "fst (last (published (rview (w_redis w')))) = ''room:'' @ rid'"
    by (rule handle_message_runs [OF assms(1-10), of now uname]) (use assms(13) in auto)
  have "''room:'' @ rid' \<notin> subscribed channels (fst inst)" if "inst \<in> set insts" for inst
    using assms(11,12) that by auto
  then have "fan_out api channels (last (published (rview (w_redis w')))) insts = insts"
    unfolding fan_out_def pub by (intro map_idI) (auto split: prod.split)
  with m show ?thesis by auto
qed

lemma room_spelling_splits_delivery_witness:
  "let plain = hex_digits 32 3; w' = snd (handle_message sample_env 5 ann ''ann'' (message_event plain ''hi'') sample_world)
   in UUID plain = UUID den \<and> length (messages (committed (w_db w'))) = 1
      \<and> fan_out list_pubsub set (last (published (w_redis w'))) [(room_broker den, room_manager bob den)]
         = [(room_broker den, room_manager bob den)]"
proof -
  let ?plain = "hex_digits 32 3"
  let ?run = "handle_message sample_env 5 ann ''ann'' (message_event ?plain ''hi'') sample_world"
  have len: "length den = 36" by (simp add: den_def str_uuid_def Let_def)
  have plain: "UUID ?plain = Inr (UUID_of 3)"
    by (rule UUID_spelling) (use hexadecimal_not [OF hexadecimal_digits] in \<open>auto simp: filter_id_conv\<close>)
  have "?plain \<noteq> []" "?plain \<noteq> den" using len length_hex_digits [of 32 3] by (metis list.size(3) zero_neq_numeral, force)
  moreover have "\<forall>inst\<in>set [(room_broker den, room_manager bob den)]. subscribed set (fst inst) \<subseteq> {''system:dummy'', ''room:'' @ den}"
    by (simp add: room_broker_def rb_subscribe_def rb_connect_def on_pubsub_def thenE_def bindE_def
        list_pubsub_def redis_broker_init_def subscribed_def)
  moreover have "messages (working (w_db sample_world)) = []" by (simp add: sample_world_def sample_db_def sample_tables_def)
  ultimately show ?thesis
    using room_spelling_splits_delivery [OF sample_up(1,2) plain sample_ids(1) sample_message(1) sample_users(1) _ sample_message(2-4),
        of den "[(room_broker den, room_manager bob den)]" set 5 "''ann''" "fst ?run" "snd ?run" list_pubsub] plain sample_ids(3)
    by (auto simp: Let_def)
qed


end
