(* ===== verification/System.thy ===== *)
theory System
  imports Integrity App Chat_Props
begin

text \<open>
  The whole deployment as a transition system: any number of instances that share one Redis
  server and one database.

  \<^item> A \<open>node\<close> is an instance: its connection manager and broker, the Pub/Sub messages Redis has
    sent it and its listener has not read yet, and its open sessions.
  \<^item> Redis sends a published message to the instances subscribed to its channel at that moment, in
    the order of publication (\<open>relay\<close>); what is in flight when a connection breaks is lost.
  \<^item> A step is one request, one frame of a session, its opening or its cleanup, one message read
    by a listener, a broken Pub/Sub connection, a turn of a background task, or an instance
    that starts, stops or crashes. Here a handler runs to its end; \<open>Network\<close> cuts it.

  The reachable states carry the set of memberships that were in the database at some moment.
\<close>

section \<open>Requests\<close>

record 'd http_env =
  h_engine :: "'d engine_api"
  h_bcrypt :: bcrypt_api
  h_email_str :: "string \<Rightarrow> string option"
  h_fromisoformat :: "string \<Rightarrow> timestamp option"

text \<open>The routes; the first argument of most is the \<open>Authorization\<close> header.\<close>

datatype http_request =
    Register string user_register
  | Login user_login
  | Refresh string
  | GetMe "string option"
  | CreateRoom "string option" room_create
  | ListRooms "string option" bool
  | GetRoom "string option" uuid
  | JoinRoom "string option" uuid
  | LeaveRoom "string option" uuid
  | GetMembers "string option" uuid
  | GetMessages "string option" uuid "int option" "string option"
  | Health "exn + unit"

fun http_exec :: "('w, 'p, 'r, 'd) env \<Rightarrow> 'd http_env \<Rightarrow> timestamp \<Rightarrow> http_request \<Rightarrow> ('d, unit) eff" where
  "http_exec env h now (Register salt body) = thenE (route_register (e_db env) (h_bcrypt h) (h_email_str h) salt body) (ret ())"
| "http_exec env h now (Login body) = thenE (route_login (e_db env) (h_bcrypt h) (e_jwt env) (e_cfg env) now body) (ret ())"
| "http_exec env h now (Refresh token) = thenE (route_refresh (e_db env) (e_jwt env) (e_cfg env) now token) (ret ())"
| "http_exec env h now (GetMe hdr) = thenE (route_get_me (e_db env) (e_jwt env) (e_cfg env) now hdr) (ret ())"
| "http_exec env h now (CreateRoom hdr body) = thenE (route_create_room (e_db env) (e_jwt env) (e_cfg env) now hdr body) (ret ())"
| "http_exec env h now (ListRooms hdr mine) = thenE (route_list_rooms (e_db env) (e_jwt env) (e_cfg env) now hdr mine) (ret ())"
| "http_exec env h now (GetRoom hdr rid) = thenE (route_get_room (e_db env) (e_jwt env) (e_cfg env) (e_isoformat env) now hdr rid) (ret ())"
| "http_exec env h now (JoinRoom hdr rid) = thenE (route_join_room (e_db env) (e_jwt env) (e_cfg env) now hdr rid) (ret ())"
| "http_exec env h now (LeaveRoom hdr rid) = thenE (route_leave_room (e_db env) (e_jwt env) (e_cfg env) now hdr rid) (ret ())"
| "http_exec env h now (GetMembers hdr rid) =
     thenE (route_get_room_members (e_db env) (e_jwt env) (e_cfg env) (e_isoformat env) now hdr rid) (ret ())"
| "http_exec env h now (GetMessages hdr rid limit before) =
     thenE (route_get_messages (e_db env) (e_jwt env) (e_cfg env) (e_isoformat env) (h_fromisoformat h) now hdr rid limit before) (ret ())"
| "http_exec env h now (Health ping) = thenE (health_check (e_db env) (e_cfg env) (e_exn_str env) ping) (ret ())"

section \<open>Instances\<close>

record session =
  ss_conn :: nat
  ss_user :: string
  ss_name :: string
  ss_ended :: bool

record ('w, 'p) node =
  n_cm :: "'w conn_manager"
  n_broker :: "('p, 'w conn_manager) redis_broker"
  n_inbox :: "(string \<times> wire) list"
  n_sessions :: "session list"

record ('w, 'p, 'r, 'd) system =
  nodes :: "('w, 'p) node list"
  sy_redis :: 'r
  sy_db :: 'd

definition new_node :: "('w, 'p) app_state \<Rightarrow> ('w, 'p) node" where
  "new_node app = \<lparr>n_cm = fst app, n_broker = snd app, n_inbox = [], n_sessions = []\<rparr>"

definition at_node :: "nat \<Rightarrow> ('w, 'p, 'r, 'd) system \<Rightarrow> ('w, 'p, 'r, 'd) world" where
  "at_node i s = \<lparr>w_cm = n_cm (nodes s ! i), w_broker = n_broker (nodes s ! i), w_redis = sy_redis s, w_db = sy_db s\<rparr>"

text \<open>What Redis sends to an instance when its log grows.\<close>

definition news :: "redis_store \<Rightarrow> redis_store \<Rightarrow> (string \<times> wire) list" where
  "news S S' = drop (length (published S)) (published S')"

definition relay ::
  "('p \<Rightarrow> string set) \<Rightarrow> redis_store \<Rightarrow> redis_store \<Rightarrow> ('w, 'p) node \<Rightarrow> ('w, 'p) node" where
  "relay channels S S' n =
     n\<lparr>n_inbox := n_inbox n @ filter (\<lambda>m. fst m \<in> subscribed channels (n_broker n)) (news S S')\<rparr>"

text \<open>The system after instance \<open>i\<close> has worked on its world and its list of sessions.\<close>

definition worked ::
  "('r \<Rightarrow> redis_store) \<Rightarrow> ('p \<Rightarrow> string set) \<Rightarrow> nat \<Rightarrow> ('w, 'p, 'r, 'd) world \<Rightarrow> (session list \<Rightarrow> session list) \<Rightarrow>
   ('w, 'p, 'r, 'd) system \<Rightarrow> ('w, 'p, 'r, 'd) system" where
  "worked rview channels i w f s =
     s\<lparr>nodes := map (relay channels (rview (sy_redis s)) (rview (w_redis w)))
          ((nodes s)[i := (nodes s ! i)\<lparr>n_cm := w_cm w, n_broker := w_broker w, n_sessions := f (n_sessions (nodes s ! i))\<rparr>]),
       sy_redis := w_redis w, sy_db := w_db w\<rparr>"

text \<open>The first part of a session, up to its loop.\<close>

definition session_open ::
  "('w, 'p, 'r, 'd) env \<Rightarrow> timestamp \<Rightarrow> 'w \<Rightarrow> string option \<Rightarrow> ('w, 'p, 'r, 'd, session option) chat" where
  "session_open env now ws token =
     bindE (authenticate env now ws token) (\<lambda>who.
     (case who of
        Inl (uid, name) \<Rightarrow> bindE (session_start env now ws uid name) (\<lambda>c.
          ret (Some \<lparr>ss_conn = c, ss_user = uid, ss_name = name, ss_ended = False\<rparr>))
      | Inr ending \<Rightarrow> ret None))"

fun opened :: "exn + session option \<Rightarrow> session list \<Rightarrow> session list" where
  "opened (Inr (Some x)) xs = xs @ [x]"
| "opened _ xs = xs"

fun after_frame :: "session \<Rightarrow> exn + unit \<Rightarrow> session list \<Rightarrow> session list" where
  "after_frame x (Inr _) xs = xs"
| "after_frame x (Inl e) xs = map (\<lambda>y. if y = x then y\<lparr>ss_ended := True\<rparr> else y) xs"

text \<open>What happens to a manager between requests: send queues, forced disconnects, pings and the clients' side.\<close>

inductive background :: "'w ws_api \<Rightarrow> 'w conn_manager \<Rightarrow> 'w conn_manager \<Rightarrow> bool" for api :: "'w ws_api" where
  bg_drain: "background api st (upd_conn c (send_queue_step api) st)"
| bg_task: "tasks st = ts1 @ (c, reason) # ts2 \<Longrightarrow> background api st (force_disconnect api c reason (st\<lparr>tasks := ts1 @ ts2\<rparr>))"
| bg_ping: "background api st (snd (heartbeat_turn api c st))"
| bg_socket: "background api st (upd_conn c (\<lambda>conn. conn\<lparr>websocket := ws\<rparr>) st)"

section \<open>Steps\<close>

inductive sys_step ::
  "('w, 'p, 'r, 'd) env \<Rightarrow> 'd http_env \<Rightarrow> ('r \<Rightarrow> redis_store) \<Rightarrow> ('p \<Rightarrow> string set) \<Rightarrow>
   ('w, 'p, 'r, 'd) system \<Rightarrow> ('w, 'p, 'r, 'd) system \<Rightarrow> bool"
  for env :: "('w, 'p, 'r, 'd) env" and h :: "'d http_env" and rview :: "'r \<Rightarrow> redis_store" and channels :: "'p \<Rightarrow> string set" where
  sys_boot: "lifespan_startup (h_engine h) (e_pubsub env) (sy_db s) = (Inr app, d) \<Longrightarrow>
     sys_step env h rview channels s (s\<lparr>nodes := nodes s @ [new_node app], sy_db := d\<rparr>)"
| sys_boot_fails: "lifespan_startup (h_engine h) (e_pubsub env) (sy_db s) = (Inl e :: exn + ('w, 'p) app_state, d) \<Longrightarrow>
     sys_step env h rview channels s (s\<lparr>sy_db := d\<rparr>)"
| sys_stop: "sys_step env h rview channels s (s\<lparr>nodes := take i (nodes s) @ drop (Suc i) (nodes s)\<rparr>)"
| sys_http: "sys_step env h rview channels s (s\<lparr>sy_db := snd (http_exec env h now req (sy_db s))\<rparr>)"
| sys_open: "i < length (nodes s) \<Longrightarrow> session_open env now ws token (at_node i s) = (res, w) \<Longrightarrow>
     sys_step env h rview channels s (worked rview channels i w (opened res) s)"
| sys_frame: "i < length (nodes s) \<Longrightarrow> x \<in> set (n_sessions (nodes s ! i)) \<Longrightarrow> \<not> ss_ended x \<Longrightarrow>
     handle_frame env (ss_conn x) now (ss_user x) (ss_name x) raw (at_node i s) = (res, w) \<Longrightarrow>
     sys_step env h rview channels s (worked rview channels i w (after_frame x res) s)"
| sys_close: "i < length (nodes s) \<Longrightarrow> x \<in> set (n_sessions (nodes s ! i)) \<Longrightarrow>
     session_cleanup env (ss_conn x) now (ss_user x) (ss_name x) (at_node i s) = (res, w) \<Longrightarrow>
     sys_step env h rview channels s (worked rview channels i w (remove1 x) s)"
| sys_deliver: "i < length (nodes s) \<Longrightarrow> n_inbox (nodes s ! i) = (ch, v) # rest \<Longrightarrow>
     listen_step (e_pubsub env) (Incoming ''message'' ch v) (n_broker (nodes s ! i), n_cm (nodes s ! i)) = (b, st) \<Longrightarrow>
     sys_step env h rview channels s (s\<lparr>nodes := (nodes s)[i := (nodes s ! i)\<lparr>n_cm := st, n_broker := b, n_inbox := rest\<rparr>]\<rparr>)"
| sys_broken: "i < length (nodes s) \<Longrightarrow> is_Exception e \<Longrightarrow>
     listen_step (e_pubsub env) (ListenError e) (n_broker (nodes s ! i), n_cm (nodes s ! i)) = (b, st) \<Longrightarrow>
     sys_step env h rview channels s (s\<lparr>nodes := (nodes s)[i := (nodes s ! i)\<lparr>n_cm := st, n_broker := b, n_inbox := []\<rparr>]\<rparr>)"
| sys_background: "i < length (nodes s) \<Longrightarrow> background (e_ws env) (n_cm (nodes s ! i)) st \<Longrightarrow>
     sys_step env h rview channels s (s\<lparr>nodes := (nodes s)[i := (nodes s ! i)\<lparr>n_cm := st\<rparr>]\<rparr>)"

text \<open>A deployment starts with no instances, nothing published and a consistent database.\<close>

definition sys_init ::
  "('r \<Rightarrow> redis_store) \<Rightarrow> ('d \<Rightarrow> db_tables) \<Rightarrow> ('d \<Rightarrow> db_tables) \<Rightarrow> ('w, 'p, 'r, 'd) system \<Rightarrow> bool" where
  "sys_init rview dview stored s \<longleftrightarrow>
     nodes s = [] \<and> published (rview (sy_redis s)) = [] \<and> db_ok dview stored tables_ok (sy_db s)"

inductive sys_reach ::
  "('w, 'p, 'r, 'd) env \<Rightarrow> 'd http_env \<Rightarrow> ('r \<Rightarrow> redis_store) \<Rightarrow> ('p \<Rightarrow> string set) \<Rightarrow> ('d \<Rightarrow> db_tables) \<Rightarrow> ('d \<Rightarrow> db_tables) \<Rightarrow>
   (uuid \<times> uuid) set \<Rightarrow> ('w, 'p, 'r, 'd) system \<Rightarrow> bool"
  for env :: "('w, 'p, 'r, 'd) env" and h :: "'d http_env" and rview :: "'r \<Rightarrow> redis_store" and channels :: "'p \<Rightarrow> string set"
    and dview :: "'d \<Rightarrow> db_tables" and stored :: "'d \<Rightarrow> db_tables" where
  sys_start: "sys_init rview dview stored s \<Longrightarrow>
     sys_reach env h rview channels dview stored (memberships (stored (sy_db s))) s"
| sys_next: "sys_reach env h rview channels dview stored H s \<Longrightarrow> sys_step env h rview channels s s' \<Longrightarrow>
     sys_reach env h rview channels dview stored (H \<union> memberships (stored (sy_db s'))) s'"

section \<open>The wire protocol\<close>

definition is_str :: "json \<Rightarrow> bool" where
  "is_str j \<longleftrightarrow> (case j of JStr _ \<Rightarrow> True | _ \<Rightarrow> False)"

definition is_bool :: "json \<Rightarrow> bool" where
  "is_bool j \<longleftrightarrow> (case j of JBool _ \<Rightarrow> True | _ \<Rightarrow> False)"

text \<open>An entry of the list of online users.\<close>

definition is_online_user :: "json \<Rightarrow> bool" where
  "is_online_user j \<longleftrightarrow>
     (case j of JObj [(k1, v1), (k2, v2)] \<Rightarrow> k1 = ''user_id'' \<and> is_str v1 \<and> k2 = ''username'' \<and> is_str v2 | _ \<Rightarrow> False)"

definition is_user_list :: "json \<Rightarrow> bool" where
  "is_user_list j \<longleftrightarrow> (case j of JArr xs \<Rightarrow> list_all is_online_user xs | _ \<Rightarrow> False)"

text \<open>The fields of an event, each with the type of its value, in the order they are sent.\<close>

definition protocol_fields :: "string \<Rightarrow> (string \<times> (json \<Rightarrow> bool)) list option" where
  "protocol_fields ev = map_of
     [(''message'', [(''id'', is_str), (''room_id'', is_str), (''sender_id'', is_str), (''sender_username'', is_str),
                     (''content'', is_str), (''message_type'', is_str), (''created_at'', is_str)]),
      (''presence'', [(''room_id'', \<lambda>_. True), (''user_id'', is_str), (''username'', is_str), (''status'', is_str)]),
      (''typing'', [(''room_id'', \<lambda>_. True), (''user_id'', is_str), (''username'', is_str), (''is_typing'', is_bool)]),
      (''system'', [(''room_id'', is_str), (''content'', is_str)]),
      (''error'', [(''detail'', is_str), (''code'', is_str)]),
      (''pong'', []),
      (''online_users'', [(''room_id'', \<lambda>_. True), (''users'', is_user_list)])] ev"

definition conforms :: "ws_outbound \<Rightarrow> bool" where
  "conforms m \<longleftrightarrow>
     (case protocol_fields (wo_event m) of
        None \<Rightarrow> False
      | Some fs \<Rightarrow> list_all2 (\<lambda>(k, ty) (k', v). k' = k \<and> ty v) fs (wo_data m))"

lemma conforms_simps [simp]:
  "conforms (chat_message i r s n c ty t)" "conforms (presence_update room u n st)"
  "conforms (typing_indicator room u n b)" "conforms (system_message r c)" "conforms (error_message d c)"
  "conforms pong" "conforms (online_users_message room online)"
  by (auto simp: conforms_def protocol_fields_def outbound_defs online_users_message_def is_str_def is_bool_def
      is_user_list_def is_online_user_def list_all_iff)

end
