(* ===== verification/System_Inv.thy ===== *)
theory System_Inv
  imports System
begin

text \<open>
  The invariant of the deployment and its preservation by every piece of the program. Per
  instance: the manager is in a reachable state, every room somebody is in has its callback and
  was joined by a member, and every queued frame follows the wire protocol. Shared: Redis has
  only been given protocol messages on room channels, and the database is consistent.
\<close>

section \<open>Managers\<close>

definition index_within :: "(string \<Rightarrow> string \<Rightarrow> bool) \<Rightarrow> 'w conn_manager \<Rightarrow> bool" where
  "index_within Q st \<longleftrightarrow> (\<forall>rid uid. in_room (room_connections st) rid uid \<longrightarrow> Q rid uid)"

definition queues_hold :: "(wire \<Rightarrow> bool) \<Rightarrow> 'w conn_manager \<Rightarrow> bool" where
  "queues_hold Q st \<longleftrightarrow> (\<forall>c conn. heap st c = Some conn \<longrightarrow> (\<forall>p\<in>set (items (send_queue conn)). Q p))"

lemma index_withinD: "index_within Q st \<Longrightarrow> in_room (room_connections st) rid uid \<Longrightarrow> Q rid uid"
  by (simp add: index_within_def)

lemma index_within_mono:
  assumes "index_within Q st" "\<And>rid uid. Q rid uid \<Longrightarrow> Q' rid uid" shows "index_within Q' st"
  using assms by (simp add: index_within_def)

lemma index_within_init [simp]: "index_within Q conn_manager_init"
  by (simp add: index_within_def conn_manager_init_def)

lemma queues_hold_init [simp]: "queues_hold Q conn_manager_init"
  by (simp add: queues_hold_def conn_manager_init_def)

lemma queues_hold_upd_conn:
  assumes "queues_hold Q st"
    and "\<And>conn. heap st c = Some conn \<Longrightarrow> \<forall>p\<in>set (items (send_queue conn)). Q p \<Longrightarrow> \<forall>p\<in>set (items (send_queue (f conn))). Q p"
  shows "queues_hold Q (upd_conn c f st)"
  using assms by (auto simp: queues_hold_def)

text \<open>Operations that only shrink the index, and the ways a queue grows.\<close>

lemma index_within_upd_conn [simp]: "index_within Q (upd_conn c f st) \<longleftrightarrow> index_within Q st"
  by (simp add: index_within_def)

lemma index_within_tasks [simp]: "index_within Q (st\<lparr>tasks := ts\<rparr>) \<longleftrightarrow> index_within Q st"
  by (simp add: index_within_def)

lemma queues_hold_tasks [simp]: "queues_hold Q (st\<lparr>tasks := ts\<rparr>) \<longleftrightarrow> queues_hold Q st"
  by (simp add: queues_hold_def)

lemma force_disconnect_within:
  shows "index_within Q st \<Longrightarrow> index_within Q (force_disconnect api c reason st)"
    and "queues_hold P st \<Longrightarrow> queues_hold P (force_disconnect api c reason st)"
proof -
  have "(index_within Q st \<longrightarrow> index_within Q (force_disconnect api c reason st)) \<and>
        (queues_hold P st \<longrightarrow> queues_hold P (force_disconnect api c reason st))"
  proof (cases "heap st c")
    case (Some conn)
    then obtain conn' where "same_conn conn conn'" "force_disconnect api c reason st =
           retired c conn' (fold (room_discard (conn_user conn)) (rooms conn) (room_connections st)) st"
      by (rule force_disconnect_retired)
    with Some show ?thesis by (auto simp: index_within_def queues_hold_def same_conn_def)
  qed simp
  then show "index_within Q st \<Longrightarrow> index_within Q (force_disconnect api c reason st)"
    "queues_hold P st \<Longrightarrow> queues_hold P (force_disconnect api c reason st)" by blast+
qed

lemma disconnect_within:
  shows "index_within Q st \<Longrightarrow> index_within Q (disconnect api u st)"
    and "queues_hold P st \<Longrightarrow> queues_hold P (disconnect api u st)"
  by (auto simp: index_within_def queues_hold_def disconnect_def Let_def split: option.splits)

text \<open>The parts of the methods between their \<open>await\<close>s.\<close>

lemma piece_within:
  assumes "cm_piece api cfg st st'"
  shows "index_within Q st \<Longrightarrow> index_within Q st'" and "queues_hold P st \<Longrightarrow> queues_hold P st'"
  using assms
  by (induction rule: cm_piece.induct)
    (auto simp: index_within_def queues_hold_def untrack_def pop_connection_def register_connection_def new_connection_def
      queue_new_def Let_def split: option.splits if_splits)

lemma connect_within:
  shows "index_within Q st \<Longrightarrow> index_within Q (snd (connect api cfg ws uid uname now st))"
    and "queues_hold P st \<Longrightarrow> queues_hold P (snd (connect api cfg ws uid uname now st))"
proof -
  let ?e = "evicted api uid st"
  have "index_within Q ?e" if "index_within Q st"
    using that by (simp add: evicted_def force_disconnect_within split: option.split)
  then have *: "index_within Q (registered cfg ws' uid uname now ?e)" if "index_within Q st" for ws'
    using that by (simp add: index_within_def)
  have "queues_hold P ?e" if "queues_hold P st"
    using that by (simp add: evicted_def force_disconnect_within split: option.split)
  then have **: "queues_hold P (registered cfg ws' uid uname now ?e)" if "queues_hold P st" for ws'
    using that by (simp add: queues_hold_def new_connection_def queue_new_def)
  from * ** show "index_within Q st \<Longrightarrow> index_within Q (snd (connect api cfg ws uid uname now st))"
    "queues_hold P st \<Longrightarrow> queues_hold P (snd (connect api cfg ws uid uname now st))"
    by (cases "ws_accept api ws"; cases "fst (ws_accept api ws)"; simp add: connect_rejected connect_accepted)+
qed

lemma leave_within:
  shows "index_within Q st \<Longrightarrow> index_within Q (leave_room u r st)"
    and "queues_hold P st \<Longrightarrow> queues_hold P (leave_room u r st)"
  by (auto simp: index_within_def queues_hold_def leave_room_def split: option.splits)

lemma join_within:
  shows "index_within Q st \<Longrightarrow> Q r u \<Longrightarrow> index_within Q (join_room u r st)"
    and "queues_hold P st \<Longrightarrow> queues_hold P (join_room u r st)"
  by (auto simp: index_within_def queues_hold_def join_room_def split: option.splits)

lemma put_nowait_items: "put_nowait p q = Inr q' \<Longrightarrow> set (items q') = insert p (set (items q))"
  by (auto simp: put_nowait_def split: if_splits)

lemma send_within:
  shows "index_within Q (send_to_user u m st) \<longleftrightarrow> index_within Q st"
    and "queues_hold P st \<Longrightarrow> P (model_dump_json m) \<Longrightarrow> queues_hold P (send_to_user u m st)"
  by (auto simp: send_to_user_def put_nowait_items split: option.split sum.split intro!: queues_hold_upd_conn)

lemma broadcast_one_within:
  "queues_hold P st \<Longrightarrow> P p \<Longrightarrow> queues_hold P (broadcast_one ex p u st)"
  by (auto simp: broadcast_one_def put_nowait_items split: option.split sum.split intro!: queues_hold_upd_conn)

lemma broadcast_within:
  shows "index_within Q (broadcast_to_room r m ex st) \<longleftrightarrow> index_within Q st"
    and "queues_hold P st \<Longrightarrow> P (model_dump_json m) \<Longrightarrow> queues_hold P (broadcast_to_room r m ex st)"
proof -
  show "index_within Q (broadcast_to_room r m ex st) \<longleftrightarrow> index_within Q st"
    by (simp add: index_within_def broadcast_to_room_def)
  have "queues_hold P (fold (broadcast_one ex p) us st)" if "queues_hold P st" "P p" for us p
    using that by (induction us arbitrary: st) (auto intro: broadcast_one_within)
  then show "queues_hold P st \<Longrightarrow> P (model_dump_json m) \<Longrightarrow> queues_hold P (broadcast_to_room r m ex st)"
    by (simp add: broadcast_to_room_def)
qed

lemma drain_items: "set (items (send_queue (send_queue_step api conn))) \<subseteq> set (items (send_queue conn))"
  by (auto simp: send_queue_step_def queue_get_def Let_def split: option.splits sum.splits prod.splits list.splits if_splits)

lemma background_within:
  assumes "background api st st'"
  shows "index_within Q st \<Longrightarrow> index_within Q st'" and "queues_hold P st \<Longrightarrow> queues_hold P st'"
  using assms
  by (induction rule: background.induct)
    (auto intro!: queues_hold_upd_conn force_disconnect_within dest: subsetD [OF drain_items]
      simp: heartbeat_turn_def split: option.splits prod.splits sum.splits)

lemma background_step:
  assumes "background api st st'" "cm_reach api cfg st" shows "cm_reach api cfg st'"
  using assms
proof (induction rule: background.induct)
  case (bg_ping st c)
  have "cm_step api cfg st (upd_conn c (\<lambda>conn. conn\<lparr>websocket := w\<rparr>) st)" for w by (rule step_socket)
  with bg_ping show ?case
    by (auto simp: heartbeat_turn_def intro: reach_step split: option.split prod.split sum.split)
qed (auto intro: reach_step cm_step.intros)

section \<open>Redis\<close>

definition posts_only :: "(string \<times> wire \<Rightarrow> bool) \<Rightarrow> redis_store \<Rightarrow> bool" where
  "posts_only Q S \<longleftrightarrow> (\<forall>x\<in>set (published S). Q x)"

definition publishes_only :: "(string \<times> wire \<Rightarrow> bool) \<Rightarrow> redis_cmd \<Rightarrow> bool" where
  "publishes_only Q c \<longleftrightarrow> (case c of PUBLISH ch v \<Rightarrow> Q (ch, v) | _ \<Rightarrow> True)"

lemma publishes_only_simps [simp]:
  "publishes_only Q (ZADD k xs)" "publishes_only Q (ZREM k m)" "publishes_only Q (ZREMRANGEBYSCORE k a b)"
  "publishes_only Q (ZRANGEBYSCORE k a b')" "publishes_only Q (ZCARD k)" "publishes_only Q (ZSCORE k m)"
  "publishes_only Q (EXPIRE k n)" "publishes_only Q (HSET k f v)" "publishes_only Q (HGET k f)"
  "publishes_only Q (SETEX k n v)" "publishes_only Q (GETKEY k)" "publishes_only Q (DEL k)" "publishes_only Q (SCAN p)"
  "publishes_only Q (LPUSH k x)" "publishes_only Q (LTRIM k i j)" "publishes_only Q (PUBLISH ch x) \<longleftrightarrow> Q (ch, x)"
  by (simp_all add: publishes_only_def)

lemma posts_only_exec1:
  assumes "posts_only Q S" "publishes_only Q c" shows "posts_only Q (snd (exec1 t c S))"
proof (cases "\<exists>ch v. c = PUBLISH ch v")
  case True
  with assms show ?thesis by (auto simp: posts_only_def)
next
  case False
  then have "published (snd (exec1 t c S)) = published S" by (intro exec1_quiet) auto
  with assms(1) show ?thesis by (simp add: posts_only_def)
qed

lemma posts_only_exec:
  assumes "posts_only Q S" "\<forall>c\<in>set cs. publishes_only Q c" shows "posts_only Q (snd (exec t cs S))"
proof -
  have "posts_only Q (snd (exec_all t cs S))" if "posts_only Q S" for S
    using assms(2) that
  proof (induction cs arbitrary: S)
    case (Cons c cs)
    then have "posts_only Q (snd (exec1 t c S))" by (intro posts_only_exec1) auto
    with Cons show ?case by (auto split: prod.split simp: split_beta)
  qed simp
  moreover have "posts_only Q (purge t S)" using assms(1) by (simp add: posts_only_def)
  ultimately show ?thesis by (simp add: exec_def)
qed

lemma keeps_reply_at [keeps_intros]: "keeps P (reply_at xs i)"
  by (simp add: reply_at_def keeps_intros)

lemma keeps_as_int [keeps_intros]: "keeps P (as_int x)"
  by (cases x) (simp_all only: as_int.simps keeps_ret keeps_raise)

lemma keeps_as_strs [keeps_intros]: "keeps P (as_strs x)"
  by (cases x) (simp_all only: as_strs.simps keeps_ret keeps_raise)

lemma keeps_as_str [keeps_intros]: "keeps P (as_str x)"
  by (cases x) (simp_all only: as_str.simps keeps_ret keeps_raise)

context redis_atomic begin

abbreviation posts :: "(string \<times> wire \<Rightarrow> bool) \<Rightarrow> 'a \<Rightarrow> bool" where
  "posts Q r \<equiv> posts_only Q (view r)"

lemma keeps_redis [keeps_intros]:
  assumes "\<forall>c\<in>set cs. publishes_only Q c" shows "keeps (posts Q) (redis t cs)"
proof (rule keepsI)
  fix r assume Q: "posts Q r"
  obtain res r' where run: "redis t cs r = (res, r')" by fastforce
  show "posts Q (snd (redis t cs r))"
  proof (cases res)
    case (Inl e)
    with run Q failed show ?thesis by fastforce
  next
    case (Inr xs)
    with run executes have "view r' = snd (exec t cs (view r))" by (metis snd_conv)
    with run posts_only_exec [OF Q assms] show ?thesis by simp
  qed
qed

lemma keeps_redis1 [keeps_intros]: "publishes_only Q c \<Longrightarrow> keeps (posts Q) (redis1 redis t c)"
  unfolding redis1_def by (intro keeps_intros) simp

lemma keeps_log_redis:
  assumes "\<forall>c\<in>set cs. \<forall>ch v. c \<noteq> PUBLISH ch v" shows "keeps (\<lambda>r. published (view r) = L) (redis t cs)"
proof -
  have "published (snd (exec_all t cs S)) = published S" for S
    using assms by (induction cs arbitrary: S) (auto simp: split_beta exec1_quiet)
  then have quiet: "published (snd (exec t cs S)) = published S" for S by (simp add: exec_def)
  show ?thesis
  proof (rule keepsI)
    fix r assume L: "published (view r) = L"
    obtain res r' where run: "redis t cs r = (res, r')" by fastforce
    show "published (view (snd (redis t cs r))) = L"
    proof (cases res)
      case (Inl e)
      with run L failed show ?thesis by fastforce
    next
      case (Inr xs)
      with run executes have "view r' = snd (exec t cs (view r))" by (metis snd_conv)
      with run quiet L show ?thesis by simp
    qed
  qed
qed

lemma keeps_log_rate_limit: "keeps (\<lambda>r. published (view r) = L) (check_ws_rate_limit redis fs t u limit window)"
  unfolding check_ws_rate_limit_def check_rate_limit_def rate_pipeline_def Let_def
  by (intro keeps_bindE keeps_reply_at keeps_as_int keeps_if keeps_raise keeps_ret keeps_log_redis) simp

lemma keeps_rate_limit: "keeps (posts Q) (check_ws_rate_limit redis fs t u limit window)"
  unfolding check_ws_rate_limit_def check_rate_limit_def rate_pipeline_def Let_def
  by (intro keeps_intros) simp

lemma keeps_set_online: "keeps (posts Q) (set_online redis t room u name)"
  unfolding set_online_def by (intro keeps_intros) simp_all

lemma keeps_set_offline: "keeps (posts Q) (set_offline redis t room u)"
  unfolding set_offline_def by (intro keeps_intros) simp

lemma keeps_online_entries: "keeps (posts Q) (online_entries redis t us)"
proof (induction us)
  case Nil
  show ?case by (simp only: online_entries.simps keeps_ret)
next
  case (Cons u us)
  then show ?case unfolding online_entries.simps by (intro keeps_intros) simp_all
qed

lemma keeps_get_online: "keeps (posts Q) (get_online_users redis cfg t room)"
  unfolding get_online_users_def Let_def by (intro keeps_intros keeps_online_entries) simp_all

lemma keeps_set_typing: "keeps (posts Q) (set_typing redis t room u name)"
  unfolding set_typing_def by (intro keeps_intros) simp_all

lemma keeps_clear_typing: "keeps (posts Q) (clear_typing redis t room u)"
  unfolding clear_typing_def by (intro keeps_intros) simp_all

lemma keeps_dead_letter: "keeps (posts Q) (publish_dead_letter redis fs t b ch msg err)"
  unfolding publish_dead_letter_def by (intro keeps_intros) simp_all

lemma keeps_publish_loop:
  assumes "Q (ch, json_dumps msg)" shows "keeps (posts Q) (publish_loop redis fs es b ch msg attempt left t)"
proof (induction left arbitrary: attempt t)
  case 0
  show ?case by (simp only: publish_loop.simps keeps_ret)
next
  case (Suc left)
  show ?case
  proof (rule keepsI)
    fix r assume "posts Q r"
    obtain res r1 where res: "redis1 redis t (PUBLISH ch (json_dumps msg)) r = (res, r1)" by fastforce
    have r1: "posts Q r1"
      by (rule keepsD_eq [OF keeps_redis1 \<open>posts Q r\<close> res]) (simp add: assms)
    have "keeps (posts Q) (thenE (publish_dead_letter redis fs t b ch msg (es e))
        (publish_loop redis fs es b ch msg (Suc attempt) left t))" for e
      by (intro keeps_intros keeps_dead_letter Suc.IH)
    with r1 Suc.IH show "posts Q (snd (publish_loop redis fs es b ch msg attempt (Suc left) t r))"
      by (cases res) (auto simp: res intro: keepsD)
  qed
qed

lemma keeps_rb_publish: "Q (ch, json_dumps msg) \<Longrightarrow> keeps (posts Q) (rb_publish redis fs es t b ch msg)"
  unfolding rb_publish_def by (intro keeps_intros keeps_publish_loop)

end

section \<open>The invariant\<close>

text \<open>A room whose messages the instance delivers, and a user who was a member when joining.\<close>

definition served :: "('p, 'w conn_manager) redis_broker \<Rightarrow> string \<Rightarrow> bool" where
  "served b rid \<longleftrightarrow> map_of (rb_callbacks b) (''room:'' @ rid) = Some (room_message_handler rid)"

definition once_member :: "(uuid \<times> uuid) set \<Rightarrow> string \<Rightarrow> string \<Rightarrow> bool" where
  "once_member H rid uid \<longleftrightarrow> (\<exists>r u. UUID rid = Inr r \<and> UUID uid = Inr u \<and> (r, u) \<in> H)"

definition protocol_frame :: "wire \<Rightarrow> bool" where
  "protocol_frame p \<longleftrightarrow> (\<exists>m. p = model_dump_json m \<and> conforms m)"

definition protocol_post :: "string \<times> wire \<Rightarrow> bool" where
  "protocol_post x \<longleftrightarrow> (\<exists>rid t m. x = (''room:'' @ rid, json_dumps (envelope t m)) \<and> conforms m)"

definition handlers_ok :: "('p, 'w conn_manager) redis_broker \<Rightarrow> bool" where
  "handlers_ok b \<longleftrightarrow> (\<forall>ch cb. map_of (rb_callbacks b) ch = Some cb \<longrightarrow> (\<exists>rid. ch = ''room:'' @ rid \<and> cb = room_message_handler rid))"

definition broker_ok :: "'p pubsub_api \<Rightarrow> ('p, 'w conn_manager) redis_broker \<Rightarrow> bool" where
  "broker_ok api b \<longleftrightarrow> rb_reach api b \<and> listening b \<and> rb_redis b \<and> rb_pubsub b \<noteq> None \<and> handlers_ok b"

definition manager_ok ::
  "('w, 'p, 'r, 'd) env \<Rightarrow> (uuid \<times> uuid) set \<Rightarrow> ('p, 'w conn_manager) redis_broker \<Rightarrow> 'w conn_manager \<Rightarrow> bool" where
  "manager_ok env H b st \<longleftrightarrow> cm_reach (e_ws env) (e_cfg env) st
     \<and> index_within (\<lambda>rid uid. served b rid \<and> once_member H rid uid) st \<and> queues_hold protocol_frame st"

lemma protocol_post_envelope [simp]:
  "conforms m \<Longrightarrow> protocol_post (''room:'' @ rid, json_dumps (envelope t m))"
  by (auto simp: protocol_post_def)

lemma protocol_frame_dump [simp]: "conforms m \<Longrightarrow> protocol_frame (model_dump_json m)"
  by (auto simp: protocol_frame_def)

definition world_ok ::
  "('w, 'p, 'r, 'd) env \<Rightarrow> ('r \<Rightarrow> redis_store) \<Rightarrow> ('d \<Rightarrow> db_tables) \<Rightarrow> ('d \<Rightarrow> db_tables) \<Rightarrow> (uuid \<times> uuid) set \<Rightarrow>
   ('w, 'p, 'r, 'd) world \<Rightarrow> bool" where
  "world_ok env rview dview stored H w \<longleftrightarrow> manager_ok env H (w_broker w) (w_cm w) \<and> broker_ok (e_pubsub env) (w_broker w)
     \<and> posts_only protocol_post (rview (w_redis w)) \<and> db_ok dview stored (tables_within H) (w_db w)"

lemma served_subscribe: "served b rid \<Longrightarrow> served (snd (rb_subscribe api (''room:'' @ r) (room_message_handler r) b)) rid"
  by (auto simp: served_def rb_subscribe_def on_pubsub_def split: option.split prod.split)

lemma subscribe_served:
  assumes "rb_subscribe api (''room:'' @ r) (room_message_handler r) b = (Inr (), b')" "rb_pubsub b \<noteq> None" shows "served b' r"
  using assms by (auto simp: served_def rb_subscribe_def on_pubsub_def split: prod.splits)

lemma broker_ok_subscribe:
  assumes "broker_ok api b" shows "broker_ok api (snd (rb_subscribe api (''room:'' @ r) (room_message_handler r) b))"
proof -
  have "rb_reach api (snd (rb_subscribe api (''room:'' @ r) (room_message_handler r) b))"
    using assms by (auto simp: broker_ok_def intro: rb_sub)
  moreover have "handlers_ok (snd (rb_subscribe api (''room:'' @ r) (room_message_handler r) b))"
    using assms by (auto simp: broker_ok_def handlers_ok_def rb_subscribe_def on_pubsub_def split: option.split prod.split if_splits)
  ultimately show ?thesis
    using assms by (auto simp: broker_ok_def listening_def rb_subscribe_def on_pubsub_def split: option.split prod.split)
qed

text \<open>What the program relies on of its surroundings.\<close>

locale deployment =
  srv: redis_atomic "e_redis env" rview + ps: pubsub "e_pubsub env" channels + db: database "e_db env" dview stored
  for env :: "('w, 'p, 'r, 'd) env" and h :: "'d http_env" and rview :: "'r \<Rightarrow> redis_store"
    and channels :: "'p \<Rightarrow> string set" and dview :: "'d \<Rightarrow> db_tables" and stored :: "'d \<Rightarrow> db_tables" +
  assumes create_all: "dview (snd (en_create_all (h_engine h) d)) = dview d \<and> stored (snd (en_create_all (h_engine h) d)) = stored d"
begin

abbreviation ok :: "(uuid \<times> uuid) set \<Rightarrow> ('w, 'p, 'r, 'd) world \<Rightarrow> bool" where
  "ok \<equiv> world_ok env rview dview stored"

lemma ok_on_redis:
  assumes "keeps (srv.posts protocol_post) m" shows "keeps (ok H) (on_redis m)"
  using assms by (auto simp: keeps_def world_ok_def on_redis_def onE_def split: prod.split)

lemma ok_on_db:
  assumes "db_keeps dview stored (tables_within H) m" shows "keeps (ok H) (on_db (in_session (e_db env) m))"
  using db.db_ok_in_session_of [OF assms]
  by (auto simp: keeps_def world_ok_def on_db_def onE_def split: prod.split)

lemma ok_on_cm:
  assumes "\<And>w. ok H w \<Longrightarrow> manager_ok env H (w_broker w) (f (w_cm w))" shows "keeps (ok H) (on_cm f)"
  using assms by (auto simp: keeps_def world_ok_def on_cm_def)

lemma ok_tell: "conforms m \<Longrightarrow> keeps (ok H) (tell uid m)"
  unfolding tell_def
  by (rule ok_on_cm) (auto simp: world_ok_def manager_ok_def send_within intro: reach_step step_send)

lemma ok_activity: "keeps (ok H) (on_cm (upd_conn c (update_activity now)))"
proof (rule ok_on_cm)
  fix w assume "ok H w"
  moreover have "queues_hold protocol_frame (upd_conn c (update_activity now) (w_cm w))" if "queues_hold protocol_frame (w_cm w)"
    by (rule queues_hold_upd_conn [OF that]) (simp add: update_activity_def)
  ultimately show "manager_ok env H (w_broker w) (upd_conn c (update_activity now) (w_cm w))"
    by (auto simp: world_ok_def manager_ok_def intro: reach_step step_activity)
qed

lemma ok_disconnect: "keeps (ok H) (on_cm (disconnect (e_ws env) uid))"
  by (rule ok_on_cm) (auto simp: world_ok_def manager_ok_def intro: disconnect_within reach_step step_disconnect)

lemma ok_leave: "keeps (ok H) (onE w_cm w_cm_update (leave_json uid room_id))"
proof (rule keepsI)
  fix w assume ok: "ok H w"
  then have "manager_ok env H (w_broker w) (leave_room uid rid (w_cm w))" for rid
    by (auto simp: world_ok_def manager_ok_def intro: leave_within reach_step step_leave)
  with ok show "ok H (snd (onE w_cm w_cm_update (leave_json uid room_id) w))"
    by (cases room_id) (auto simp: onE_def leave_json_def world_ok_def)
qed

lemma ok_connect: "keeps (ok H) (onE w_cm w_cm_update (connect (e_ws env) (e_cfg env) ws uid name now))"
proof (rule keepsI)
  fix w assume "ok H w"
  then show "ok H (snd (onE w_cm w_cm_update (connect (e_ws env) (e_cfg env) ws uid name now) w))"
    by (auto simp: onE_def split_beta world_ok_def manager_ok_def intro: connect_within reach_step step_connect)
qed

lemma ok_publish:
  assumes "conforms m" shows "keeps (ok H) (broker_publish env now (''room:'' @ rid) (envelope t m))"
  by (rule keepsI) (simp only: broker_publish_def keepsD [OF ok_on_redis [OF srv.keeps_rb_publish]] assms protocol_post_envelope)

text \<open>The part of \<open>_handle_join_room\<close> that enters the room; the subscription comes first.\<close>

lemma ok_enter:
  assumes member: "once_member H rid uid" and rest: "keeps (ok H) k"
  shows "keeps (ok H) (thenE (on_broker (rb_subscribe (e_pubsub env) (''room:'' @ rid) (room_message_handler rid)))
           (thenE (on_cm (join_room uid rid)) k))"
proof (rule keepsI)
  fix w assume ok: "ok H w"
  let ?sub = "rb_subscribe (e_pubsub env) (''room:'' @ rid) (room_message_handler rid)"
  obtain res b where sub: "?sub (w_broker w) = (res, b)" by fastforce
  have "broker_ok (e_pubsub env) b"
    using ok broker_ok_subscribe [of "e_pubsub env" "w_broker w" rid] unfolding sub world_ok_def by simp
  moreover have "served b r" if "served (w_broker w) r" for r
    using served_subscribe [OF that, of "e_pubsub env" rid] unfolding sub by simp
  ultimately have w1: "ok H (w\<lparr>w_broker := b\<rparr>)"
    using ok by (auto simp: world_ok_def manager_ok_def elim: index_within_mono)
  have step: "on_broker ?sub w = (res, w\<lparr>w_broker := b\<rparr>)" by (simp only: on_broker_def onE_def sub prod.case)
  show "ok H (snd (thenE (on_broker ?sub) (thenE (on_cm (join_room uid rid)) k) w))"
  proof (cases res)
    case (Inl e)
    with step w1 show ?thesis by (simp add: thenE_def bindE_def)
  next
    case (Inr u)
    have "rb_pubsub (w_broker w) \<noteq> None" using ok by (simp add: world_ok_def broker_ok_def)
    with sub Inr have "served b rid" by (auto intro: subscribe_served)
    with w1 member have "ok H (w\<lparr>w_broker := b, w_cm := join_room uid rid (w_cm w)\<rparr>)"
      by (auto simp: world_ok_def manager_ok_def intro: join_within reach_step step_join)
    from keepsD [OF rest this] step Inr show ?thesis by (simp add: thenE_def bindE_def on_cm_def)
  qed
qed

lemma checked_member:
  assumes "on_db (in_session (e_db env) (bindE (liftX (UUID_json room_id)) (\<lambda>rid.
          bindE (liftX (UUID uid)) (\<lambda>u. rs_is_member (e_db env) rid u)))) w = (res, w1)"
    and "res = Inr is_member" "is_member" "ok H w"
  shows "once_member H (py_str room_id) uid"
proof -
  let ?body = "bindE (liftX (UUID_json room_id)) (\<lambda>rid. bindE (liftX (UUID uid)) (\<lambda>u. rs_is_member (e_db env) rid u))"
  obtain d1 where "?body (w_db w) = (Inr True, d1)"
    using assms(1-3) by (auto simp: on_db_def onE_def in_session_def split: prod.splits)
  then obtain r u where ids: "UUID_json room_id = Inr r" "UUID uid = Inr u" and m: "rs_is_member (e_db env) r u (w_db w) = (Inr True, d1)"
    by (auto elim!: bindE_InrE)
  have "memberships (dview (w_db w)) \<subseteq> H" using assms(4) by (simp add: world_ok_def db_ok_def tables_within_def)
  with db.is_member_true [OF m] have "(r, u) \<in> H" by blast
  moreover obtain s where "room_id = JStr s" "UUID s = Inr r" using ids(1) by (cases room_id) auto
  ultimately show ?thesis using ids(2) by (auto simp: once_member_def py_str_def)
qed

lemma ok_handle_join: "keeps (ok H) (handle_join_room env now uid name ed)"
proof -
  let ?check = "\<lambda>room_id. on_db (in_session (e_db env) (bindE (liftX (UUID_json room_id)) (\<lambda>rid.
          bindE (liftX (UUID uid)) (\<lambda>u. rs_is_member (e_db env) rid u))))"
  let ?enter = "\<lambda>room_id. let channel = room_channel room_id; rid = py_str room_id in
         thenE (on_broker (rb_subscribe (e_pubsub env) channel (room_message_handler rid)))
         (thenE (on_cm (join_room uid rid))
         (thenE (on_redis (set_online (e_redis env) now rid uid name))
         (thenE (broker_publish env now channel (envelope ''presence'' (presence_update room_id uid name ''online'')))
         (bindE (on_redis (get_online_users (e_redis env) (e_cfg env) now rid)) (\<lambda>online.
          tell uid (online_users_message room_id online))))))"
  have enter: "keeps (ok H) (?enter room_id)" if "once_member H (py_str room_id) uid" for room_id
    unfolding Let_def room_channel_def
    by (intro ok_enter [OF that] keeps_intros ok_on_redis srv.keeps_set_online srv.keeps_get_online ok_publish ok_tell) simp_all
  have checked: "keeps (ok H) (bindE (?check room_id) (\<lambda>is_member. if \<not> is_member
      then tell uid (error_message ''You are not a member of this room'' ''error'') else ?enter room_id))" for room_id
  proof (rule keepsI)
    fix w assume ok: "ok H w"
    obtain res w1 where run: "?check room_id w = (res, w1)" by fastforce
    have w1: "ok H w1" by (rule keepsD_eq [OF ok_on_db ok run]) (intro db_intros)
    show "ok H (snd (bindE (?check room_id) (\<lambda>is_member. if \<not> is_member
        then tell uid (error_message ''You are not a member of this room'' ''error'') else ?enter room_id) w))"
    proof (cases res)
      case (Inr is_member)
      have "once_member H (py_str room_id) uid" if "is_member"
        using run Inr that ok by (rule checked_member)
      with w1 have "ok H (snd ((if \<not> is_member then tell uid (error_message ''You are not a member of this room'' ''error'')
          else ?enter room_id) w1))"
        using keepsD [OF ok_tell] keepsD [OF enter] by (cases is_member) auto
      with run Inr show ?thesis by (simp only: bindE_Inr)
    next
      case (Inl e)
      with run w1 show ?thesis by (simp only: bindE_Inl snd_conv)
    qed
  qed
  show ?thesis
    unfolding handle_join_room_def
    by (intro keeps_bindE keeps_liftX keeps_if ok_tell checked) simp_all
qed

subsection \<open>The other handlers\<close>

lemma ok_handle_leave: "keeps (ok H) (handle_leave_room env now uid name ed)"
  unfolding handle_leave_room_def room_channel_def
  by (intro keeps_bindE keeps_liftX keeps_if keeps_ret keeps_thenE ok_leave ok_on_redis srv.keeps_set_offline ok_publish) simp

lemma ok_handle_message: "keeps (ok H) (handle_message env now uid name ed)"
  unfolding handle_message_def room_channel_def save_and_commit_def
  by (intro keeps_bindE keeps_liftX keeps_if ok_tell ok_publish ok_on_db db_intros grows_message) simp_all

lemma ok_handle_typing: "keeps (ok H) (handle_typing env now uid name ed start)"
  unfolding handle_typing_def room_channel_def
  by (cases start; simp only: if_True if_False;
      intro keeps_bindE keeps_liftX keeps_if keeps_ret keeps_thenE ok_on_redis srv.keeps_set_typing srv.keeps_clear_typing ok_publish; simp)

lemma ok_dispatch: "keeps (ok H) (dispatch_event env now uid name ev ed)"
  unfolding dispatch_event_def
  by (intro keeps_if ok_handle_join ok_handle_leave ok_handle_message ok_handle_typing ok_tell) simp_all

lemma ok_rate_checked:
  assumes "keeps (ok H) body" shows "keeps (ok H) (rate_checked env now uid body)"
proof (rule keepsI)
  fix w assume "ok H w"
  let ?m = "on_redis (check_ws_rate_limit (e_redis env) (e_float_str env) now uid (WS_RATE_LIMIT_PER_MINUTE (e_cfg env)) 60)"
  have "ok H (snd (?m w))" by (rule keepsD [OF ok_on_redis [OF srv.keeps_rate_limit] \<open>ok H w\<close>])
  then show "ok H (snd (rate_checked env now uid body w))"
    using keepsD [OF assms] keepsD [OF ok_tell [of "error_message ''Rate limit exceeded. Please slow down.'' ''rate_limited''"]]
    by (cases "?m w") (auto simp: rate_checked_def split: sum.split)
qed

lemma ok_handle_frame: "keeps (ok H) (handle_frame env c now uid name raw)"
proof (cases "json_loads raw")
  case (Inl e)
  then show ?thesis unfolding handle_frame_def by (simp only: sum.case) (intro keeps_thenE ok_activity ok_tell, simp)
next
  case (Inr j)
  then show ?thesis
    unfolding handle_frame_def
    by (simp only: sum.case) (intro keeps_thenE ok_activity keeps_bindE keeps_liftX ok_rate_checked ok_dispatch)
qed

lemma ok_cleanup: "keeps (ok H) (session_cleanup env c now uid name)"
proof (rule keepsI)
  fix w assume w: "ok H w"
  let ?m = "\<lambda>rs. thenE (forE rs (\<lambda>room_id.
          thenE (on_redis (set_offline (e_redis env) now room_id uid))
            (catchE (broker_publish env now (''room:'' @ room_id)
                       (envelope ''presence'' (presence_update (JStr room_id) uid name ''offline''))) (\<lambda>e. ret ()))))
       (on_cm (disconnect (e_ws env) uid))"
  have "keeps (ok H) (?m rs)" for rs
    by (intro keeps_thenE keeps_forE keeps_catchE keeps_ret ok_on_redis srv.keeps_set_offline ok_publish ok_disconnect) simp
  from keepsD [OF this w] show "ok H (snd (session_cleanup env c now uid name w))" unfolding session_cleanup_def .
qed

lemma ok_reject: "keeps (ok H) (reject env ws reason)"
  by (auto simp: keeps_def reject_def split: prod.split sum.split)

lemma ok_authenticate: "keeps (ok H) (authenticate env now ws token)"
  unfolding authenticate_def Let_def
  by (auto split: option.split intro!: keeps_bindE keeps_ret ok_reject ok_on_db db_intros)

lemma ok_session_start: "keeps (ok H) (session_start env now ws uid name)"
  unfolding session_start_def by (intro keeps_bindE keeps_thenE keeps_ret ok_connect ok_tell) simp

lemma ok_session_open: "keeps (ok H) (session_open env now ws token)"
  unfolding session_open_def
  by (auto split: sum.split intro!: keeps_bindE keeps_ret ok_authenticate ok_session_start)

end

subsection \<open>Messages from Redis\<close>

lemma handler_delivers:
  "\<exists>st'. room_message_handler rid ch (envelope t m) st = (Inr (), st') \<and> (st' = st \<or> (\<exists>ex. st' = broadcast_to_room rid m ex st))"
proof -
  have get: "json_get (envelope t m) ''type'' (JStr []) = Inr (JStr t)" "json_get (envelope t m) ''payload'' (JObj []) = Inr (model_dump m)"
    "json_get (model_dump m) ''data'' (JObj []) = Inr (JObj (wo_data m))"
    by (simp_all add: envelope_def model_dump_def)
  obtain v1 v2 where fields: "json_get (JObj (wo_data m)) ''sender_id'' (JStr []) = Inr v1"
    "json_get (JObj (wo_data m)) ''user_id'' (JStr []) = Inr v2" by simp
  have "room_message_handler rid ch (envelope t m) st =
      (Inr (), if t = ''chat'' \<or> t = ''presence'' \<or> t = ''system'' then broadcast_to_room rid m None st
               else if t = ''typing'' then broadcast_to_room rid m (excluded v2) st else st)"
    by (simp add: room_message_handler_def Let_def bindE_def thenE_def get fields del: json_get.simps)
  then show ?thesis by (intro exI conjI) (assumption, auto)
qed

lemma listen_delivers:
  assumes "listening b" "handlers_ok b" "protocol_post (ch, v)"
    and "listen_step api (Incoming ''message'' ch v) (b, st) = (b', st')"
  shows "b' = b" and "st' = st \<or> (\<exists>rid m ex. conforms m \<and> st' = broadcast_to_room rid m ex st)"
proof -
  obtain rid t m where x: "v = json_dumps (envelope t m)" "conforms m"
    using assms(3) by (auto simp: protocol_post_def)
  have "\<exists>st1. dispatch b ''message'' ch v st = (Inr (), st1) \<and> (st1 = st \<or> (\<exists>rid m ex. conforms m \<and> st1 = broadcast_to_room rid m ex st))"
    (is "\<exists>st1. _ \<and> ?P st1")
  proof (cases "map_of (rb_callbacks b) ch")
    case None
    then show ?thesis by (simp add: dispatch_def)
  next
    case (Some cb)
    with assms(2) obtain rid' where cb: "cb = room_message_handler rid'" by (auto simp: handlers_ok_def)
    obtain st1 where "room_message_handler rid' ch (envelope t m) st = (Inr (), st1)"
      "st1 = st \<or> (\<exists>ex. st1 = broadcast_to_room rid' m ex st)" using handler_delivers by blast
    with Some cb x show ?thesis by (auto simp: dispatch_def catchE_def bindE_def)
  qed
  then obtain st1 where st1: "dispatch b ''message'' ch v st = (Inr (), st1)" "?P st1" by blast
  with assms(1,4) have "b' = b" "st' = st1" by (simp_all add: listen_step_def listening_def)
  with st1(2) show "b' = b" "?P st'" by simp_all
qed

lemma manager_ok_deliver:
  assumes "manager_ok env H b st" "st' = st \<or> (\<exists>rid m ex. conforms m \<and> st' = broadcast_to_room rid m ex st)"
  shows "manager_ok env H b st'"
  using assms by (auto simp: manager_ok_def broadcast_within intro: reach_step step_broadcast)

text \<open>A broken connection: the broker is rebuilt or not, but it keeps its handlers and its task.\<close>

definition rebuilt :: "('p, 'm) redis_broker \<Rightarrow> ('p, 'm) redis_broker \<Rightarrow> bool" where
  "rebuilt b b' \<longleftrightarrow> rb_callbacks b' = rb_callbacks b \<and> rb_running b' = rb_running b \<and> rb_listener b' = rb_listener b
     \<and> rb_redis b' \<and> rb_pubsub b' \<noteq> None"

lemma reconnect_rebuilds: "rebuilt b (snd (rb_reconnect api b))"
proof -
  have pub: "keeps (rebuilt b) (on_pubsub m)" for m
    by (auto simp: keeps_def rebuilt_def on_pubsub_def split: option.split prod.split)
  have last: "keeps (rebuilt b) (\<lambda>b. (Inr (), b\<lparr>rb_reconnect_delay := 1\<rparr>))" by (simp add: keeps_def rebuilt_def)
  have "keeps (rebuilt b) (thenE (forE (keys (rb_callbacks b)) (\<lambda>channel. on_pubsub (ps_subscribe api channel)))
       (\<lambda>b. (Inr (), b\<lparr>rb_reconnect_delay := 1\<rparr>)))"
    by (intro keeps_thenE keeps_forE pub last)
  moreover have "rebuilt b (b\<lparr>rb_redis := True, rb_pubsub := Some (ps_new api)\<rparr>)" by (simp add: rebuilt_def)
  ultimately show ?thesis unfolding rb_reconnect_def by (rule keepsD)
qed

lemma broken_ok:
  assumes "broker_ok api b" "is_Exception e" "listen_step api (ListenError e) (b, st) = (b', st')"
  shows "st' = st" "broker_ok api b'" "served b' rid \<longleftrightarrow> served b rid"
proof -
  let ?d = "b\<lparr>rb_reconnect_delay := min (rb_reconnect_delay b * 2) max_reconnect_delay\<rparr>"
  have b': "b' = snd (catchE (rb_reconnect api) (\<lambda>e. ret ()) ?d)" "st' = st"
    using assms by (auto simp: listen_step_def broker_ok_def listening_def listen_recover_def)
  have "snd (catchE (rb_reconnect api) (\<lambda>e. ret ()) ?d) = snd (rb_reconnect api ?d)"
    by (auto simp: catchE_def split: prod.split sum.split)
  with b' reconnect_rebuilds [of ?d api] have r: "rebuilt b b'" by (simp add: rebuilt_def)
  moreover have "rb_reach api b'"
    using rb_event [of api b "ListenError e" st] assms by (simp add: broker_ok_def)
  ultimately show "broker_ok api b'" "served b' rid \<longleftrightarrow> served b rid"
    using assms(1) by (auto simp: rebuilt_def broker_ok_def listening_def handlers_ok_def served_def)
  show "st' = st" by (fact b')
qed

section \<open>The deployment\<close>

definition node_ok :: "('w, 'p, 'r, 'd) env \<Rightarrow> (uuid \<times> uuid) set \<Rightarrow> ('w, 'p) node \<Rightarrow> bool" where
  "node_ok env H n \<longleftrightarrow> manager_ok env H (n_broker n) (n_cm n) \<and> broker_ok (e_pubsub env) (n_broker n)
     \<and> (\<forall>x\<in>set (n_inbox n). protocol_post x)"

definition sys_ok ::
  "('w, 'p, 'r, 'd) env \<Rightarrow> ('r \<Rightarrow> redis_store) \<Rightarrow> ('d \<Rightarrow> db_tables) \<Rightarrow> ('d \<Rightarrow> db_tables) \<Rightarrow> (uuid \<times> uuid) set \<Rightarrow>
   ('w, 'p, 'r, 'd) system \<Rightarrow> bool" where
  "sys_ok env rview dview stored H s \<longleftrightarrow> (\<forall>n\<in>set (nodes s). node_ok env H n)
     \<and> posts_only protocol_post (rview (sy_redis s)) \<and> db_ok dview stored (tables_within H) (sy_db s)"

lemma node_ok_mono: "node_ok env H n \<Longrightarrow> H \<subseteq> H' \<Longrightarrow> node_ok env H' n"
  by (auto simp: node_ok_def manager_ok_def once_member_def elim!: index_within_mono)

lemma sys_ok_mono: "sys_ok env rview dview stored H s \<Longrightarrow> H \<subseteq> H' \<Longrightarrow> sys_ok env rview dview stored H' s"
  by (auto simp: sys_ok_def db_ok_def tables_within_def intro: node_ok_mono)

lemma sys_ok_node:
  "sys_ok env rview dview stored H s \<Longrightarrow> node_ok env H n \<Longrightarrow> sys_ok env rview dview stored H (s\<lparr>nodes := (nodes s)[i := n]\<rparr>)"
  by (auto simp: sys_ok_def dest: set_update_subset_insert [THEN subsetD])

lemma world_ok_at:
  "sys_ok env rview dview stored H s \<Longrightarrow> i < length (nodes s) \<Longrightarrow> world_ok env rview dview stored H (at_node i s)"
  by (auto simp: sys_ok_def world_ok_def at_node_def node_ok_def)

lemma set_news: "set (news S S') \<subseteq> set (published S')"
  by (simp add: news_def set_drop_subset)

lemma sys_ok_worked:
  assumes "sys_ok env rview dview stored H s" "world_ok env rview dview stored H w"
  shows "sys_ok env rview dview stored H (worked rview channels i w f s)"
proof -
  have new: "protocol_post x" if "x \<in> set (news S (rview (w_redis w)))" for x S
    using that assms(2) set_news by (auto simp: world_ok_def posts_only_def)
  let ?n = "(nodes s ! i)\<lparr>n_cm := w_cm w, n_broker := w_broker w, n_sessions := f (n_sessions (nodes s ! i))\<rparr>"
  have "node_ok env H (relay channels S (rview (w_redis w)) n)" if "n \<in> set ((nodes s)[i := ?n])" for n S
  proof -
    have "node_ok env H n"
    proof (cases "i < length (nodes s)")
      case True
      then have "node_ok env H (nodes s ! i)" using assms(1) by (auto simp: sys_ok_def)
      then have "node_ok env H ?n" using assms(2) by (simp add: node_ok_def world_ok_def)
      with that assms(1) show ?thesis by (auto simp: sys_ok_def dest: set_update_subset_insert [THEN subsetD])
    next
      case False
      then have "(nodes s)[i := ?n] = nodes s" by (intro list_update_beyond) simp
      with that assms(1) show ?thesis by (simp add: sys_ok_def)
    qed
    then show ?thesis using new by (auto simp: node_ok_def relay_def)
  qed
  then show ?thesis using assms(2) by (auto simp: sys_ok_def worked_def world_ok_def)
qed

context deployment begin

lemma keeps_http: "keeps (db_ok dview stored tables_ok) (http_exec env h now req)"
  by (cases req)
    (simp_all only: http_exec.simps; intro keeps_thenE keeps_ret db.keeps_routes [OF closed_tables_ok] db.keeps_health)+

lemma start_ok:
  assumes "sys_init rview dview stored s"
  shows "sys_ok env rview dview stored (memberships (stored (sy_db s))) s"
  using assms by (simp add: sys_init_def sys_ok_def posts_only_def db_ok_def tables_within_def)

lemma startup_db:
  assumes "lifespan_startup (h_engine h) api d = (res, d')" shows "dview d' = dview d \<and> stored d' = stored d"
proof -
  have "d' = snd (en_create_all (h_engine h) d)"
    using assms
    by (cases "en_create_all (h_engine h) d"; cases "fst (en_create_all (h_engine h) d)")
      (auto simp: lifespan_startup_def init_db_def thenE_def bindE_def split: prod.splits sum.splits)
  with create_all show ?thesis by simp
qed

lemma new_node_ok:
  assumes "lifespan_startup (h_engine h) (e_pubsub env) d = (Inr app, d')" shows "node_ok env H (new_node app)"
proof -
  obtain cm b where app: "app = (cm, b)" by (cases app)
  with assms have start: "lifespan_startup (h_engine h) (e_pubsub env) d = (Inr (cm, b), d')" by simp
  have cm: "cm = conn_manager_init" and con: "rb_connect (e_pubsub env) redis_broker_init = (Inr (), b)"
    by (rule startup_Inr [OF start], assumption)+
  have "broker_ok (e_pubsub env) b"
    by (rule connect_Inr [OF con])
      (use rb_start [OF con] in \<open>auto simp: broker_ok_def listening_def handlers_ok_def redis_broker_init_def\<close>)
  then show ?thesis by (simp add: app cm new_node_def node_ok_def manager_ok_def reach_init)
qed

lemma step_ok:
  assumes "sys_step env h rview channels s s'" "sys_ok env rview dview stored H s"
  shows "sys_ok env rview dview stored (H \<union> memberships (stored (sy_db s'))) s'"
  using assms
proof (induction rule: sys_step.induct)
  case (sys_boot s app d)
  from startup_db [OF sys_boot(1)] new_node_ok [OF sys_boot(1)] sys_boot(2)
  have "sys_ok env rview dview stored H (s\<lparr>nodes := nodes s @ [new_node app], sy_db := d\<rparr>)"
    by (auto simp: sys_ok_def db_ok_def)
  then show ?case by (rule sys_ok_mono) simp
next
  case (sys_boot_fails s e d)
  from startup_db [OF sys_boot_fails(1)] sys_boot_fails(2)
  have "sys_ok env rview dview stored H (s\<lparr>sy_db := d\<rparr>)" by (auto simp: sys_ok_def db_ok_def)
  then show ?case by (rule sys_ok_mono) simp
next
  case (sys_stop s i)
  then have "sys_ok env rview dview stored H (s\<lparr>nodes := take i (nodes s) @ drop (Suc i) (nodes s)\<rparr>)"
    by (auto simp: sys_ok_def dest: in_set_takeD in_set_dropD)
  then show ?case by (rule sys_ok_mono) simp
next
  case (sys_http s now req)
  let ?d = "snd (http_exec env h now req (sy_db s))"
  have "db_ok dview stored tables_ok (sy_db s)" using sys_http by (simp add: sys_ok_def db_ok_def tables_within_def)
  then have "db_ok dview stored tables_ok ?d" by (rule keepsD [OF keeps_http])
  with sys_http show ?case by (auto simp: sys_ok_def db_ok_def tables_within_def intro: node_ok_mono)
next
  case (sys_open i s now ws token res w)
  have "ok H w" by (rule keepsD_eq [OF ok_session_open world_ok_at sys_open(2)]) (use sys_open in auto)
  with sys_open(3) have "sys_ok env rview dview stored H (worked rview channels i w (opened res) s)" by (rule sys_ok_worked)
  then show ?case by (rule sys_ok_mono) simp
next
  case (sys_frame i s x now raw res w)
  have "ok H w" by (rule keepsD_eq [OF ok_handle_frame world_ok_at sys_frame(4)]) (use sys_frame in auto)
  with sys_frame(5) have "sys_ok env rview dview stored H (worked rview channels i w (after_frame x res) s)" by (rule sys_ok_worked)
  then show ?case by (rule sys_ok_mono) simp
next
  case (sys_close i s x now res w)
  have "ok H w" by (rule keepsD_eq [OF ok_cleanup world_ok_at sys_close(3)]) (use sys_close in auto)
  with sys_close(4) have "sys_ok env rview dview stored H (worked rview channels i w (remove1 x) s)" by (rule sys_ok_worked)
  then show ?case by (rule sys_ok_mono) simp
next
  case (sys_deliver i s ch v rest b st)
  then have n: "node_ok env H (nodes s ! i)" by (auto simp: sys_ok_def)
  then have "b = n_broker (nodes s ! i)"
    "st = n_cm (nodes s ! i) \<or> (\<exists>rid m ex. conforms m \<and> st = broadcast_to_room rid m ex (n_cm (nodes s ! i)))"
    using listen_delivers [OF _ _ _ sys_deliver(3)] sys_deliver(2) by (auto simp: node_ok_def broker_ok_def)
  with n sys_deliver(2) have "node_ok env H ((nodes s ! i)\<lparr>n_cm := st, n_broker := b, n_inbox := rest\<rparr>)"
    by (auto simp: node_ok_def intro: manager_ok_deliver)
  from sys_ok_node [OF sys_deliver(4) this] show ?case by (rule sys_ok_mono) simp
next
  case (sys_broken i s e b st)
  then have n: "node_ok env H (nodes s ! i)" by (auto simp: sys_ok_def)
  then have "broker_ok (e_pubsub env) (n_broker (nodes s ! i))" by (simp add: node_ok_def)
  note B = broken_ok [OF this sys_broken(2,3)]
  with n have "node_ok env H ((nodes s ! i)\<lparr>n_cm := st, n_broker := b, n_inbox := []\<rparr>)"
    by (auto simp: node_ok_def manager_ok_def)
  from sys_ok_node [OF sys_broken(4) this] show ?case by (rule sys_ok_mono) simp
next
  case (sys_background i s st)
  then have "node_ok env H (nodes s ! i)" by (auto simp: sys_ok_def)
  then have "node_ok env H ((nodes s ! i)\<lparr>n_cm := st\<rparr>)"
    using background_within [OF sys_background(2)] background_step [OF sys_background(2)]
    by (auto simp: node_ok_def manager_ok_def)
  from sys_ok_node [OF sys_background(3) this] show ?case by (rule sys_ok_mono) simp
qed

lemma reach_ok: "sys_reach env h rview channels dview stored H s \<Longrightarrow> sys_ok env rview dview stored H s"
  by (induction rule: sys_reach.induct) (auto intro: start_ok step_ok)

end

end
