(* ===== verification/Chat_Rate.thy ===== *)
theory Chat_Rate
  imports Chat_Props
begin

text \<open>
  The rate limit as a client of the chat meets it: the limiter shares its Redis server with
  presence, typing indicators, dead letters and the Pub/Sub log, all of which the handlers of
  admitted frames work on. None of them disturbs it, so a frame is acted on exactly when the
  sliding window over all frames of its user, on whatever session, admits it.
\<close>

section \<open>Nothing else disturbs the limiter\<close>

definition rate_key :: "string \<Rightarrow> string" where
  "rate_key uid = ''ratelimit:ws:'' @ uid"

definition limiter_sim ::
  "('w, 'p, 'r, 'd) env \<Rightarrow> ('r \<Rightarrow> redis_store) \<Rightarrow> timestamp \<Rightarrow> rate_request list \<Rightarrow> ('w, 'p, 'r, 'd) world \<Rightarrow> bool" where
  "limiter_sim env rview T past w \<longleftrightarrow> (\<forall>uid. rate_sim (e_float_str env) 60 T past (rview (w_redis w)) (rate_key uid))"

lemma limiter_sim_simps [simp]:
  "limiter_sim env rview T past (w\<lparr>w_cm := cm\<rparr>) = limiter_sim env rview T past w"
  "limiter_sim env rview T past (w\<lparr>w_db := d\<rparr>) = limiter_sim env rview T past w"
  "limiter_sim env rview T past (w\<lparr>w_broker := b\<rparr>) = limiter_sim env rview T past w"
  by (simp_all add: limiter_sim_def)

lemma keys_apart: "rate_key uid \<noteq> presence_key room" "rate_key uid \<noteq> ''usernames''" "rate_key uid \<noteq> typing_key room u"
  by (simp_all add: rate_key_def presence_key_def typing_key_def)

lemma limiter_sim_elsewhere:
  "keeps (limiter_sim env rview T past) (on_db m)"
  "keeps (limiter_sim env rview T past) (on_broker n)"
  "keeps (limiter_sim env rview T past) (on_cm f)"
  "keeps (limiter_sim env rview T past) (tell uid x)"
  "keeps (limiter_sim env rview T past) (onE w_cm w_cm_update k)"
  by (auto simp: keeps_def on_db_def on_broker_def on_cm_def tell_def onE_def split: prod.split)

locale limited_chat = srv: redis_available "e_redis env" rview
  for env :: "('w, 'p, 'r, 'd) env" and rview :: "'r \<Rightarrow> redis_store" +
  assumes stamps: "inj (e_float_str env)"
begin

abbreviation undisturbed :: "timestamp \<Rightarrow> rate_request list \<Rightarrow> 'r \<Rightarrow> bool" where
  "undisturbed T past r \<equiv> \<forall>uid. rate_sim (e_float_str env) 60 T past (rview r) (rate_key uid)"

lemma undisturbed_redis1:
  assumes "\<forall>uid. rate_key uid \<notin> set (cmd_keys c)"
  shows "keeps (undisturbed T past) (redis1 (e_redis env) T c)"
proof (rule keepsI)
  fix r assume sim: "undisturbed T past r"
  obtain x r' where "redis1 (e_redis env) T c r = (Inr x, r')" "rview r' = snd (exec1 T c (purge T (rview r)))"
    using srv.redis1_exec [of T c r] by blast
  with sim assms show "undisturbed T past (snd (redis1 (e_redis env) T c r))"
    by (simp add: rate_sim_other rate_sim_purge)
qed

lemma undisturbed_replies:
  "keeps (undisturbed T past) (as_str x)" "keeps (undisturbed T past) (as_strs x)"
  by (cases x; auto intro: keeps_intros)+

lemma undisturbed_entries: "keeps (undisturbed T past) (online_entries (e_redis env) T uids)"
proof (induction uids)
  case (Cons u uids)
  then show ?case unfolding online_entries.simps by (intro keeps_intros undisturbed_replies undisturbed_redis1) simp_all
qed (simp only: online_entries.simps keeps_ret)

lemma undisturbed_services:
  "keeps (undisturbed T past) (set_online (e_redis env) T room u name)"
  "keeps (undisturbed T past) (set_offline (e_redis env) T room u)"
  "keeps (undisturbed T past) (get_online_users (e_redis env) cfg T room)"
  "keeps (undisturbed T past) (set_typing (e_redis env) T room u name)"
  "keeps (undisturbed T past) (clear_typing (e_redis env) T room u)"
  unfolding set_online_def set_offline_def get_online_users_def set_typing_def clear_typing_def Let_def
  by (intro keeps_intros undisturbed_replies undisturbed_redis1 undisturbed_entries; simp add: keys_apart)+

lemma undisturbed_publish: "keeps (undisturbed T past) (rb_publish (e_redis env) fs es T b ch m)"
proof (rule keepsI)
  fix r assume sim: "undisturbed T past r"
  let ?c = "PUBLISH ch (json_dumps m)"
  obtain x r' where r': "redis1 (e_redis env) T ?c r = (Inr x, r')" using srv.redis1_exec [of T ?c r] by blast
  have "undisturbed T past (snd (redis1 (e_redis env) T ?c r))"
    by (rule keepsD [OF undisturbed_redis1]) (use sim in simp_all)
  with r' sim show "undisturbed T past (snd (rb_publish (e_redis env) fs es T b ch m r))"
    by (simp add: rb_publish_def publish_retries_def numeral_3_eq_3)
qed

abbreviation sim :: "timestamp \<Rightarrow> rate_request list \<Rightarrow> ('w, 'p, 'r, 'd) world \<Rightarrow> bool" where
  "sim \<equiv> limiter_sim env rview"

lemma sim_on_redis:
  assumes "keeps (undisturbed T past) m" shows "keeps (sim T past) (on_redis m)"
  using assms by (auto simp: keeps_def limiter_sim_def on_redis_def onE_def split: prod.split)

lemma sim_publish: "keeps (sim T past) (broker_publish env T ch m)"
  by (rule keepsI) (simp add: broker_publish_def keepsD [OF sim_on_redis [OF undisturbed_publish]])

lemmas sim_intros = keeps_intros limiter_sim_elsewhere sim_publish sim_on_redis undisturbed_services

lemma sim_handlers:
  "keeps (sim T past) (handle_join_room env T uid name ed)"
  "keeps (sim T past) (handle_leave_room env T uid name ed)"
  "keeps (sim T past) (handle_message env T uid name ed)"
  "keeps (sim T past) (handle_typing env T uid name ed b)"
  unfolding handle_join_room_def handle_leave_room_def handle_message_def handle_typing_def Let_def
  by (intro sim_intros; simp add: undisturbed_services)+

lemma sim_dispatch: "keeps (sim T past) (dispatch_event env T uid name ev ed)"
  unfolding dispatch_event_def by (intro sim_intros sim_handlers)

end

section \<open>Turns of all instances\<close>

text \<open>
  A turn is a frame of a session or the session's cleanup (no frame), with the state of the instance
  and of the database it meets. The turns of all instances, in the order they take place, hand on
  the Redis server only; everything else may have changed between them.
\<close>

record ('w, 'p, 'd) chat_turn =
  tn_cm :: "'w conn_manager"
  tn_broker :: "('p, 'w conn_manager) redis_broker"
  tn_db :: 'd
  tn_conn :: nat
  tn_user :: string
  tn_name :: string
  tn_time :: timestamp
  tn_frame :: "wire option"

definition turn_world :: "('w, 'p, 'd) chat_turn \<Rightarrow> 'r \<Rightarrow> ('w, 'p, 'r, 'd) world" where
  "turn_world f r = \<lparr>w_cm = tn_cm f, w_broker = tn_broker f, w_redis = r, w_db = tn_db f\<rparr>"

definition run_turn :: "('w, 'p, 'r, 'd) env \<Rightarrow> ('w, 'p, 'd) chat_turn \<Rightarrow> 'r \<Rightarrow> 'r" where
  "run_turn env f r = w_redis (snd
     (case tn_frame f of
        Some raw \<Rightarrow> handle_frame env (tn_conn f) (tn_time f) (tn_user f) (tn_name f) raw (turn_world f r)
      | None \<Rightarrow> session_cleanup env (tn_conn f) (tn_time f) (tn_user f) (tn_name f) (turn_world f r)))"

text \<open>The frames the limiter is asked about are the JSON objects.\<close>

definition limited_turn :: "('w, 'p, 'd) chat_turn \<Rightarrow> bool" where
  "limited_turn f \<longleftrightarrow> (case tn_frame f of None \<Rightarrow> False | Some raw \<Rightarrow> (case json_loads raw of Inr (JObj d) \<Rightarrow> True | _ \<Rightarrow> False))"

definition rate_history :: "('w, 'p, 'd) chat_turn list \<Rightarrow> rate_request list" where
  "rate_history fs = map (\<lambda>f. (rate_key (tn_user f), tn_time f)) (filter limited_turn fs)"

context limited_chat begin

lemma sim_cleanup: "keeps (sim T past) (session_cleanup env c T uid name)"
proof (rule keepsI)
  fix w assume ok: "sim T past w"
  let ?m = "\<lambda>rs. thenE (forE rs (\<lambda>room_id.
          thenE (on_redis (set_offline (e_redis env) T room_id uid))
            (catchE (broker_publish env T (''room:'' @ room_id)
                       (envelope ''presence'' (presence_update (JStr room_id) uid name ''offline''))) (\<lambda>e. ret ()))))
       (on_cm (disconnect (e_ws env) uid))"
  have "keeps (sim T past) (?m rs)" for rs by (intro sim_intros)
  from keepsD [OF this ok] show "sim T past (snd (session_cleanup env c T uid name w))"
    unfolding session_cleanup_def .
qed

text \<open>The limiter's answer to a frame, and what the frame does then.\<close>

lemma frame_verdict:
  assumes "sim T past w" "T \<le> now" "clocked (past @ [(rate_key uid, now)])"
  defines "m \<equiv> check_ws_rate_limit (e_redis env) (e_float_str env) now uid (WS_RATE_LIMIT_PER_MINUTE (e_cfg env)) 60"
  obtains r' where "m (w_redis w) = (verdict (WS_RATE_LIMIT_PER_MINUTE (e_cfg env)) 60 past (rate_key uid, now), r')"
    "sim now (past @ [(rate_key uid, now)]) (w\<lparr>w_redis := r'\<rparr>)"
proof -
  have now: "rate_sim (e_float_str env) 60 now past (rview (w_redis w)) (rate_key u)" for u
    using assms(1,2) by (auto simp: limiter_sim_def intro: rate_sim_later)
  obtain r' where r': "m (w_redis w) = (verdict (WS_RATE_LIMIT_PER_MINUTE (e_cfg env)) 60 past (rate_key uid, now), r')"
    "rate_sim (e_float_str env) 60 now (past @ [(rate_key uid, now)]) (rview r') (rate_key uid)"
    "\<And>k'. k' \<noteq> rate_key uid \<Longrightarrow> rate_sim (e_float_str env) 60 now past (rview (w_redis w)) k'
       \<Longrightarrow> rate_sim (e_float_str env) 60 now (past @ [(rate_key uid, now)]) (rview r') k'"
    unfolding m_def check_ws_rate_limit_def rate_key_def [symmetric]
    by (rule srv.check_rate_limit_step [OF now _ stamps assms(3), of "WS_RATE_LIMIT_PER_MINUTE (e_cfg env)"]) simp_all
  have "rate_sim (e_float_str env) 60 now (past @ [(rate_key uid, now)]) (rview r') (rate_key u)" for u
    by (cases "rate_key u = rate_key uid") (use r'(2,3) now in auto)
  with r'(1) show thesis by (intro that) (auto simp: limiter_sim_def)
qed

lemma limited_frame_runs:
  assumes "sim T past w" "T \<le> now" "clocked (past @ [(rate_key uid, now)])" and "json_loads raw = Inr (JObj d)"
  obtains ev ed r' where "json_get (JObj d) ''event'' (JStr []) = Inr ev" "json_get (JObj d) ''data'' (JObj []) = Inr ed"
    "sim now (past @ [(rate_key uid, now)]) (w\<lparr>w_cm := upd_conn c (update_activity now) (w_cm w), w_redis := r'\<rparr>)"
    "handle_frame env c now uid name raw w
      = (if int (recent 60 past (rate_key uid, now)) < WS_RATE_LIMIT_PER_MINUTE (e_cfg env)
         then dispatch_event env now uid name ev ed
         else tell uid (error_message ''Rate limit exceeded. Please slow down.'' ''rate_limited''))
        (w\<lparr>w_cm := upd_conn c (update_activity now) (w_cm w), w_redis := r'\<rparr>)"
proof -
  obtain ev ed where get: "json_get (JObj d) ''event'' (JStr []) = Inr ev" "json_get (JObj d) ''data'' (JObj []) = Inr ed"
    by simp
  let ?w = "w\<lparr>w_cm := upd_conn c (update_activity now) (w_cm w)\<rparr>"
  have "sim T past ?w" using assms(1) by simp
  then obtain r' where r': "check_ws_rate_limit (e_redis env) (e_float_str env) now uid (WS_RATE_LIMIT_PER_MINUTE (e_cfg env)) 60 (w_redis ?w)
      = (verdict (WS_RATE_LIMIT_PER_MINUTE (e_cfg env)) 60 past (rate_key uid, now), r')"
    "sim now (past @ [(rate_key uid, now)]) (?w\<lparr>w_redis := r'\<rparr>)"
    by (rule frame_verdict [OF _ assms(2,3)])
  have eq: "handle_frame env c now uid name raw w = rate_checked env now uid (dispatch_event env now uid name ev ed) ?w"
    using assms(4) get by (simp add: handle_frame_def thenE_def bindE_def on_cm_def del: json_get.simps)
  have "is_Exception (rate_limited 1)" by (simp add: rate_limited_def is_Exception_def)
  with r'(1) have "handle_frame env c now uid name raw w
      = (if int (recent 60 past (rate_key uid, now)) < WS_RATE_LIMIT_PER_MINUTE (e_cfg env)
         then dispatch_event env now uid name ev ed
         else tell uid (error_message ''Rate limit exceeded. Please slow down.'' ''rate_limited''))
        (?w\<lparr>w_redis := r'\<rparr>)"
    by (simp add: eq rate_checked_def on_redis_def onE_def verdict_def)
  with get r'(2) show thesis by (intro that) simp_all
qed

lemma unlimited_frame:
  assumes "\<And>d. json_loads raw \<noteq> Inr (JObj d)" shows "keeps (sim T past) (handle_frame env c now uid name raw)"
proof (cases "json_loads raw")
  case (Inr j)
  with assms obtain e where "json_get j ''event'' (JStr []) = Inl e" by (cases j) auto
  with Inr show ?thesis unfolding handle_frame_def by (auto intro!: keeps_intros limiter_sim_elsewhere)
qed (auto simp: handle_frame_def intro!: keeps_intros limiter_sim_elsewhere)

lemma unlimited_turn:
  assumes "\<not> limited_turn f" "undisturbed (tn_time f) past r" shows "undisturbed (tn_time f) past (run_turn env f r)"
proof -
  have w: "sim (tn_time f) past (turn_world f r)" using assms(2) by (simp add: limiter_sim_def turn_world_def)
  show ?thesis
  proof (cases "tn_frame f")
    case None
    with keepsD [OF sim_cleanup w] show ?thesis by (simp add: run_turn_def limiter_sim_def)
  next
    case (Some raw)
    with assms(1) have "json_loads raw \<noteq> Inr (JObj d)" for d by (auto simp: limited_turn_def)
    with Some keepsD [OF unlimited_frame w] show ?thesis by (simp add: run_turn_def limiter_sim_def)
  qed
qed

lemma limited_turn_step:
  assumes "limited_turn f" "undisturbed (tn_time f) past r" "clocked (past @ [(rate_key (tn_user f), tn_time f)])"
  shows "undisturbed (tn_time f) (past @ [(rate_key (tn_user f), tn_time f)]) (run_turn env f r)"
proof -
  let ?q = "(rate_key (tn_user f), tn_time f)"
  obtain raw d where raw: "tn_frame f = Some raw" "json_loads raw = Inr (JObj d)"
    using assms(1) by (auto simp: limited_turn_def split: option.splits sum.splits json.splits)
  have w: "sim (tn_time f) past (turn_world f r)" using assms(2) by (simp add: limiter_sim_def turn_world_def)
  show ?thesis
  proof (rule limited_frame_runs [OF w order_refl assms(3) raw(2), of "tn_conn f" "tn_name f"])
    fix ev ed r'
    let ?w = "(turn_world f r)\<lparr>w_cm := upd_conn (tn_conn f) (update_activity (tn_time f)) (w_cm (turn_world f r)), w_redis := r'\<rparr>"
    assume s: "sim (tn_time f) (past @ [?q]) ?w"
      and run: "handle_frame env (tn_conn f) (tn_time f) (tn_user f) (tn_name f) raw (turn_world f r)
      = (if int (recent 60 past ?q) < WS_RATE_LIMIT_PER_MINUTE (e_cfg env)
         then dispatch_event env (tn_time f) (tn_user f) (tn_name f) ev ed
         else tell (tn_user f) (error_message ''Rate limit exceeded. Please slow down.'' ''rate_limited'')) ?w"
    have "sim (tn_time f) (past @ [?q]) (snd (handle_frame env (tn_conn f) (tn_time f) (tn_user f) (tn_name f) raw (turn_world f r)))"
      unfolding run using keepsD [OF sim_dispatch s] keepsD [OF limiter_sim_elsewhere(4) s]
      by (cases "int (recent 60 past ?q) < WS_RATE_LIMIT_PER_MINUTE (e_cfg env)") (simp_all only: if_True if_False)
    with raw(1) show ?thesis by (simp add: run_turn_def limiter_sim_def)
  qed
qed

lemma turns_undisturbed:
  assumes "undisturbed T past r" "clocked (past @ rate_history fs)" "sorted (T # map tn_time fs)"
  shows "undisturbed (last (T # map tn_time fs)) (past @ rate_history fs) (fold (run_turn env) fs r)"
  using assms
proof (induction fs arbitrary: T past r)
  case (Cons f fs)
  have now: "undisturbed (tn_time f) past r" using Cons.prems(1,3) by (auto intro: rate_sim_later)
  have sorted: "sorted (tn_time f # map tn_time fs)" using Cons.prems(3) by simp
  show ?case
  proof (cases "limited_turn f")
    case False
    then have "rate_history (f # fs) = rate_history fs" by (simp add: rate_history_def)
    with Cons.IH [OF unlimited_turn [OF False now] _ sorted] Cons.prems(2) show ?thesis by simp
  next
    case True
    let ?q = "(rate_key (tn_user f), tn_time f)"
    have eq: "past @ rate_history (f # fs) = (past @ [?q]) @ rate_history fs" using True by (simp add: rate_history_def)
    have "clocked (past @ [?q])" using Cons.prems(2) unfolding eq by (auto simp: clocked_def sorted_append)
    from Cons.IH [OF limited_turn_step [OF True now this] _ sorted] Cons.prems(2) show ?thesis by (simp add: eq)
  qed
qed (simp add: rate_history_def)

end

interpretation sample_limiter: limited_chat sample_env id
  by (rule limited_chat.intro) (simp_all add: sample_env_def mem.redis_available_axioms limited_chat_axioms_def inj_fraction_str)


definition sample_turn :: "timestamp \<Rightarrow> wire \<Rightarrow> (bool \<times> wire list, string list, mem_db_state) chat_turn" where
  "sample_turn t raw = \<lparr>tn_cm = conn_manager_init, tn_broker = w_broker sample_world, tn_db = sample_db, tn_conn = 0,
     tn_user = ann, tn_name = ''ann'', tn_time = t, tn_frame = Some raw\<rparr>"


end
