(* ===== verification/System_Run.thy ===== *)
theory System_Run
  imports System_Inv Chat_Rate
begin

text \<open>
  A concrete deployment, on the stand-ins of the libraries: two instances are started, a user
  presents an access token to the first one and joins a room.
\<close>

type_synonym sample_system = "(bool \<times> wire list, string list, redis_store, mem_db_state) system"

definition sample_http :: "mem_db_state http_env" where
  "sample_http = \<lparr>h_engine = \<lparr>en_create_all = ret (), en_dispose = ret ()\<rparr>, h_bcrypt = plain_bcrypt, h_email_str = Some,
     h_fromisoformat = unary_from\<rparr>"

interpretation sample: deployment sample_env sample_http id set working committed
  by (intro deployment.intro deployment_axioms.intro)
    (simp_all add: sample_env_def sample_http_def mem.redis_atomic_axioms list_pubsub.pubsub_axioms mem_db.database_axioms)

abbreviation sample_reach :: "(uuid \<times> uuid) set \<Rightarrow> sample_system \<Rightarrow> bool" where
  "sample_reach \<equiv> sys_reach sample_env sample_http id set working committed"

definition sample_node :: "(bool \<times> wire list, string list) node" where
  "sample_node = new_node (conn_manager_init, w_broker sample_world)"

definition sample_booted :: sample_system where
  "sample_booted = \<lparr>nodes = [sample_node, sample_node], sy_redis = empty_store, sy_db = sample_db\<rparr>"

definition sample_token :: string where
  "sample_token = tr_access_token (issue_tokens plain_jwt default_settings 0 (hd (users sample_tables)))"

definition sample_session :: session where
  "sample_session = \<lparr>ss_conn = 0, ss_user = ann, ss_name = ''ann'', ss_ended = False\<rparr>"

definition sample_open :: "(exn + session option) \<times> sample" where
  "sample_open = session_open sample_env 0 (False, []) (Some sample_token) sample_world"

definition sample_opened :: sample_system where
  "sample_opened = worked id set 0 (snd sample_open) (opened (fst sample_open)) sample_booted"

definition sample_join :: "(exn + unit) \<times> sample" where
  "sample_join = handle_frame sample_env 0 1 ann ''ann'' (event_frame ''join_room'' [(''room_id'', JStr den)]) (snd sample_open)"

definition sample_joined :: sample_system where
  "sample_joined = worked id set 0 (snd sample_join) (after_frame sample_session (fst sample_join)) sample_opened"

section \<open>The run is a run of the system\<close>

lemma at_worked [simp]: "i < length (nodes s) \<Longrightarrow> at_node i (worked rview channels i w f s) = w"
  by (simp add: at_node_def worked_def relay_def)

lemma worked_sessions [simp]:
  "i < length (nodes s) \<Longrightarrow> n_sessions (nodes (worked rview channels i w f s) ! i) = f (n_sessions (nodes s ! i))"
  "length (nodes (worked rview channels i w f s)) = length (nodes s)"
  by (simp_all add: worked_def relay_def)

lemma sample_boots: "lifespan_startup (h_engine sample_http) (e_pubsub sample_env) sample_db = (Inr (conn_manager_init, w_broker sample_world), sample_db)"
  by (simp add: lifespan_startup_def init_db_def sample_http_def sample_env_def sample_world_def rb_connect_def on_pubsub_def
      redis_broker_init_def list_pubsub_def thenE_def bindE_def)

lemma booted_reach: "\<exists>H. sample_reach H sample_booted"
proof -
  let ?s = "\<lparr>nodes = [], sy_redis = empty_store, sy_db = sample_db\<rparr> :: sample_system"
  have "sys_init id working committed ?s"
    using sample_ok by (simp add: sys_init_def empty_store_def db_ok_def sample_db_def)
  note r0 = sys_start [OF this, of sample_env sample_http set]
  have step: "sys_step sample_env sample_http id set s (s\<lparr>nodes := nodes s @ [sample_node], sy_db := sample_db\<rparr>)"
    if "sy_db s = sample_db" for s :: sample_system
    using sys_boot [of sample_http sample_env s] sample_boots that by (simp add: sample_node_def)
  note r1 = sys_next [OF r0 step, simplified]
  note r2 = sys_next [OF r1 step, simplified]
  then show ?thesis unfolding sample_booted_def by blast
qed

lemma sample_user:
  "tables_ok (working (w_db sample_world))" "hd (users sample_tables) \<in> set (users (working (w_db sample_world)))"
  "uuid_int (u_id (hd (users sample_tables))) < 2 ^ 128" "u_is_active (hd (users sample_tables))"
  "u_username (hd (users sample_tables)) = ''ann''" "str_uuid (u_id (hd (users sample_tables))) = ann"
  using sample_ok by (simp_all add: sample_world_def sample_db_def sample_tables_def ann_def)

lemma sample_open_result:
  "fst sample_open = Inr (Some sample_session)" "w_broker (snd sample_open) = w_broker sample_world"
  "w_redis (snd sample_open) = empty_store" "working (w_db (snd sample_open)) = sample_tables"
  "get_connection ann (w_cm (snd sample_open)) = Some 0" "committed (w_db (snd sample_open)) = sample_tables"
  "\<exists>conn p. heap (w_cm (snd sample_open)) 0 = Some conn \<and> p \<in> set (items (send_queue conn))"
proof -
  have "jwt (e_jwt sample_env)" by (simp add: sample_env_def plain_jwt.jwt_axioms)
  note auth = authenticate_access [OF this sample_up(1) sample_user(1-3), of 0 0 "(False, [])"]
  have tok: "sample_token = tr_access_token (issue_tokens (e_jwt sample_env) (e_cfg sample_env) 0 (hd (users sample_tables)))"
    by (simp add: sample_token_def sample_env_def)
  obtain d' where d': "authenticate sample_env 0 (False, []) (Some sample_token) sample_world = (Inr (Inl (ann, ''ann'')), sample_world\<lparr>w_db := d'\<rparr>)"
    "working d' = sample_tables" "committed d' = sample_tables"
  proof (rule auth)
    show "\<not> \<lfloor>0 + rat_of_int (ACCESS_TOKEN_EXPIRE_MINUTES (e_cfg sample_env) * 60)\<rfloor> < \<lfloor>0::rat\<rfloor>"
      by (simp add: sample_env_def default_settings_def)
  next
    fix d'
    assume "authenticate sample_env 0 (False, []) (Some (tr_access_token (issue_tokens (e_jwt sample_env) (e_cfg sample_env) 0 (hd (users sample_tables))))) sample_world
      = (if u_is_active (hd (users sample_tables)) then Inr (Inl (str_uuid (u_id (hd (users sample_tables))), u_username (hd (users sample_tables))))
         else refused sample_env (False, []) ''User not found'', sample_world\<lparr>w_db := d'\<rparr>)"
      and "committed d' = committed (w_db sample_world)" "working d' = committed (w_db sample_world)"
    then show thesis
      by (intro that [of d']) (simp_all add: tok sample_user, simp_all add: sample_world_def sample_db_def)
  qed
  let ?start = "session_start sample_env 0 (False, []) ann ''ann'' (sample_world\<lparr>w_db := d'\<rparr>)"
  have start: "fst ?start = Inr 0" "w_broker (snd ?start) = w_broker sample_world" "w_redis (snd ?start) = empty_store"
    "w_db (snd ?start) = d'" "get_connection ann (w_cm (snd ?start)) = Some 0"
    "\<exists>conn p. heap (w_cm (snd ?start)) 0 = Some conn \<and> p \<in> set (items (send_queue conn))"
    by (simp_all add: session_start_def sample_world_def connect_def sample_env_def list_ws_def conn_manager_init_def thenE_def
        bindE_def onE_def tell_def on_cm_def get_connection_def Let_def send_to_user_def upd_conn_def split: option.split sum.split)
      (auto simp: new_connection_def queue_new_def queue_full_def put_nowait_def default_settings_def)
  have eq: "sample_open = (Inr (Some sample_session), snd ?start)"
    using d'(1) start(1) by (cases ?start) (simp add: sample_open_def session_open_def sample_session_def bindE_def)
  show "fst sample_open = Inr (Some sample_session)" "w_broker (snd sample_open) = w_broker sample_world"
    "w_redis (snd sample_open) = empty_store" "working (w_db (snd sample_open)) = sample_tables"
    "get_connection ann (w_cm (snd sample_open)) = Some 0" "committed (w_db (snd sample_open)) = sample_tables"
    "\<exists>conn p. heap (w_cm (snd sample_open)) 0 = Some conn \<and> p \<in> set (items (send_queue conn))"
    by (simp_all only: eq fst_conv snd_conv start d'(2,3))
qed

lemma sample_join_runs:
  obtains w us where "sample_join = (Inr (), w)"
    "w_cm w = send_to_user ann (online_users_message (JStr den) us)
       (join_room ann den (upd_conn 0 (update_activity 1) (w_cm (snd sample_open))))"
    "limiter_sim sample_env id 1 [(rate_key ann, 1)] w" "committed (w_db w) = sample_tables"
proof -
  let ?w = "snd sample_open" and ?d = "[(''event'', JStr ''join_room''), (''data'', join_event den)]"
  let ?raw = "event_frame ''join_room'' [(''room_id'', JStr den)]"
  have raw: "json_loads ?raw = Inr (JObj ?d)" by (simp add: event_frame_def join_event_def)
  have s0: "limiter_sim sample_env id 1 [] ?w"
    by (simp add: limiter_sim_def sample_open_result empty_store_def rate_sim_init)
  have "clocked ([] @ [(rate_key ann, 1)])" by (simp add: clocked_def)
  note frame = sample_limiter.limited_frame_runs [OF s0 order_refl this raw, of 0 "''ann''"]
  obtain r' where r': "limiter_sim sample_env id 1 [(rate_key ann, 1)] (?w\<lparr>w_cm := upd_conn 0 (update_activity 1) (w_cm ?w), w_redis := r'\<rparr>)"
    "sample_join = handle_join_room sample_env 1 ann ''ann'' (join_event den)
       (?w\<lparr>w_cm := upd_conn 0 (update_activity 1) (w_cm ?w), w_redis := r'\<rparr>)"
    by (rule frame, rule that)
      (simp_all add: sample_join_def recent_def dispatch_event_def, simp add: sample_env_def default_settings_def)
  let ?v = "?w\<lparr>w_cm := upd_conn 0 (update_activity 1) (w_cm ?w), w_redis := r'\<rparr>"
  have "tables_ok (working (w_db ?v))" "(UUID_of 3, UUID_of 1) \<in> memberships (working (w_db ?v))" "den \<noteq> []"
    using sample_ok by (simp_all add: sample_open_result sample_tables_def memberships_def den_def)
  moreover have "rb_redis (w_broker ?v)" "rb_pubsub (w_broker ?v) \<noteq> None"
    by (simp_all add: sample_open_result sample_world_def rb_connect_def on_pubsub_def thenE_def bindE_def list_pubsub_def redis_broker_init_def)
  ultimately obtain us w where "handle_join_room sample_env 1 ann ''ann'' (join_event den) ?v = (Inr (), w)"
    "w_cm w = send_to_user ann (online_users_message (JStr den) us) (join_room ann den (w_cm ?v))"
    "committed (w_db w) = committed (w_db ?v)"
    using sample_up sample_ids by (elim handle_join_runs) assumption+
  moreover have "limiter_sim sample_env id 1 [(rate_key ann, 1)] (snd (handle_join_room sample_env 1 ann ''ann'' (join_event den) ?v))"
    by (rule keepsD [OF sample_limiter.sim_handlers(1) r'(1)])
  ultimately show thesis by (intro that [of w us]) (simp_all only: r'(2) snd_conv, simp_all add: sample_open_result)
qed

lemma room_users_send [simp]: "get_room_user_ids rid (send_to_user uid m st) = get_room_user_ids rid st"
  by (simp add: get_room_user_ids_def send_to_user_def upd_conn_def split: option.split sum.split)

lemma room_users_join: "get_connection uid st \<noteq> None \<Longrightarrow> uid \<in> set (get_room_user_ids rid (join_room uid rid st))"
  by (auto simp: get_room_user_ids_def get_connection_def join_room_def room_add_def set_add_def)

lemma sample_opened_queue:
  obtains conn p where "heap (n_cm (nodes sample_opened ! 0)) 0 = Some conn" "p \<in> set (items (send_queue conn))"
  using sample_open_result(7) by (auto simp: sample_opened_def sample_booted_def worked_def relay_def)

lemma connection_send [simp]: "get_connection u (send_to_user uid m st) = get_connection u st"
  by (simp add: get_connection_def send_to_user_def upd_conn_def split: option.split sum.split)

lemma connection_join [simp]: "get_connection u (join_room uid rid st) = get_connection u st"
  by (simp add: get_connection_def join_room_def upd_conn_def split: option.split)

lemma sample_joined_connection: "get_connection ann (n_cm (nodes sample_joined ! 0)) = Some 0"
proof -
  obtain w us where w: "sample_join = (Inr (), w)"
    "w_cm w = send_to_user ann (online_users_message (JStr den) us)
       (join_room ann den (upd_conn 0 (update_activity 1) (w_cm (snd sample_open))))" by (rule sample_join_runs)
  have "get_connection ann (w_cm w) = Some 0"
    using sample_open_result(5) unfolding w(2) connection_send connection_join by (simp add: get_connection_def upd_conn_def)
  then show ?thesis by (simp add: sample_joined_def worked_def relay_def sample_opened_def sample_booted_def w(1))
qed

lemma sample_joined_facts:
  "ann \<in> set (get_room_user_ids den (n_cm (nodes sample_joined ! 0)))"
  "length (nodes sample_joined) = 2" "committed (sy_db sample_joined) = sample_tables" "sy_redis sample_joined = w_redis (snd sample_join)"
proof -
  obtain w us where w: "sample_join = (Inr (), w)"
    "w_cm w = send_to_user ann (online_users_message (JStr den) us)
       (join_room ann den (upd_conn 0 (update_activity 1) (w_cm (snd sample_open))))"
    "committed (w_db w) = sample_tables" by (rule sample_join_runs)
  have "get_connection ann (upd_conn 0 (update_activity 1) (w_cm (snd sample_open))) \<noteq> None"
    using sample_open_result(5) by (simp add: get_connection_def upd_conn_def)
  then have "ann \<in> set (get_room_user_ids den (w_cm w))" by (simp add: w(2) room_users_join)
  then show "ann \<in> set (get_room_user_ids den (n_cm (nodes sample_joined ! 0)))"
    by (simp add: sample_joined_def worked_def relay_def sample_opened_def sample_booted_def w(1))
  show "committed (sy_db sample_joined) = sample_tables" by (simp add: sample_joined_def worked_def w(1,3))
qed (simp_all add: sample_joined_def sample_opened_def sample_booted_def worked_def)

lemma opened_reach: "\<exists>H. sample_reach H sample_opened"
proof -
  obtain H where boot: "sample_reach H sample_booted" using booted_reach by blast
  have n: "0 < length (nodes sample_booted)" by (simp add: sample_booted_def)
  have "at_node 0 sample_booted = sample_world" by (simp add: at_node_def sample_booted_def sample_node_def new_node_def sample_world_def)
  then have "sys_step sample_env sample_http id set sample_booted sample_opened"
    unfolding sample_opened_def by (intro sys_open [OF n]) (simp add: sample_open_def)
  from sys_next [OF boot this] show ?thesis by blast
qed

lemma joined_reach: "\<exists>H. sample_reach H sample_joined"
proof -
  obtain H where op: "sample_reach H sample_opened" using opened_reach by blast
  have n: "0 < length (nodes sample_booted)" "0 < length (nodes sample_opened)"
    by (simp_all add: sample_booted_def sample_opened_def)
  have at: "at_node 0 sample_opened = snd sample_open" using n by (simp add: sample_opened_def)
  have "sample_session \<in> set (n_sessions (nodes sample_opened ! 0))"
    using n by (simp add: sample_opened_def sample_open_result)
  moreover have "handle_frame sample_env (ss_conn sample_session) 1 (ss_user sample_session) (ss_name sample_session)
      (event_frame ''join_room'' [(''room_id'', JStr den)]) (at_node 0 sample_opened) = sample_join"
    by (simp add: sample_join_def at sample_session_def)
  ultimately have "sys_step sample_env sample_http id set sample_opened sample_joined"
    unfolding sample_joined_def by (intro sys_frame [OF n(2)]) (simp_all add: sample_session_def)
  from sys_next [OF op this] show ?thesis by blast
qed

text \<open>The next frame of the user is within the limit.\<close>

lemma joined_admits:
  "fst (check_ws_rate_limit (e_redis sample_env) (e_float_str sample_env) 2 ann (WS_RATE_LIMIT_PER_MINUTE (e_cfg sample_env)) 60 (sy_redis sample_joined)) = Inr True"
proof -
  obtain w where w: "sample_join = (Inr (), w)" "limiter_sim sample_env id 1 [(rate_key ann, 1)] w" by (rule sample_join_runs)
  have "(1::timestamp) \<le> 2" "clocked ([(rate_key ann, 1)] @ [(rate_key ann, 2)])" by (simp_all add: clocked_def)
  note verdict = sample_limiter.frame_verdict [OF w(2) this]
  show ?thesis
    by (rule verdict)
      (simp_all add: sample_joined_facts w(1) verdict_def recent_def, simp add: sample_env_def default_settings_def)
qed

end
