(* ===== verification/Tasks.thy ===== *)
theory Tasks
  imports Prelude
begin

text \<open>
  Tasks of the event loop. A coroutine runs until it awaits something; then any other coroutine may
  run before it is resumed. A \<open>task\<close> is a computation cut at these points: it has returned, has
  raised, or makes one step on the state and continues as another task. \<open>run\<close> is the execution
  without interruption. Invariants under interleaving are shown with rely and guarantee:
  \<open>safe I R K Q t\<close> says that the task \<open>t\<close>, resumed at any moment, keeps the invariant \<open>I\<close> and changes
  the state within \<open>R\<close>, when \<open>K\<close> holds now, and that \<open>Q\<close> holds of what it returns.
\<close>

section \<open>Tasks\<close>

datatype ('s, 'a) task =
    Return 'a
  | Throw exn
  | Step "'s \<Rightarrow> ('s, 'a) task \<times> 's"

primrec run :: "('s, 'a) task \<Rightarrow> ('s, 'a) eff" where
  "run (Return x) = ret x"
| "run (Throw e) = raise e"
| "run (Step k) = (\<lambda>s. case map_prod run id (k s) of (m, s') \<Rightarrow> m s')"

primrec bindT :: "('s, 'a) task \<Rightarrow> ('a \<Rightarrow> ('s, 'b) task) \<Rightarrow> ('s, 'b) task" where
  "bindT (Return x) f = f x"
| "bindT (Throw e) f = Throw e"
| "bindT (Step k) f = Step (\<lambda>s. map_prod (\<lambda>t. bindT t f) id (k s))"

definition thenT :: "('s, 'a) task \<Rightarrow> ('s, 'b) task \<Rightarrow> ('s, 'b) task" where
  "thenT t u = bindT t (\<lambda>_. u)"

primrec catchT :: "('s, 'a) task \<Rightarrow> (exn \<Rightarrow> ('s, 'a) task) \<Rightarrow> ('s, 'a) task" where
  "catchT (Return x) h = Return x"
| "catchT (Throw e) h = (if is_Exception e then h e else Throw e)"
| "catchT (Step k) h = Step (\<lambda>s. map_prod (\<lambda>t. catchT t h) id (k s))"

primrec finallyT :: "('s, 'a) task \<Rightarrow> ('s, unit) task \<Rightarrow> ('s, 'a) task" where
  "finallyT (Return x) u = thenT u (Return x)"
| "finallyT (Throw e) u = thenT u (Throw e)"
| "finallyT (Step k) u = Step (\<lambda>s. map_prod (\<lambda>t. finallyT t u) id (k s))"

fun forT :: "'b list \<Rightarrow> ('b \<Rightarrow> ('s, unit) task) \<Rightarrow> ('s, unit) task" where
  "forT [] f = Return ()"
| "forT (x # xs) f = thenT (f x) (forT xs f)"

text \<open>A computation that is not interrupted, and one that does not touch the state.\<close>

definition act :: "('s, 'a) eff \<Rightarrow> ('s, 'a) task" where
  "act m = Step (\<lambda>s. case m s of (Inr x, s') \<Rightarrow> (Return x, s') | (Inl e, s') \<Rightarrow> (Throw e, s'))"

definition liftT :: "exn + 'a \<Rightarrow> ('s, 'a) task" where
  "liftT r = (case r of Inl e \<Rightarrow> Throw e | Inr x \<Rightarrow> Return x)"

text \<open>A task that depends on the state at its start, and runs to its first interruption at once.\<close>

definition enter :: "('s \<Rightarrow> ('s, 'a) task) \<Rightarrow> ('s, 'a) task" where
  "enter g = Step (\<lambda>s. case g s of Step k \<Rightarrow> k s | t \<Rightarrow> (t, s))"

text \<open>A task on a part of the state.\<close>

primrec onT :: "('s \<Rightarrow> 'p) \<Rightarrow> (('p \<Rightarrow> 'p) \<Rightarrow> 's \<Rightarrow> 's) \<Rightarrow> ('p, 'a) task \<Rightarrow> ('s, 'a) task" where
  "onT get upd (Return x) = Return x"
| "onT get upd (Throw e) = Throw e"
| "onT get upd (Step k) = Step (\<lambda>s. map_prod (onT get upd) (\<lambda>p. upd (\<lambda>_. p) s) (k (get s)))"

section \<open>Running without interruption\<close>

named_theorems run_simps \<open>what a task does when it runs without interruption\<close>

lemma run_Step: "run (Step k) s = run (fst (k s)) (snd (k s))"
  by (simp add: split_beta)

declare run.simps(3) [simp del]

lemma run_bindT [run_simps]: "run (bindT t f) = bindE (run t) (\<lambda>x. run (f x))"
proof
  show "run (bindT t f) s = bindE (run t) (\<lambda>x. run (f x)) s" for s
  proof (induction t arbitrary: s)
    case (Step k)
    have "run (bindT (fst (k s)) f) (snd (k s)) = bindE (run (fst (k s))) (\<lambda>x. run (f x)) (snd (k s))"
      by (rule Step) (auto simp: prod_set_defs intro: range_eqI)
    then show ?case by (simp add: run_Step bindE_def)
  qed (simp_all add: bindE_def)
qed

lemma run_thenT [run_simps]: "run (thenT t u) = thenE (run t) (run u)"
  by (simp add: thenT_def thenE_def run_bindT)

lemma run_catchT [run_simps]: "run (catchT t h) = catchE (run t) (\<lambda>e. run (h e))"
proof
  show "run (catchT t h) s = catchE (run t) (\<lambda>e. run (h e)) s" for s
  proof (induction t arbitrary: s)
    case (Step k)
    have "run (catchT (fst (k s)) h) (snd (k s)) = catchE (run (fst (k s))) (\<lambda>e. run (h e)) (snd (k s))"
      by (rule Step) (auto simp: prod_set_defs intro: range_eqI)
    then show ?case by (simp add: run_Step catchE_def)
  qed (simp_all add: catchE_def)
qed

lemma run_finallyT [run_simps]: "run (finallyT t u) = finallyE (run t) (run u)"
proof
  show "run (finallyT t u) s = finallyE (run t) (run u) s" for s
  proof (induction t arbitrary: s)
    case (Step k)
    have "run (finallyT (fst (k s)) u) (snd (k s)) = finallyE (run (fst (k s))) (run u) (snd (k s))"
      by (rule Step) (auto simp: prod_set_defs intro: range_eqI)
    then show ?case by (simp add: run_Step finallyE_def)
  qed (simp_all add: finallyE_def run_thenT thenE_def bindE_def split: prod.split sum.split)
qed

lemma run_forT [run_simps]: "run (forT xs f) = forE xs (\<lambda>x. run (f x))"
  by (induction xs) (simp_all add: run_thenT)

lemma run_act [run_simps]: "run (act m) = m"
  by (rule ext) (auto simp: act_def run_Step split: prod.split sum.split)

lemma run_liftT [run_simps]: "run (liftT r) = liftX r"
  by (rule ext, cases r) (simp_all add: liftT_def)

lemma run_enter [run_simps]: "run (enter g) s = run (g s) s"
  by (cases "g s") (simp_all add: enter_def run_Step)

lemma run_if [run_simps]: "run (if b then t else u) = (if b then run t else run u)"
  by simp

lemma run_case [run_simps]:
  "run (case_option t f x) = case_option (run t) (\<lambda>y. run (f y)) x"
  "run (case_sum g h z) = case_sum (\<lambda>y. run (g y)) (\<lambda>y. run (h y)) z"
  "run (case_prod k p) = case_prod (\<lambda>a b. run (k a b)) p"
  by (auto split: option.split sum.split prod.split)

lemma run_onT:
  assumes "\<And>s p. get (upd (\<lambda>_. p) s) = p" and "\<And>s p q. upd (\<lambda>_. q) (upd (\<lambda>_. p) s) = upd (\<lambda>_. q) s"
    and "\<And>s. upd (\<lambda>_. get s) s = s"
  shows "run (onT get upd t) = onE get upd (run t)"
proof
  show "run (onT get upd t) s = onE get upd (run t) s" for s
  proof (induction t arbitrary: s)
    case (Step k)
    have "run (onT get upd (fst (k (get s)))) (upd (\<lambda>_. snd (k (get s))) s)
        = onE get upd (run (fst (k (get s)))) (upd (\<lambda>_. snd (k (get s))) s)"
      by (rule Step) (auto simp: prod_set_defs intro: range_eqI)
    then show ?case by (simp add: run_Step onE_def assms split_beta)
  qed (simp_all add: onE_def assms(3))
qed

section \<open>Turns\<close>

text \<open>A task resumed in one state after the other; the states in between are up to the other tasks.\<close>

fun turns :: "('s, 'a) task \<Rightarrow> 's list \<Rightarrow> ('s, 'a) task \<times> 's list" where
  "turns (Step k) (s # ss) = (case k s of (t, s') \<Rightarrow> case turns t ss of (t', ss') \<Rightarrow> (t', s' # ss'))"
| "turns t ss = (t, [])"

lemma turns_act:
  "m s = (Inr x, s') \<Longrightarrow> turns (bindT (act m) f) (s # ss) = (case turns (f x) ss of (t, ss') \<Rightarrow> (t, s' # ss'))"
  by (simp add: act_def)

lemma turns_checked:
  "m s = (Inr x, s') \<Longrightarrow> turns (bindT (catchT (thenT (act m) (Return y)) h) f) (s # ss)
     = (case turns (f y) ss of (t, ss') \<Rightarrow> (t, s' # ss'))"
  by (simp add: act_def thenT_def)

section \<open>Rely and guarantee\<close>

text \<open>
  The state is paired with a history, of which assertions may speak; the program does not see it.
\<close>

type_synonym ('h, 's) assertion = "'h \<Rightarrow> 's \<Rightarrow> bool"
type_synonym ('h, 's) change = "'h \<times> 's \<Rightarrow> 'h \<times> 's \<Rightarrow> bool"

definition stable :: "('h, 's) change \<Rightarrow> ('h, 's) assertion \<Rightarrow> bool" where
  "stable R K \<longleftrightarrow> (\<forall>h s h' s'. R (h, s) (h', s') \<longrightarrow> K h s \<longrightarrow> K h' s')"

abbreviation always :: "('h, 's) assertion" where
  "always \<equiv> \<lambda>_ _. True"

lemma stable_always [simp]: "stable R always"
  by (simp add: stable_def)

lemma stableD: "stable R K \<Longrightarrow> R (h, s) (h', s') \<Longrightarrow> K h s \<Longrightarrow> K h' s'"
  unfolding stable_def by blast

inductive safe ::
  "('h, 's) assertion \<Rightarrow> ('h, 's) change \<Rightarrow> ('h, 's) assertion \<Rightarrow> ('a \<Rightarrow> ('h, 's) assertion) \<Rightarrow> ('s, 'a) task \<Rightarrow> bool"
  for I :: "('h, 's) assertion" and R :: "('h, 's) change" where
  safe_Return: "(\<And>h s. I h s \<Longrightarrow> K h s \<Longrightarrow> Q x h s) \<Longrightarrow> safe I R K Q (Return x)"
| safe_Throw: "safe I R K Q (Throw e)"
| safe_Step: "(\<And>h s. I h s \<Longrightarrow> K h s \<Longrightarrow> I h (snd (k s)) \<and> R (h, s) (h, snd (k s))
      \<and> (\<exists>K'. stable R K' \<and> K' h (snd (k s)) \<and> safe I R K' Q (fst (k s)))) \<Longrightarrow> safe I R K Q (Step k)"

inductive_cases safe_ReturnE: "safe I R K Q (Return x)"
inductive_cases safe_StepE: "safe I R K Q (Step k)"

named_theorems safe_intros \<open>compositional rules for invariants under interleaving\<close>

lemma safe_weaken:
  assumes "safe I R K Q t" "\<And>h s. I h s \<Longrightarrow> K' h s \<Longrightarrow> K h s"
  shows "safe I R K' Q t"
  using assms
proof (cases rule: safe.cases)
  case (safe_Return x)
  with assms(2) show ?thesis by (auto intro: safe.safe_Return)
next
  case (safe_Step k)
  have "I h (snd (k s)) \<and> R (h, s) (h, snd (k s)) \<and> (\<exists>K'. stable R K' \<and> K' h (snd (k s)) \<and> safe I R K' Q (fst (k s)))"
    if "I h s" "K' h s" for h s using safe_Step(2) [OF that(1) assms(2) [OF that]] .
  then show ?thesis unfolding safe_Step(1) by (rule safe.safe_Step)
qed (auto intro: safe_Throw)

lemma safe_post:
  assumes "safe I R K Q t" "\<And>x h s. I h s \<Longrightarrow> Q x h s \<Longrightarrow> Q' x h s"
  shows "safe I R K Q' t"
  using assms
proof (induction rule: safe.induct)
  case (safe_Return K Q x)
  then show ?case by (auto intro: safe.safe_Return)
next
  case (safe_Step K k Q)
  have "I h (snd (k s)) \<and> R (h, s) (h, snd (k s)) \<and> (\<exists>K'. stable R K' \<and> K' h (snd (k s)) \<and> safe I R K' Q' (fst (k s)))"
    if "I h s" "K h s" for h s using safe_Step.IH [OF that] safe_Step.prems by blast
  then show ?case by (rule safe.safe_Step)
qed (rule safe_Throw)

text \<open>
  The rules. A task is resumed at any later moment, so what holds between two parts of it has to be
  stable; after an exception nothing is known.
\<close>

lemma safe_bindT:
  assumes "safe I R K Q t" "\<And>x. safe I R (Q x) Q' (f x)"
  shows "safe I R K Q' (bindT t f)"
  using assms
proof (induction rule: safe.induct)
  case (safe_Return K Q x)
  then show ?case by (auto intro: safe_weaken)
next
  case (safe_Step K k Q)
  have "I h (snd (k s)) \<and> R (h, s) (h, snd (k s)) \<and> (\<exists>K'. stable R K' \<and> K' h (snd (k s)) \<and> safe I R K' Q' (bindT (fst (k s)) f))"
    if "I h s" "K h s" for h s using safe_Step.IH [OF that] safe_Step.prems by blast
  then show ?case by (auto intro!: safe.safe_Step)
qed (auto intro: safe_Throw)

lemma safe_then [safe_intros]:
  assumes "safe I R K (\<lambda>_. always) t" "safe I R always Q u" shows "safe I R K Q (thenT t u)"
  unfolding thenT_def using assms by (rule safe_bindT)

lemma safe_bind [safe_intros]:
  assumes "safe I R K (\<lambda>_. always) t" "\<And>x. safe I R always Q (f x)" shows "safe I R K Q (bindT t f)"
  using assms by (rule safe_bindT)

lemma safe_catch [safe_intros]:
  assumes "safe I R K Q t" "\<And>e. safe I R always Q (h e)"
  shows "safe I R K Q (catchT t h)"
  using assms
proof (induction rule: safe.induct)
  case (safe_Return K Q x)
  then show ?case by (auto intro: safe.safe_Return)
next
  case (safe_Throw K Q e)
  then show ?case by (auto intro: safe.safe_Throw safe_weaken)
next
  case (safe_Step K k Q)
  have "I h' (snd (k s)) \<and> R (h', s) (h', snd (k s)) \<and> (\<exists>K'. stable R K' \<and> K' h' (snd (k s)) \<and> safe I R K' Q (catchT (fst (k s)) h))"
    if "I h' s" "K h' s" for h' s using safe_Step.IH [OF that] safe_Step.prems by blast
  then show ?case by (auto intro!: safe.safe_Step)
qed

lemma safe_finally [safe_intros]:
  assumes "safe I R K (\<lambda>_. always) t" "safe I R always (\<lambda>_. always) u"
  shows "safe I R K (\<lambda>_. always) (finallyT t u)"
  using assms(1)
proof (induction t arbitrary: K rule: task.induct)
  case (Step k)
  show ?case unfolding finallyT.simps
  proof (rule safe_Step)
    fix h s assume "I h s" "K h s"
    with Step.prems obtain K' where "I h (snd (k s))" "R (h, s) (h, snd (k s))" "stable R K'" "K' h (snd (k s))"
      "safe I R K' (\<lambda>_. always) (fst (k s))" by (blast elim: safe_StepE)
    moreover from this(5) have "safe I R K' (\<lambda>_. always) (finallyT (fst (k s)) u)"
      by (rule Step.IH [rotated 2]) (auto simp: prod_set_defs intro: range_eqI)
    ultimately show "I h (snd (map_prod (\<lambda>t. finallyT t u) id (k s))) \<and> R (h, s) (h, snd (map_prod (\<lambda>t. finallyT t u) id (k s)))
        \<and> (\<exists>K'. stable R K' \<and> K' h (snd (map_prod (\<lambda>t. finallyT t u) id (k s)))
             \<and> safe I R K' (\<lambda>_. always) (fst (map_prod (\<lambda>t. finallyT t u) id (k s))))"
      by auto
  qed
qed (auto intro!: safe_then safe_weaken [OF assms(2)] safe_Return safe_Throw)

lemma safe_for [safe_intros]:
  assumes "\<And>x. x \<in> set xs \<Longrightarrow> safe I R always (\<lambda>_. always) (f x)"
  shows "safe I R K (\<lambda>_. always) (forT xs f)"
proof -
  have "safe I R always (\<lambda>_. always) (forT xs f)"
    using assms by (induction xs) (auto intro: safe_then safe_Return)
  then show ?thesis by (rule safe_weaken) simp
qed

lemma safe_if [safe_intros]: "(b \<Longrightarrow> safe I R K Q t) \<Longrightarrow> (\<not> b \<Longrightarrow> safe I R K Q u) \<Longrightarrow> safe I R K Q (if b then t else u)"
  by simp

lemma safe_liftT [safe_intros]: "safe I R K (\<lambda>_. always) (liftT r)"
  by (cases r) (auto simp: liftT_def intro: safe_Return safe_Throw)

lemma safe_Return_always [safe_intros]: "safe I R K (\<lambda>_. always) (Return x)"
  by (rule safe_Return) simp

lemmas safe_Throw_always [safe_intros] = safe_Throw

lemma safe_actI:
  assumes "\<And>h s r s'. I h s \<Longrightarrow> K h s \<Longrightarrow> m s = (r, s') \<Longrightarrow> I h s' \<and> R (h, s) (h, s') \<and> (\<forall>x. r = Inr x \<longrightarrow> Q x h s')"
    and "\<And>x. stable R (Q x)"
  shows "safe I R K Q (act m)"
  unfolding act_def
proof (rule safe_Step)
  fix h s assume *: "I h s" "K h s"
  obtain r s' where r: "m s = (r, s')" by (cases "m s")
  note a = assms(1) [OF * r]
  show "I h (snd (case m s of (Inr x, s') \<Rightarrow> (Return x, s') | (Inl e, s') \<Rightarrow> (Throw e, s')))
      \<and> R (h, s) (h, snd (case m s of (Inr x, s') \<Rightarrow> (Return x, s') | (Inl e, s') \<Rightarrow> (Throw e, s')))
      \<and> (\<exists>K'. stable R K' \<and> K' h (snd (case m s of (Inr x, s') \<Rightarrow> (Return x, s') | (Inl e, s') \<Rightarrow> (Throw e, s')))
          \<and> safe I R K' Q (fst (case m s of (Inr x, s') \<Rightarrow> (Return x, s') | (Inl e, s') \<Rightarrow> (Throw e, s'))))"
  proof (cases r)
    case (Inl e)
    with a r show ?thesis by (auto intro!: exI [of _ always] safe_Throw)
  next
    case (Inr x)
    with a r assms(2) show ?thesis by (auto intro!: exI [of _ "Q x"] safe_Return)
  qed
qed

text \<open>A task that depends on the state at its start: it starts in the state it depends on.\<close>

lemma safe_enter:
  assumes "\<And>h s. I h s \<Longrightarrow> K h s \<Longrightarrow> safe I R (\<lambda>h' s'. h' = h \<and> s' = s) Q (g s)"
    and "\<And>h s. R (h, s) (h, s)" and "\<And>x. stable R (Q x)"
  shows "safe I R K Q (enter g)"
  unfolding enter_def
proof (rule safe_Step)
  fix h s assume *: "I h s" "K h s"
  show "I h (snd (case g s of Step k \<Rightarrow> k s | t \<Rightarrow> (t, s))) \<and> R (h, s) (h, snd (case g s of Step k \<Rightarrow> k s | t \<Rightarrow> (t, s)))
      \<and> (\<exists>K'. stable R K' \<and> K' h (snd (case g s of Step k \<Rightarrow> k s | t \<Rightarrow> (t, s)))
          \<and> safe I R K' Q (fst (case g s of Step k \<Rightarrow> k s | t \<Rightarrow> (t, s))))"
  proof (cases "g s")
    case (Return x)
    with assms(1) [OF *] have "Q x h s" using * by (auto elim: safe_ReturnE)
    with Return * assms(2,3) show ?thesis by (auto intro!: exI [of _ "Q x"] safe_Return)
  next
    case (Throw e)
    with * assms(2) show ?thesis by (auto intro!: exI [of _ always] safe_Throw)
  next
    case (Step k)
    with assms(1) [OF *] * show ?thesis by (auto elim: safe_StepE)
  qed
qed

text \<open>Any step of a safe task, and any change within \<open>R\<close> meanwhile, leave it safe.\<close>

lemma safe_step:
  assumes "safe I R K Q (Step k)" "I h s" "K h s" "k s = (t, s')"
  shows "I h s'" "R (h, s) (h, s')" "\<exists>K'. stable R K' \<and> K' h s' \<and> safe I R K' Q t"
  using assms by (fastforce elim!: safe_StepE)+

text \<open>Run without interruption, a safe task ends with its invariant, having changed the state within \<open>R\<close>.\<close>

lemma safe_run:
  assumes "safe I R K Q t" "I h s" "K h s" and refl: "\<And>x. R x x" and trans: "\<And>x y z. R x y \<Longrightarrow> R y z \<Longrightarrow> R x z"
  shows "I h (snd (run t s)) \<and> R (h, s) (h, snd (run t s))"
  using assms(1-3)
proof (induction arbitrary: s rule: safe.induct)
  case (safe_Step K k Q)
  then obtain K' where K': "I h (snd (k s))" "R (h, s) (h, snd (k s))" "K' h (snd (k s))"
    "\<And>s'. I h s' \<Longrightarrow> K' h s' \<Longrightarrow> I h (snd (run (fst (k s)) s')) \<and> R (h, s') (h, snd (run (fst (k s)) s'))" by blast
  from K'(4) [OF K'(1,3)] K'(2) trans show ?case by (auto simp: run_Step)
qed (simp_all add: refl)

text \<open>Tasks on a part of the state; for their assertions, the rest of it is history.\<close>

lemma safe_onT:
  assumes "safe I R K Q t"
    and "\<And>h s. I' h s \<Longrightarrow> I (f h s) (get s)"
    and "\<And>h s p. I' h s \<Longrightarrow> I (f h s) p \<Longrightarrow> R (f h s, get s) (f h s, p) \<Longrightarrow> I' h (upd (\<lambda>_. p) s)"
    and "\<And>h s p. I' h s \<Longrightarrow> R (f h s, get s) (f h s, p) \<Longrightarrow> R' (h, s) (h, upd (\<lambda>_. p) s)"
    and "\<And>h s h' s'. R' (h, s) (h', s') \<Longrightarrow> R (f h s, get s) (f h' s', get s')"
    and "\<And>s p. get (upd (\<lambda>_. p) s) = p" and "\<And>h s p. f h (upd (\<lambda>_. p) s) = f h s"
  shows "safe I' R' (\<lambda>h s. K (f h s) (get s)) (\<lambda>x h s. Q x (f h s) (get s)) (onT get upd t)"
  using assms(1)
proof (induction rule: safe.induct)
  case (safe_Return K Q x)
  then show ?case using assms(2) by (auto intro: safe.safe_Return)
next
  case (safe_Step K k Q)
  show ?case unfolding onT.simps
  proof (rule safe.safe_Step)
    fix h s assume s: "I' h s" "K (f h s) (get s)"
    obtain t p where k: "k (get s) = (t, p)" by (cases "k (get s)")
    from safe_Step [OF assms(2) [OF s(1)] s(2)] obtain K' where K': "I (f h s) p" "R (f h s, get s) (f h s, p)" "stable R K'" "K' (f h s) p"
      "safe I' R' (\<lambda>h s. K' (f h s) (get s)) (\<lambda>x h s. Q x (f h s) (get s)) (onT get upd t)" by (auto simp: k)
    have "stable R' (\<lambda>h s. K' (f h s) (get s))" using K'(3) assms(5) unfolding stable_def by blast
    with K' assms(3,4,6,7) s(1) show "I' h (snd (map_prod (onT get upd) (\<lambda>p. upd (\<lambda>_. p) s) (k (get s))))
        \<and> R' (h, s) (h, snd (map_prod (onT get upd) (\<lambda>p. upd (\<lambda>_. p) s) (k (get s))))
        \<and> (\<exists>K'. stable R' K' \<and> K' h (snd (map_prod (onT get upd) (\<lambda>p. upd (\<lambda>_. p) s) (k (get s))))
            \<and> safe I' R' K' (\<lambda>x h s. Q x (f h s) (get s)) (fst (map_prod (onT get upd) (\<lambda>p. upd (\<lambda>_. p) s) (k (get s)))))"
      by (auto simp: k intro!: exI [of _ "\<lambda>h s. K' (f h s) (get s)"])
  qed
qed (auto intro: safe.safe_Throw)

end
