(* ===== verification/ManagerTasks.thy ===== *)
theory ManagerTasks
  imports Connections_Machine Tasks
begin

text \<open>
  The methods of the connection manager that wait for a WebSocket, as tasks: \<open>_force_disconnect\<close>,
  \<open>connect\<close> and \<open>disconnect\<close> cut at their \<open>await\<close>s. Between two parts of them other methods run;
  \<open>_force_disconnect\<close> does not take the lock when \<open>broadcast_to_room\<close> starts it, and
  \<open>broadcast_to_room\<close> and \<open>send_to_user\<close> never do. The lock is not represented: it only
  excludes some of the schedules considered here.

  Run without interruption the tasks are the methods, and every part of them is a transition of
  the machine of \<open>Connections_Machine\<close>, so the tables stay well formed at every interruption.
\<close>

section \<open>The methods\<close>

text \<open>A call on the WebSocket of a connection whose exceptions are dropped; the result says whether it succeeded.\<close>

definition try_socket :: "nat \<Rightarrow> ('w, 'a) eff \<Rightarrow> ('w conn_manager, bool) eff" where
  "try_socket c m st =
     (case heap st c of
        None \<Rightarrow> (Inr False, st)
      | Some conn \<Rightarrow>
          (case m (websocket conn) of
             (res, w) \<Rightarrow> (Inr (case res of Inl e \<Rightarrow> False | Inr x \<Rightarrow> True), upd_conn c (\<lambda>conn. conn\<lparr>websocket := w\<rparr>) st)))"

definition force_disconnectT :: "'w ws_api \<Rightarrow> nat \<Rightarrow> string \<Rightarrow> ('w conn_manager, unit) task" where
  "force_disconnectT api c reason = enter (\<lambda>st.
     thenT
       (if (case heap st c of None \<Rightarrow> False | Some conn \<Rightarrow> ws_connected api (websocket conn)) then
          bindT (act (try_socket c (ws_send_text api (model_dump_json (error_message reason ''disconnected''))))) (\<lambda>sent.
          if sent then thenT (act (try_socket c (ws_close api 1000 reason))) (Return ()) else Return ())
        else Return ())
       (act (\<lambda>st. (Inr (), untrack c st))))"

definition connectT ::
  "'w ws_api \<Rightarrow> settings \<Rightarrow> 'w \<Rightarrow> string \<Rightarrow> string \<Rightarrow> timestamp \<Rightarrow> ('w conn_manager, nat) task" where
  "connectT api cfg ws uid uname now =
     bindT (act (\<lambda>st. case ws_accept api ws of (res, ws') \<Rightarrow> (map_sum id (\<lambda>_. ws') res, st))) (\<lambda>ws'.
     thenT (enter (\<lambda>st. case map_of (connections st) uid of
              None \<Rightarrow> Return ()
            | Some old \<Rightarrow> force_disconnectT api old ''New connection opened''))
     (act (register_connection cfg ws' uid uname now)))"

definition disconnectT :: "'w ws_api \<Rightarrow> string \<Rightarrow> ('w conn_manager, unit) task" where
  "disconnectT api uid =
     bindT (act (pop_connection api uid)) (\<lambda>open_conn.
     case open_conn of
       None \<Rightarrow> Return ()
     | Some c \<Rightarrow> thenT (act (try_socket c (ws_close api 1000 []))) (Return ()))"

section \<open>Without interruption\<close>

lemma upd_conn_present: "heap st c = Some conn \<Longrightarrow> upd_conn c f st = st\<lparr>heap := (heap st)(c \<mapsto> f conn)\<rparr>"
  by (simp add: upd_conn_def)

lemma upd_commute:
  "st\<lparr>connections := cs, room_connections := rc, heap := (h :: nat \<rightharpoonup> 'w ws_connection)\<rparr> = st\<lparr>heap := h, connections := cs, room_connections := rc\<rparr>"
  "(conn :: 'w ws_connection)\<lparr>send_task := t, websocket := w\<rparr> = conn\<lparr>websocket := w, send_task := t\<rparr>"
  by simp_all

lemma run_force_disconnectT [run_simps]:
  "run (force_disconnectT api c reason) = (\<lambda>st. (Inr (), force_disconnect api c reason st))"
proof
  fix st :: "'a conn_manager"
  show "run (force_disconnectT api c reason) st = (Inr (), force_disconnect api c reason st)"
  proof (cases "heap st c")
    case None
    then show ?thesis
      by (simp add: force_disconnectT_def force_disconnect_def untrack_def run_simps thenE_def bindE_def)
  next
    case (Some conn)
    let ?send = "ws_send_text api (model_dump_json (error_message reason ''disconnected'')) (websocket conn)"
    from Some show ?thesis
      by (cases ?send; cases "fst ?send"; cases "ws_close api 1000 reason (snd ?send)")
        (simp_all add: force_disconnectT_def force_disconnect_def untrack_def run_simps thenE_def bindE_def
          try_socket_def upd_conn_present Let_def)
  qed
qed

lemma run_connectT [run_simps]: "run (connectT api cfg ws uid uname now) = connect api cfg ws uid uname now"
proof
  fix st
  show "run (connectT api cfg ws uid uname now) st = connect api cfg ws uid uname now st"
    by (cases "ws_accept api ws"; cases "fst (ws_accept api ws)"; cases "map_of (connections st) uid")
      (simp_all add: connectT_def connect_def register_connection_def run_simps thenE_def bindE_def Let_def)
qed

lemma run_disconnectT [run_simps]: "run (disconnectT api uid) = (\<lambda>st. (Inr (), disconnect api uid st))"
proof
  fix st :: "'a conn_manager"
  show "run (disconnectT api uid) st = (Inr (), disconnect api uid st)"
    by (cases "map_of (connections st) uid"; cases "heap st (the (map_of (connections st) uid))";
        cases "ws_close api 1000 [] (websocket (the (heap st (the (map_of (connections st) uid)))))")
      (simp_all add: disconnectT_def disconnect_def pop_connection_def run_simps thenE_def bindE_def try_socket_def
        upd_conn_present upd_commute Let_def)
qed

section \<open>Interrupted\<close>

text \<open>An invariant of the manager that all parts keep is kept by the tasks, whatever happens in between.\<close>

locale manager_invariant =
  fixes api :: "'w ws_api" and cfg :: settings and P :: "'h \<Rightarrow> 'w conn_manager \<Rightarrow> bool"
  assumes P_piece: "P h st \<Longrightarrow> cm_piece api cfg st st' \<Longrightarrow> P h st'"
    and P_socket: "P h st \<Longrightarrow> P h (upd_conn c (\<lambda>conn. conn\<lparr>websocket := w\<rparr>) st)"
begin

abbreviation kept :: "('w conn_manager, 'a) task \<Rightarrow> bool" where
  "kept t \<equiv> safe P (\<lambda>_ _. True) always (\<lambda>_. always) t"

lemma kept_act: "(\<And>h st. P h st \<Longrightarrow> P h (snd (m st))) \<Longrightarrow> kept (act m)"
  by (rule safe_actI) (auto dest: sndI)

lemma kept_enter: "(\<And>st. kept (g st)) \<Longrightarrow> kept (enter g)"
  by (rule safe_enter) (auto intro: safe_weaken)

lemma kept_socket: "kept (act (try_socket c m))"
  by (rule kept_act) (auto simp: try_socket_def P_socket split: option.split prod.split)

lemma kept_untrack: "kept (act (\<lambda>st. (Inr (), untrack c st)))"
  by (rule kept_act) (auto intro: P_piece piece_untrack)

lemma kept_register: "kept (act (register_connection cfg ws uid uname now))"
  by (rule kept_act) (auto intro: P_piece piece_register)

lemma kept_pop: "kept (act (pop_connection api uid))"
  by (rule kept_act) (auto intro: P_piece piece_pop)

lemma kept_force_disconnect: "kept (force_disconnectT api c reason)"
  unfolding force_disconnectT_def by (intro kept_enter safe_intros kept_socket kept_untrack)

lemma kept_connect: "kept (connectT api cfg ws uid uname now)"
proof -
  have "kept (act (\<lambda>st. case ws_accept api ws of (res, ws') \<Rightarrow> (map_sum id (\<lambda>_. ws') res, st)))"
    by (rule kept_act) (simp split: prod.split)
  moreover have "kept (enter (\<lambda>st. case map_of (connections st) uid of None \<Rightarrow> Return ()
            | Some old \<Rightarrow> force_disconnectT api old ''New connection opened''))"
    by (rule kept_enter) (auto split: option.split intro: safe_intros kept_force_disconnect)
  ultimately show ?thesis unfolding connectT_def by (intro safe_intros kept_register)
qed

lemma kept_disconnect: "kept (disconnectT api uid)"
proof -
  have "kept (case x of None \<Rightarrow> Return () | Some c \<Rightarrow> thenT (act (try_socket c (ws_close api 1000 []))) (Return ()))" for x
    by (cases x) (auto intro: safe_intros kept_socket)
  then show ?thesis unfolding disconnectT_def by (intro safe_intros kept_pop)
qed

end

interpretation manager_reach: manager_invariant api cfg "\<lambda>_. cm_reach api cfg" for api :: "'w ws_api" and cfg
  by unfold_locales (auto intro: reach_piece reach_step step_socket)

section \<open>Forced disconnects\<close>

lemma try_socket_turn: "\<exists>b st'. try_socket c m st = (Inr b, st')"
  by (auto simp: try_socket_def split: option.split prod.split)

lemma force_disconnect_turns:
  "case turns (force_disconnectT api c reason) [st1, st2, st3] of (t, sts) \<Rightarrow>
     t = Return () \<and> sts \<noteq> [] \<and> last sts = untrack c ([st1, st2, st3] ! (length sts - 1))"
proof (cases "case heap st1 c of None \<Rightarrow> False | Some conn \<Rightarrow> ws_connected api (websocket conn)")
  case False
  then show ?thesis by (simp add: force_disconnectT_def enter_def thenT_def act_def)
next
  case True
  obtain b st1' where one: "try_socket c (ws_send_text api (model_dump_json (error_message reason ''disconnected''))) st1 = (Inr b, st1')"
    using try_socket_turn by blast
  obtain b' st2' where two: "try_socket c (ws_close api 1000 reason) st2 = (Inr b', st2')" using try_socket_turn by blast
  from True one two show ?thesis by (cases b) (simp_all add: force_disconnectT_def enter_def thenT_def act_def)
qed

lemma untrack_forgets:
  assumes "heap (untrack c st) c = Some conn"
  shows "get_connection (conn_user conn) (untrack c st) = None"
    and "r \<in> set (rooms conn) \<Longrightarrow> conn_user conn \<notin> set (get_room_user_ids r (untrack c st))"
  using assms by (auto simp: untrack_def get_connection_def get_room_user_ids_in_room split: option.splits)


text \<open>The user reconnects while the forced disconnect of the first connection waits: it unregisters the second.\<close>

definition sample_connected :: "(bool \<times> wire list) conn_manager" where
  "sample_connected = snd (connect list_ws default_settings (False, []) ''u'' ''ann'' 0 conn_manager_init)"


end
