(* ===== verification/ChatTasks.thy ===== *)
theory ChatTasks
  imports ChatEndpoint ManagerTasks
begin

text \<open>
  The WebSocket endpoint as tasks of the event loop: the code of \<open>ChatEndpoint\<close> cut at its
  \<open>await\<close>s. One step is one command or transaction sent to Redis, one database session, one
  part of a method of the connection manager between two of its \<open>await\<close>s or one call of the Pub/Sub
  client, together with the code up to the next such point. Run without interruption, each task is the operation of \<open>ChatEndpoint\<close> or of
  the service it stands for.
\<close>

section \<open>Services\<close>

definition redisT :: "'r redis \<Rightarrow> timestamp \<Rightarrow> redis_cmd \<Rightarrow> ('r, redis_reply) task" where
  "redisT redis now c = act (redis1 redis now c)"

definition set_onlineT :: "'r redis \<Rightarrow> timestamp \<Rightarrow> string \<Rightarrow> string \<Rightarrow> string \<Rightarrow> ('r, unit) task" where
  "set_onlineT redis now room_id user_id username =
     thenT (redisT redis now (ZADD (presence_key room_id) [(user_id, now)]))
     (thenT (redisT redis now (HSET ''usernames'' user_id username))
     (Return ()))"

definition set_offlineT :: "'r redis \<Rightarrow> timestamp \<Rightarrow> string \<Rightarrow> string \<Rightarrow> ('r, unit) task" where
  "set_offlineT redis now room_id user_id =
     thenT (redisT redis now (ZREM (presence_key room_id) user_id)) (Return ())"

text \<open>What \<open>as_str\<close> and \<open>as_strs\<close> make of a reply, as values: reading a reply is no step.\<close>

fun str_reply :: "redis_reply \<Rightarrow> exn + string option" where
  "str_reply (RStr x) = Inr x"
| "str_reply _ = Inl (TypeError ''str'')"

fun strs_reply :: "redis_reply \<Rightarrow> exn + string list" where
  "strs_reply (RStrs xs) = Inr xs"
| "strs_reply _ = Inl (TypeError ''list'')"

fun online_entriesT :: "'r redis \<Rightarrow> timestamp \<Rightarrow> string list \<Rightarrow> ('r, (string \<times> string) list) task" where
  "online_entriesT redis now [] = Return []"
| "online_entriesT redis now (uid # uids) =
     bindT (bindT (redisT redis now (HGET ''usernames'' uid)) (\<lambda>x. liftT (str_reply x))) (\<lambda>username.
     bindT (online_entriesT redis now uids) (\<lambda>rest.
     Return ((uid, display_name username) # rest)))"

definition get_online_usersT ::
  "'r redis \<Rightarrow> settings \<Rightarrow> timestamp \<Rightarrow> string \<Rightarrow> ('r, (string \<times> string) list) task" where
  "get_online_usersT redis cfg now room_id =
     (let cutoff = now - of_int (PRESENCE_TIMEOUT_SECONDS cfg) in
      thenT (redisT redis now (ZREMRANGEBYSCORE (presence_key room_id) 0 cutoff))
      (bindT (bindT (redisT redis now (ZRANGEBYSCORE (presence_key room_id) cutoff None)) (\<lambda>x. liftT (strs_reply x))) (\<lambda>user_ids.
       online_entriesT redis now user_ids)))"

definition set_typingT :: "'r redis \<Rightarrow> timestamp \<Rightarrow> string \<Rightarrow> string \<Rightarrow> string \<Rightarrow> ('r, unit) task" where
  "set_typingT redis now room_id user_id username =
     thenT (redisT redis now (SETEX (typing_key room_id user_id) TYPING_TTL_SECONDS username)) (Return ())"

definition clear_typingT :: "'r redis \<Rightarrow> timestamp \<Rightarrow> string \<Rightarrow> string \<Rightarrow> ('r, unit) task" where
  "clear_typingT redis now room_id user_id =
     thenT (redisT redis now (DEL (typing_key room_id user_id))) (Return ())"

definition publish_dead_letterT ::
  "'r redis \<Rightarrow> (timestamp \<Rightarrow> string) \<Rightarrow> timestamp \<Rightarrow> ('p, 'm) redis_broker \<Rightarrow> string \<Rightarrow> json \<Rightarrow> string \<Rightarrow> ('r, unit) task" where
  "publish_dead_letterT redis float_str now b original_channel message error =
     (if \<not> rb_redis b then Return ()
      else catchT
        (thenT (redisT redis now (LPUSH ''dead_letter_queue''
                  (json_dumps (dead_letter float_str now original_channel message error))))
         (thenT (redisT redis now (LTRIM ''dead_letter_queue'' 0 9999)) (Return ())))
        (\<lambda>e. Return ()))"

text \<open>The attempts to publish; during the sleeps between them other tasks run.\<close>

fun publish_loopT ::
  "'r redis \<Rightarrow> (timestamp \<Rightarrow> string) \<Rightarrow> (exn \<Rightarrow> string) \<Rightarrow> ('p, 'm) redis_broker \<Rightarrow> string \<Rightarrow> json \<Rightarrow>
   nat \<Rightarrow> nat \<Rightarrow> timestamp \<Rightarrow> ('r, unit) task" where
  "publish_loopT redis float_str exn_str b channel message attempt 0 now = Return ()"
| "publish_loopT redis float_str exn_str b channel message attempt (Suc left) now =
     Step (\<lambda>r. case redis1 redis now (PUBLISH channel (json_dumps message)) r of
       (Inr _, r1) \<Rightarrow> (Return (), r1)
     | (Inl e, r1) \<Rightarrow>
         (if \<not> is_Exception e then Throw e
          else if attempt + 1 < publish_retries then
            publish_loopT redis float_str exn_str b channel message (Suc attempt) left (now + of_nat (attempt + 1) / 2)
          else
            thenT (publish_dead_letterT redis float_str now b channel message (exn_str e))
              (publish_loopT redis float_str exn_str b channel message (Suc attempt) left now), r1))"

definition rb_publishT ::
  "'r redis \<Rightarrow> (timestamp \<Rightarrow> string) \<Rightarrow> (exn \<Rightarrow> string) \<Rightarrow> timestamp \<Rightarrow> ('p, 'm) redis_broker \<Rightarrow> string \<Rightarrow> json \<Rightarrow> ('r, unit) task" where
  "rb_publishT redis float_str exn_str now b channel message =
     (if \<not> rb_redis b then Return ()
      else publish_loopT redis float_str exn_str b channel message 0 publish_retries now)"

section \<open>Handlers\<close>

type_synonym ('w, 'p, 'r, 'd, 'a) chat_task = "(('w, 'p, 'r, 'd) world, 'a) task"

definition on_redisT :: "('r, 'a) task \<Rightarrow> ('w, 'p, 'r, 'd, 'a) chat_task" where
  "on_redisT = onT w_redis w_redis_update"

definition on_cmT :: "('w conn_manager, 'a) task \<Rightarrow> ('w, 'p, 'r, 'd, 'a) chat_task" where
  "on_cmT = onT w_cm w_cm_update"

definition broker_publishT :: "('w, 'p, 'r, 'd) env \<Rightarrow> timestamp \<Rightarrow> string \<Rightarrow> json \<Rightarrow> ('w, 'p, 'r, 'd, unit) chat_task" where
  "broker_publishT env now channel message = enter (\<lambda>w.
     on_redisT (rb_publishT (e_redis env) (e_float_str env) (e_exn_str env) now (w_broker w) channel message))"

definition handle_join_roomT ::
  "('w, 'p, 'r, 'd) env \<Rightarrow> timestamp \<Rightarrow> string \<Rightarrow> string \<Rightarrow> json \<Rightarrow> ('w, 'p, 'r, 'd, unit) chat_task" where
  "handle_join_roomT env now user_id username event_data =
     bindT (liftT (json_get event_data ''room_id'' (JStr []))) (\<lambda>room_id.
     if \<not> truthy room_id then act (tell user_id (error_message ''room_id is required'' ''error''))
     else
       bindT (act (on_db (in_session (e_db env)
         (bindE (liftX (UUID_json room_id)) (\<lambda>rid.
          bindE (liftX (UUID user_id)) (\<lambda>uid.
          rs_is_member (e_db env) rid uid)))))) (\<lambda>is_member.
       if \<not> is_member then act (tell user_id (error_message ''You are not a member of this room'' ''error''))
       else
         let channel = room_channel room_id; rid = py_str room_id in
         thenT (act (on_broker (rb_subscribe (e_pubsub env) channel (room_message_handler rid))))
         (thenT (act (on_cm (join_room user_id rid)))
         (thenT (on_redisT (set_onlineT (e_redis env) now rid user_id username))
         (thenT (broker_publishT env now channel (envelope ''presence'' (presence_update room_id user_id username ''online'')))
         (bindT (on_redisT (get_online_usersT (e_redis env) (e_cfg env) now rid)) (\<lambda>online.
          act (tell user_id (online_users_message room_id online)))))))))"

definition handle_leave_roomT ::
  "('w, 'p, 'r, 'd) env \<Rightarrow> timestamp \<Rightarrow> string \<Rightarrow> string \<Rightarrow> json \<Rightarrow> ('w, 'p, 'r, 'd, unit) chat_task" where
  "handle_leave_roomT env now user_id username event_data =
     bindT (liftT (json_get event_data ''room_id'' (JStr []))) (\<lambda>room_id.
     if \<not> truthy room_id then Return ()
     else
       thenT (act (onE w_cm w_cm_update (leave_json user_id room_id)))
       (thenT (on_redisT (set_offlineT (e_redis env) now (py_str room_id) user_id))
       (broker_publishT env now (room_channel room_id)
          (envelope ''presence'' (presence_update room_id user_id username ''offline'')))))"

definition handle_messageT ::
  "('w, 'p, 'r, 'd) env \<Rightarrow> timestamp \<Rightarrow> string \<Rightarrow> string \<Rightarrow> json \<Rightarrow> ('w, 'p, 'r, 'd, unit) chat_task" where
  "handle_messageT env now user_id username event_data =
     bindT (liftT (json_get event_data ''room_id'' (JStr []))) (\<lambda>room_id.
     bindT (liftT (json_get event_data ''content'' (JStr []))) (\<lambda>content_value.
     bindT (liftT (json_strip content_value)) (\<lambda>content.
     bindT (liftT (json_get event_data ''idempotency_key'' JNull)) (\<lambda>idempotency_key.
     if \<not> truthy room_id \<or> content = [] then act (tell user_id (error_message ''room_id and content are required'' ''error''))
     else if length content > 5000 then act (tell user_id (error_message ''Message too long (max 5000 chars)'' ''error''))
     else
       bindT (act (on_db (save_and_commit env room_id user_id content idempotency_key))) (\<lambda>message.
       broker_publishT env now (room_channel room_id)
         (envelope ''chat'' (chat_message (str_uuid (ms_id message)) (py_str room_id) user_id username content ''text''
            (e_isoformat env (ms_created_at message)))))))))"

definition handle_typingT ::
  "('w, 'p, 'r, 'd) env \<Rightarrow> timestamp \<Rightarrow> string \<Rightarrow> string \<Rightarrow> json \<Rightarrow> bool \<Rightarrow> ('w, 'p, 'r, 'd, unit) chat_task" where
  "handle_typingT env now user_id username event_data start =
     bindT (liftT (json_get event_data ''room_id'' (JStr []))) (\<lambda>room_id.
     if \<not> truthy room_id then Return ()
     else
       thenT (on_redisT (if start then set_typingT (e_redis env) now (py_str room_id) user_id username
                         else clear_typingT (e_redis env) now (py_str room_id) user_id))
       (broker_publishT env now (room_channel room_id)
          (envelope ''typing'' (typing_indicator room_id user_id username start))))"

section \<open>The session\<close>

definition dispatch_eventT ::
  "('w, 'p, 'r, 'd) env \<Rightarrow> timestamp \<Rightarrow> string \<Rightarrow> string \<Rightarrow> json \<Rightarrow> json \<Rightarrow> ('w, 'p, 'r, 'd, unit) chat_task" where
  "dispatch_eventT env now user_id username event event_data =
     (if event = JStr ''join_room'' then handle_join_roomT env now user_id username event_data
      else if event = JStr ''leave_room'' then handle_leave_roomT env now user_id username event_data
      else if event = JStr ''message'' then handle_messageT env now user_id username event_data
      else if event = JStr ''typing_start'' then handle_typingT env now user_id username event_data True
      else if event = JStr ''typing_stop'' then handle_typingT env now user_id username event_data False
      else if event = JStr ''ping'' \<or> event = JStr ''pong'' then act (tell user_id pong)
      else act (tell user_id (error_message (''Unknown event: '' @ py_str event) ''error'')))"

text \<open>The rate limit is one transaction; whether the request was admitted decides how the turn goes on.\<close>

definition rate_checkedT ::
  "('w, 'p, 'r, 'd) env \<Rightarrow> timestamp \<Rightarrow> string \<Rightarrow> ('w, 'p, 'r, 'd, unit) chat_task \<Rightarrow> ('w, 'p, 'r, 'd, unit) chat_task" where
  "rate_checkedT env now user_id body =
     bindT (catchT
       (thenT (act (on_redis (check_ws_rate_limit (e_redis env) (e_float_str env) now user_id
                 (WS_RATE_LIMIT_PER_MINUTE (e_cfg env)) 60))) (Return True))
       (\<lambda>e. thenT (act (tell user_id (error_message ''Rate limit exceeded. Please slow down.'' ''rate_limited''))) (Return False)))
     (\<lambda>admitted. if admitted then body else Return ())"

definition handle_frameT ::
  "('w, 'p, 'r, 'd) env \<Rightarrow> nat \<Rightarrow> timestamp \<Rightarrow> string \<Rightarrow> string \<Rightarrow> wire \<Rightarrow> ('w, 'p, 'r, 'd, unit) chat_task" where
  "handle_frameT env c now user_id username raw =
     thenT (act (on_cm (upd_conn c (update_activity now))))
     (case json_loads raw of
        Inl _ \<Rightarrow> act (tell user_id (error_message ''Invalid JSON format'' ''error''))
      | Inr data \<Rightarrow>
          bindT (liftT (json_get data ''event'' (JStr []))) (\<lambda>event.
          bindT (liftT (json_get data ''data'' (JObj []))) (\<lambda>event_data.
          rate_checkedT env now user_id (dispatch_eventT env now user_id username event event_data))))"

fun chat_loopT ::
  "('w, 'p, 'r, 'd) env \<Rightarrow> nat \<Rightarrow> string \<Rightarrow> string \<Rightarrow> (timestamp \<times> wire) list \<Rightarrow> ('w, 'p, 'r, 'd, unit) chat_task" where
  "chat_loopT env c user_id username [] = Throw WebSocketDisconnect"
| "chat_loopT env c user_id username ((now, raw) # frames) =
     thenT (handle_frameT env c now user_id username raw) (chat_loopT env c user_id username frames)"

text \<open>The rooms are those of the connection when the cleanup starts.\<close>

definition session_cleanupT ::
  "('w, 'p, 'r, 'd) env \<Rightarrow> nat \<Rightarrow> timestamp \<Rightarrow> string \<Rightarrow> string \<Rightarrow> ('w, 'p, 'r, 'd, unit) chat_task" where
  "session_cleanupT env c now user_id username = enter (\<lambda>w.
     thenT
       (forT (case heap (w_cm w) c of None \<Rightarrow> [] | Some conn \<Rightarrow> rooms conn) (\<lambda>room_id.
          thenT (on_redisT (set_offlineT (e_redis env) now room_id user_id))
            (catchT (broker_publishT env now (''room:'' @ room_id)
                       (envelope ''presence'' (presence_update (JStr room_id) user_id username ''offline'')))
              (\<lambda>e. Return ()))))
       (on_cmT (disconnectT (e_ws env) user_id)))"

definition session_startT ::
  "('w, 'p, 'r, 'd) env \<Rightarrow> timestamp \<Rightarrow> 'w \<Rightarrow> string \<Rightarrow> string \<Rightarrow> ('w, 'p, 'r, 'd, nat) chat_task" where
  "session_startT env now ws user_id username =
     bindT (on_cmT (connectT (e_ws env) (e_cfg env) ws user_id username now)) (\<lambda>c.
     thenT (act (tell user_id (system_message ''system'' (''Welcome, '' @ username @ ''! You are connected.''))))
     (Return c))"

definition serveT ::
  "('w, 'p, 'r, 'd) env \<Rightarrow> timestamp \<Rightarrow> timestamp \<Rightarrow> 'w \<Rightarrow> string \<Rightarrow> string \<Rightarrow> (timestamp \<times> wire) list \<Rightarrow>
   ('w, 'p, 'r, 'd, 'w session_end) chat_task" where
  "serveT env now finish ws user_id username frames =
     bindT (session_startT env now ws user_id username) (\<lambda>c.
     thenT (finallyT (catchT (chat_loopT env c user_id username frames) (\<lambda>e. Return ()))
                     (session_cleanupT env c finish user_id username))
     (Return Served))"

definition authenticateT ::
  "('w, 'p, 'r, 'd) env \<Rightarrow> timestamp \<Rightarrow> 'w \<Rightarrow> string option \<Rightarrow> ('w, 'p, 'r, 'd, (string \<times> string) + 'w session_end) chat_task" where
  "authenticateT env now ws token =
     (let refuse = (\<lambda>reason. bindT (act (reject env ws reason)) (\<lambda>r. Return (Inr r))) in
      case token of
        None \<Rightarrow> refuse ''Missing authentication token''
      | Some tok \<Rightarrow>
          if tok = [] then refuse ''Missing authentication token''
          else
            (case decode_access_token (e_jwt env) (e_cfg env) now tok of
               None \<Rightarrow> refuse ''Invalid or expired token''
             | Some payload \<Rightarrow>
                 bindT (act (on_db (in_session (e_db env)
                   (bindE (liftX (UUID_json (claim_sub payload))) (\<lambda>i.
                    bindE (select_users (e_db env) (users_with_id i)) (\<lambda>rows. liftX (scalar_one_or_none rows))))))) (\<lambda>found.
                 (case found of
                    None \<Rightarrow> refuse ''User not found''
                  | Some u \<Rightarrow>
                      if \<not> u_is_active u then refuse ''User not found''
                      else Return (Inl (py_str (claim_sub payload), claim_username payload))))))"

definition websocket_chatT ::
  "('w, 'p, 'r, 'd) env \<Rightarrow> timestamp \<Rightarrow> timestamp \<Rightarrow> 'w \<Rightarrow> string option \<Rightarrow> (timestamp \<times> wire) list \<Rightarrow>
   ('w, 'p, 'r, 'd, 'w session_end) chat_task" where
  "websocket_chatT env now finish ws token frames =
     bindT (authenticateT env now ws token) (\<lambda>who.
     (case who of
        Inl (user_id, username) \<Rightarrow> serveT env now finish ws user_id username frames
      | Inr ending \<Rightarrow> Return ending))"

section \<open>Without interruption\<close>

lemma run_on_redisT [run_simps]: "run (on_redisT t) = on_redis (run t)"
  unfolding on_redisT_def on_redis_def by (rule run_onT) simp_all

lemma run_on_cmT [run_simps]: "run (on_cmT t) = onE w_cm w_cm_update (run t)"
  unfolding on_cmT_def by (rule run_onT) simp_all

lemma on_cm_onE: "onE w_cm w_cm_update (\<lambda>st. (Inr (), f st)) = on_cm f"
  by (rule ext) (simp add: onE_def on_cm_def)

lemma liftX_replies: "(\<lambda>x. liftX (str_reply x)) = as_str" "(\<lambda>x. liftX (strs_reply x)) = as_strs"
proof -
  show "(\<lambda>x. liftX (str_reply x)) = as_str"
  proof
    show "liftX (str_reply x) = as_str x" for x by (cases x) (simp_all add: fun_eq_iff)
  qed
  show "(\<lambda>x. liftX (strs_reply x)) = as_strs"
  proof
    show "liftX (strs_reply x) = as_strs x" for x by (cases x) (simp_all add: fun_eq_iff)
  qed
qed

lemma run_redisT [run_simps]: "run (redisT redis now c) = redis1 redis now c"
  by (simp add: redisT_def run_act)

lemma run_services [run_simps]:
  "run (set_onlineT redis now room u name) = set_online redis now room u name"
  "run (set_offlineT redis now room u) = set_offline redis now room u"
  "run (set_typingT redis now room u name) = set_typing redis now room u name"
  "run (clear_typingT redis now room u) = clear_typing redis now room u"
  "run (publish_dead_letterT redis fs now b ch m err) = publish_dead_letter redis fs now b ch m err"
  by (simp_all add: set_onlineT_def set_online_def set_offlineT_def set_offline_def set_typingT_def set_typing_def
      clear_typingT_def clear_typing_def publish_dead_letterT_def publish_dead_letter_def run_simps)

lemma run_online_entriesT [run_simps]: "run (online_entriesT redis now uids) = online_entries redis now uids"
  by (induction uids) (simp_all add: run_simps liftX_replies)

lemma run_get_online_usersT [run_simps]: "run (get_online_usersT redis cfg now room) = get_online_users redis cfg now room"
  by (simp add: get_online_usersT_def get_online_users_def Let_def run_simps liftX_replies)

lemma run_publish_loopT [run_simps]:
  "run (publish_loopT redis fs es b ch m attempt left now) = publish_loop redis fs es b ch m attempt left now"
proof (induction left arbitrary: attempt now)
  case (Suc left)
  show ?case
  proof
    fix r
    show "run (publish_loopT redis fs es b ch m attempt (Suc left) now) r = publish_loop redis fs es b ch m attempt (Suc left) now r"
      by (cases "redis1 redis now (PUBLISH ch (json_dumps m)) r"; cases "fst (redis1 redis now (PUBLISH ch (json_dumps m)) r)")
        (simp_all add: run_Step Suc.IH run_simps)
  qed
qed simp

lemma run_rb_publishT [run_simps]: "run (rb_publishT redis fs es now b ch m) = rb_publish redis fs es now b ch m"
  by (simp add: rb_publishT_def rb_publish_def run_simps)

lemma run_broker_publishT [run_simps]: "run (broker_publishT env now ch m) = broker_publish env now ch m"
  by (rule ext) (simp add: broker_publishT_def broker_publish_def run_simps)

lemma run_handlers [run_simps]:
  "run (handle_join_roomT env now uid name ed) = handle_join_room env now uid name ed"
  "run (handle_leave_roomT env now uid name ed) = handle_leave_room env now uid name ed"
  "run (handle_messageT env now uid name ed) = handle_message env now uid name ed"
  "run (handle_typingT env now uid name ed b) = handle_typing env now uid name ed b"
  by (simp_all add: handle_join_roomT_def handle_join_room_def handle_leave_roomT_def handle_leave_room_def
      handle_messageT_def handle_message_def handle_typingT_def handle_typing_def Let_def run_simps cong: if_cong)

lemma run_dispatch_eventT [run_simps]: "run (dispatch_eventT env now uid name ev ed) = dispatch_event env now uid name ev ed"
  by (simp add: dispatch_eventT_def dispatch_event_def run_simps)

lemma run_rate_checkedT [run_simps]: "run (rate_checkedT env now uid body) = rate_checked env now uid (run body)"
proof
  fix w :: "('a, 'b, 'c, 'd) world"
  let ?m = "on_redis (check_ws_rate_limit (e_redis env) (e_float_str env) now uid (WS_RATE_LIMIT_PER_MINUTE (e_cfg env)) 60) w"
  show "run (rate_checkedT env now uid body) w = rate_checked env now uid (run body) w"
    by (cases ?m; cases "fst ?m")
      (simp_all add: rate_checkedT_def rate_checked_def run_simps bindE_def thenE_def catchE_def tell_def on_cm_def)
qed

lemma run_handle_frameT [run_simps]: "run (handle_frameT env c now uid name raw) = handle_frame env c now uid name raw"
  by (cases "json_loads raw") (simp_all add: handle_frameT_def handle_frame_def run_simps)

lemma run_chat_loopT [run_simps]: "run (chat_loopT env c uid name frames) = chat_loop env c uid name frames"
  by (induction frames) (auto simp: run_simps)

lemma run_session_cleanupT [run_simps]: "run (session_cleanupT env c now uid name) = session_cleanup env c now uid name"
  by (rule ext) (simp add: session_cleanupT_def session_cleanup_def run_simps on_cm_onE)

lemma run_serveT [run_simps]: "run (serveT env now finish ws uid name frames) = serve env now finish ws uid name frames"
  by (simp add: serveT_def serve_def session_startT_def session_start_def run_simps)

lemma run_authenticateT [run_simps]: "run (authenticateT env now ws token) = authenticate env now ws token"
  by (cases token; cases "decode_access_token (e_jwt env) (e_cfg env) now (the token)")
    (simp_all add: authenticateT_def authenticate_def Let_def run_simps cong del: option.case_cong_weak if_weak_cong)

lemma run_session: "run (websocket_chatT env now finish ws token frames) = websocket_chat env now finish ws token frames"
  by (simp add: websocket_chatT_def websocket_chat_def run_simps cong del: sum.case_cong_weak prod.case_cong_weak)


end
