(* ===== verification/Interleave.thy ===== *)
theory Interleave
  imports System_Inv ChatTasks
begin

text \<open>
  Sessions that are interrupted. A session keeps the invariant of the deployment at every step,
  whatever other sessions, listeners and requests do in between: what it found out before it was
  interrupted (that a user is a member, that the instance serves a room) is not undone by them.
\<close>

section \<open>Sessions as safe tasks\<close>

text \<open>What may change while a session waits: memberships are added to the history, rooms stay served.\<close>

definition onward ::
  "(uuid \<times> uuid) set \<times> ('w, 'p, 'r, 'd) world \<Rightarrow> (uuid \<times> uuid) set \<times> ('w, 'p, 'r, 'd) world \<Rightarrow> bool" where
  "onward x y \<longleftrightarrow> fst x \<subseteq> fst y \<and> (\<forall>rid. served (w_broker (snd x)) rid \<longrightarrow> served (w_broker (snd y)) rid)"

lemma onward_same: "w_broker w' = w_broker w \<Longrightarrow> onward (H, w) (H, w')"
  by (simp add: onward_def)

text \<open>Tasks on the Redis server that publish protocol messages only.\<close>

context redis_atomic begin

abbreviation posting :: "('a, 'b) task \<Rightarrow> bool" where
  "posting t \<equiv> safe (\<lambda>(_ :: (uuid \<times> uuid) set) r. posts_only protocol_post (view r)) (\<lambda>_ _. True) always (\<lambda>_. always) t"

lemma posting_redisT: "publishes_only protocol_post c \<Longrightarrow> posting (redisT redis t c)"
  unfolding redisT_def by (rule safe_actI) (auto dest: keepsD_eq [OF keeps_redis1])

lemma posting_services:
  "posting (set_onlineT redis t room u name)" "posting (set_offlineT redis t room u)"
  "posting (set_typingT redis t room u name)" "posting (clear_typingT redis t room u)"
  "posting (publish_dead_letterT redis fs t b ch m err)"
  unfolding set_onlineT_def set_offlineT_def set_typingT_def clear_typingT_def publish_dead_letterT_def
  by (intro safe_intros posting_redisT; simp)+

lemma posting_entries: "posting (online_entriesT redis t uids)"
proof (induction uids)
  case (Cons u uids)
  then show ?case unfolding online_entriesT.simps by (intro safe_intros posting_redisT) simp_all
qed (simp only: online_entriesT.simps safe_Return_always)

lemma posting_listing: "posting (get_online_usersT redis cfg t room)"
  unfolding get_online_usersT_def Let_def by (intro safe_intros posting_redisT posting_entries) simp_all

lemma posting_publish_loop:
  assumes "protocol_post (ch, json_dumps m)" shows "posting (publish_loopT redis fs es b ch m attempt left t)"
proof (induction left arbitrary: attempt t)
  case (Suc left)
  have keep: "keeps (posts protocol_post) (redis1 redis t (PUBLISH ch (json_dumps m)))" by (rule keeps_redis1) (simp add: assms)
  show ?case unfolding publish_loopT.simps
  proof (rule safe_Step, goal_cases)
    case (1 h r)
    obtain res r1 where r1: "redis1 redis t (PUBLISH ch (json_dumps m)) r = (res, r1)" by fastforce
    have "posts protocol_post r1" using keepsD_eq [OF keep _ r1] 1 by simp
    moreover have "posting (thenT (publish_dead_letterT redis fs t b ch m (es e)) (publish_loopT redis fs es b ch m (Suc attempt) left t))" for e
      by (intro safe_intros posting_services Suc.IH)
    ultimately show ?case
      using Suc.IH by (cases res) (auto simp: r1 intro!: exI [of _ always] safe_intros posting_services)
  qed
qed (simp only: publish_loopT.simps safe_Return_always)

lemma posting_publish: "protocol_post (ch, json_dumps m) \<Longrightarrow> posting (rb_publishT redis fs es t b ch m)"
  unfolding rb_publishT_def by (intro safe_intros posting_publish_loop)

end

text \<open>The methods of the manager keep its invariant at each of their interruptions; history and broker are those of the session.\<close>

interpretation cut: manager_invariant "e_ws env" "e_cfg env" "\<lambda>h. manager_ok env (fst h) (snd h)" for env :: "('w, 'p, 'r, 'd) env"
proof unfold_locales
  fix h and st st' :: "'w conn_manager"
  assume "manager_ok env (fst h) (snd h) st" and piece: "cm_piece (e_ws env) (e_cfg env) st st'"
  then show "manager_ok env (fst h) (snd h) st'"
    by (auto simp: manager_ok_def intro: piece_within [OF piece] reach_piece [OF _ piece])
next
  fix h and st :: "'w conn_manager" and c w
  assume "manager_ok env (fst h) (snd h) st"
  then show "manager_ok env (fst h) (snd h) (upd_conn c (\<lambda>conn. conn\<lparr>websocket := w\<rparr>) st)"
    by (auto simp: manager_ok_def intro: reach_step [OF _ step_socket] queues_hold_upd_conn)
qed

context deployment begin

abbreviation secure ::
  "((uuid \<times> uuid) set, ('w, 'p, 'r, 'd) world) assertion \<Rightarrow> ('a \<Rightarrow> ((uuid \<times> uuid) set, ('w, 'p, 'r, 'd) world) assertion) \<Rightarrow>
   ('w, 'p, 'r, 'd, 'a) chat_task \<Rightarrow> bool" where
  "secure \<equiv> safe ok onward"

lemma secure_act:
  assumes "\<And>H. keeps (ok H) m" and "\<And>w. w_broker (snd (m w)) = w_broker w"
  shows "secure K (\<lambda>_. always) (act m)"
proof (rule safe_actI)
  fix H w r w' assume "ok H w" and run: "m w = (r, w')"
  then have "ok H w'" using keepsD_eq [OF assms(1)] by blast
  moreover have "w_broker w' = w_broker w" using assms(2) [of w] run by simp
  ultimately show "ok H w' \<and> onward (H, w) (H, w') \<and> (\<forall>x. r = Inr x \<longrightarrow> True)" by (simp add: onward_same)
qed simp

lemma same_broker [simp]:
  "w_broker (snd (on_redis m w)) = w_broker w" "w_broker (snd (on_db n w)) = w_broker w"
  "w_broker (snd (on_cm f w)) = w_broker w" "w_broker (snd (tell uid x w)) = w_broker w"
  "w_broker (snd (onE w_cm w_cm_update k w)) = w_broker w" "w_broker (snd (reject env ws reason w)) = w_broker w"
  by (auto simp: on_redis_def on_db_def on_cm_def tell_def onE_def reject_def split: prod.split sum.split)

lemma secure_tell: "conforms m \<Longrightarrow> secure K (\<lambda>_. always) (act (tell uid m))"
  by (intro secure_act ok_tell) simp_all

lemma secure_db: "(\<And>H. db_keeps dview stored (tables_within H) m) \<Longrightarrow> secure K (\<lambda>_. always) (act (on_db (in_session (e_db env) m)))"
  by (intro secure_act ok_on_db) simp_all

lemma secure_manager:
  "secure K (\<lambda>_. always) (act (on_cm (upd_conn c (update_activity now))))"
  "secure K (\<lambda>_. always) (act (onE w_cm w_cm_update (leave_json uid room_id)))"
  "secure K (\<lambda>_. always) (act (reject env ws reason))"
  by (intro secure_act ok_activity ok_leave ok_reject; simp)+

lemma secure_on_cmT:
  assumes "safe (\<lambda>h. manager_ok env (fst h) (snd h)) (\<lambda>_ _. True) always (\<lambda>_. always) t" shows "secure K (\<lambda>_. always) (on_cmT t)"
proof -
  have "secure always (\<lambda>_. always) (onT w_cm w_cm_update t)"
    by (rule safe_onT [OF assms, where f = "\<lambda>H w. (H, w_broker w)"]) (auto simp: world_ok_def onward_def)
  then show ?thesis unfolding on_cmT_def by (rule safe_weaken) simp
qed

lemmas secure_cut = secure_on_cmT [OF cut.kept_connect] secure_on_cmT [OF cut.kept_disconnect]
  secure_on_cmT [OF cut.kept_force_disconnect]

lemma secure_rate_limit: "secure K (\<lambda>_. always) (act (on_redis (check_ws_rate_limit (e_redis env) fs now uid limit window)))"
  by (intro secure_act ok_on_redis srv.keeps_rate_limit) simp

lemma secure_on_redisT:
  assumes "srv.posting t" shows "secure K (\<lambda>_. always) (on_redisT t)"
proof -
  have "secure always (\<lambda>_. always) (onT w_redis w_redis_update t)"
    by (rule safe_onT [OF assms, where f = "\<lambda>H w. H"]) (auto simp: world_ok_def onward_def)
  then show ?thesis unfolding on_redisT_def by (rule safe_weaken) simp
qed

lemma secure_publish:
  assumes "conforms m" shows "secure K (\<lambda>_. always) (broker_publishT env now (''room:'' @ rid) (envelope t m))"
  unfolding broker_publishT_def
  by (rule safe_enter) (rule secure_on_redisT srv.posting_publish protocol_post_envelope [OF assms] onward_same refl stable_always)+

text \<open>
  Joining a room. After the check the user is known to have been a member, after the subscription
  the room is known to be served, and both are still so when the session goes on.
\<close>

lemma stable_member: "stable onward (\<lambda>H w. once_member H rid uid)"
  by (auto simp: stable_def onward_def once_member_def)

lemma stable_served: "stable onward (\<lambda>H w. served (w_broker w) rid \<and> once_member H rid uid)"
  by (auto simp: stable_def onward_def once_member_def)

lemma secure_check:
  "secure K (\<lambda>is_member H w. is_member \<longrightarrow> once_member H (py_str room_id) uid)
     (act (on_db (in_session (e_db env) (bindE (liftX (UUID_json room_id)) (\<lambda>rid.
          bindE (liftX (UUID uid)) (\<lambda>u. rs_is_member (e_db env) rid u))))))"
proof (rule safe_actI)
  let ?m = "on_db (in_session (e_db env) (bindE (liftX (UUID_json room_id)) (\<lambda>rid.
          bindE (liftX (UUID uid)) (\<lambda>u. rs_is_member (e_db env) rid u))))"
  fix H and w :: "('w, 'p, 'r, 'd) world" and res w' assume ok: "ok H w" and run: "?m w = (res, w')"
  have "ok H w'" by (rule keepsD_eq [OF ok_on_db ok run]) (intro db_intros)
  moreover have "w_broker w' = w_broker w"
    using same_broker(2) [of "in_session (e_db env) (bindE (liftX (UUID_json room_id)) (\<lambda>rid.
          bindE (liftX (UUID uid)) (\<lambda>u. rs_is_member (e_db env) rid u)))" w] unfolding run by simp
  ultimately show "ok H w' \<and> onward (H, w) (H, w') \<and> (\<forall>x. res = Inr x \<longrightarrow> x \<longrightarrow> once_member H (py_str room_id) uid)"
    using checked_member [OF run] ok by (auto simp: onward_same)
next
  show "stable onward (\<lambda>H (w :: ('w, 'p, 'r, 'd) world). x \<longrightarrow> once_member H (py_str room_id) uid)" for x
    by (cases x) (simp_all add: stable_member)
qed

lemma secure_subscribe:
  "secure (\<lambda>H w. once_member H rid uid) (\<lambda>_ H w. served (w_broker w) rid \<and> once_member H rid uid)
     (act (on_broker (rb_subscribe (e_pubsub env) (''room:'' @ rid) (room_message_handler rid))))"
proof (rule safe_actI)
  let ?sub = "rb_subscribe (e_pubsub env) (''room:'' @ rid) (room_message_handler rid)"
  fix H and w :: "('w, 'p, 'r, 'd) world" and res w'
  assume ok: "ok H w" and member: "once_member H rid uid" and run: "on_broker ?sub w = (res, w')"
  obtain b where sub: "?sub (w_broker w) = (res, b)" and w': "w' = w\<lparr>w_broker := b\<rparr>"
    using run unfolding on_broker_def onE_def by (auto split: prod.splits)
  have "broker_ok (e_pubsub env) b"
    using ok broker_ok_subscribe [of "e_pubsub env" "w_broker w" rid] unfolding sub world_ok_def by simp
  moreover have mono: "served b r" if "served (w_broker w) r" for r
    using served_subscribe [OF that, of "e_pubsub env" rid] unfolding sub by simp
  ultimately have "ok H w'"
    using ok unfolding w' by (auto simp: world_ok_def manager_ok_def elim: index_within_mono)
  moreover have "served b rid" if "res = Inr x" for x
    using ok sub that by (intro subscribe_served [of "e_pubsub env" _ "w_broker w"]) (auto simp: world_ok_def broker_ok_def)
  ultimately show "ok H w' \<and> onward (H, w) (H, w') \<and> (\<forall>x. res = Inr x \<longrightarrow> served (w_broker w') rid \<and> once_member H rid uid)"
    using member mono by (auto simp: onward_def w')
qed (rule stable_served)

lemma secure_enter: "secure (\<lambda>H w. served (w_broker w) rid \<and> once_member H rid uid) (\<lambda>_. always) (act (on_cm (join_room uid rid)))"
proof (rule safe_actI)
  fix H and w :: "('w, 'p, 'r, 'd) world" and res w'
  assume "ok H w" "served (w_broker w) rid \<and> once_member H rid uid" "on_cm (join_room uid rid) w = (res, w')"
  then show "ok H w' \<and> onward (H, w) (H, w') \<and> (\<forall>x. res = Inr x \<longrightarrow> True)"
    by (auto simp: on_cm_def world_ok_def manager_ok_def onward_def intro: join_within reach_step [OF _ step_join])
qed simp

lemma secure_join: "secure K (\<lambda>_. always) (handle_join_roomT env now uid name ed)"
proof -
  let ?enter = "\<lambda>room_id. let channel = room_channel room_id; rid = py_str room_id in
         thenT (act (on_broker (rb_subscribe (e_pubsub env) channel (room_message_handler rid))))
         (thenT (act (on_cm (join_room uid rid)))
         (thenT (on_redisT (set_onlineT (e_redis env) now rid uid name))
         (thenT (broker_publishT env now channel (envelope ''presence'' (presence_update room_id uid name ''online'')))
         (bindT (on_redisT (get_online_usersT (e_redis env) (e_cfg env) now rid)) (\<lambda>online.
          act (tell uid (online_users_message room_id online)))))))"
  have enter: "secure (\<lambda>H w. once_member H (py_str room_id) uid) (\<lambda>_. always) (?enter room_id)" for room_id
    unfolding Let_def room_channel_def thenT_def [of "act (on_broker _)"] thenT_def [of "act (on_cm _)"]
    by (rule safe_bindT [OF secure_subscribe], rule safe_bindT [OF secure_enter])
      (intro safe_intros secure_on_redisT srv.posting_services srv.posting_listing secure_publish secure_tell; simp)
  have checked: "secure (\<lambda>H w. is_member \<longrightarrow> once_member H (py_str room_id) uid) (\<lambda>_. always)
     (if \<not> is_member then act (tell uid (error_message ''You are not a member of this room'' ''error'')) else ?enter room_id)" for is_member room_id
    by (cases is_member) (auto intro: secure_tell safe_weaken [OF enter])
  show ?thesis unfolding handle_join_roomT_def
    by (intro safe_bind safe_liftT safe_if secure_tell safe_bindT [OF secure_check checked]) simp
qed

lemma secure_leave: "secure K (\<lambda>_. always) (handle_leave_roomT env now uid name ed)"
  unfolding handle_leave_roomT_def room_channel_def
  by (intro safe_intros secure_manager secure_on_redisT srv.posting_services secure_publish) simp

lemma secure_message: "secure K (\<lambda>_. always) (handle_messageT env now uid name ed)"
  unfolding handle_messageT_def room_channel_def save_and_commit_def
  by (intro safe_intros secure_tell secure_publish secure_db db_intros grows_message) simp_all

lemma secure_typing: "secure K (\<lambda>_. always) (handle_typingT env now uid name ed start)"
  unfolding handle_typingT_def room_channel_def
  by (cases start; simp only: if_True if_False; intro safe_intros secure_on_redisT srv.posting_services secure_publish; simp)

lemma secure_dispatch: "secure K (\<lambda>_. always) (dispatch_eventT env now uid name ev ed)"
  unfolding dispatch_eventT_def by (intro safe_if secure_join secure_leave secure_message secure_typing secure_tell) simp_all

lemma secure_frame: "secure K (\<lambda>_. always) (handle_frameT env c now uid name raw)"
proof (cases "json_loads raw")
  case (Inl e)
  then show ?thesis unfolding handle_frameT_def by (simp only: sum.case) (intro safe_intros secure_manager secure_tell, simp)
next
  case (Inr j)
  then show ?thesis unfolding handle_frameT_def rate_checkedT_def
    by (simp only: sum.case) (intro safe_intros secure_manager secure_rate_limit secure_dispatch secure_tell, simp)
qed

lemma secure_loop: "secure K (\<lambda>_. always) (chat_loopT env c uid name frames)"
proof (induction frames arbitrary: K)
  case (Cons f frames)
  then show ?case by (cases f) (simp only: chat_loopT.simps, intro safe_then secure_frame)
qed (simp only: chat_loopT.simps safe_Throw)

lemma secure_cleanup: "secure K (\<lambda>_. always) (session_cleanupT env c now uid name)"
  unfolding session_cleanupT_def
proof (rule safe_enter, goal_cases)
  case (1 H w)
  show ?case by (intro safe_intros secure_cut secure_on_redisT srv.posting_services secure_publish) simp
qed (simp_all add: onward_same)

lemma secure_authenticate: "secure K (\<lambda>_. always) (authenticateT env now ws token)"
  unfolding authenticateT_def Let_def
  by (auto split: option.split intro!: safe_intros secure_manager secure_db db_intros)

lemma secure_session: "secure K (\<lambda>_. always) (websocket_chatT env now finish ws token frames)"
  unfolding websocket_chatT_def serveT_def session_startT_def
  by (auto split: sum.split intro!: safe_intros secure_authenticate secure_cut secure_tell secure_loop secure_cleanup)

end

end
