(* ===== verification/Network.thy ===== *)
theory Network
  imports Interleave
begin

text \<open>
  The deployment with its sessions interleaved: a transition system in which between any two steps
  of a session, steps of other sessions, listeners, requests and background tasks take place. The
  invariant of the deployment holds in all its states.
\<close>

section \<open>The interleaved deployment\<close>

text \<open>
  Beside the system, every instance has a list of sessions and forced disconnects in progress, each
  wherever it was interrupted. What the frames of a session will be is fixed when it starts, but not when they are
  handled. A forced disconnect that a broadcast has scheduled leaves the list of the manager when it
  starts. All steps of the system may take place too; those that handle a whole frame or run a whole
  disconnect are the special case of a task that is not interrupted.
\<close>

type_synonym ('w, 'p, 'r, 'd) pool = "('w, 'p, 'r, 'd, unit) chat_task list list"
type_synonym ('w, 'p, 'r, 'd) net = "('w, 'p, 'r, 'd) system \<times> ('w, 'p, 'r, 'd) pool"

inductive net_step ::
  "('w, 'p, 'r, 'd) env \<Rightarrow> 'd http_env \<Rightarrow> ('r \<Rightarrow> redis_store) \<Rightarrow> ('p \<Rightarrow> string set) \<Rightarrow>
   ('w, 'p, 'r, 'd) net \<Rightarrow> ('w, 'p, 'r, 'd) net \<Rightarrow> bool"
  for env :: "('w, 'p, 'r, 'd) env" and h :: "'d http_env" and rview :: "'r \<Rightarrow> redis_store" and channels :: "'p \<Rightarrow> string set" where
  net_sys: "sys_step env h rview channels s s' \<Longrightarrow> length (nodes s') = length (nodes s) \<Longrightarrow>
     net_step env h rview channels (s, ts) (s', ts)"
| net_boot: "lifespan_startup (h_engine h) (e_pubsub env) (sy_db s) = (Inr app, d) \<Longrightarrow>
     net_step env h rview channels (s, ts) (s\<lparr>nodes := nodes s @ [new_node app], sy_db := d\<rparr>, ts @ [[]])"
| net_stop: "i < length (nodes s) \<Longrightarrow>
     net_step env h rview channels (s, ts) (s\<lparr>nodes := take i (nodes s) @ drop (Suc i) (nodes s)\<rparr>, take i ts @ drop (Suc i) ts)"
| net_accept: "i < length (nodes s) \<Longrightarrow>
     net_step env h rview channels (s, ts) (s, ts[i := ts ! i @ [thenT (websocket_chatT env now finish ws token frames) (Return ())]])"
| net_force: "i < length (nodes s) \<Longrightarrow> tasks (n_cm (nodes s ! i)) = q1 @ (c, reason) # q2 \<Longrightarrow>
     net_step env h rview channels (s, ts)
       (s\<lparr>nodes := (nodes s)[i := (nodes s ! i)\<lparr>n_cm := (n_cm (nodes s ! i))\<lparr>tasks := q1 @ q2\<rparr>\<rparr>]\<rparr>,
        ts[i := ts ! i @ [on_cmT (force_disconnectT (e_ws env) c reason)]])"
| net_resume: "i < length (nodes s) \<Longrightarrow> j < length (ts ! i) \<Longrightarrow> ts ! i ! j = Step k \<Longrightarrow> k (at_node i s) = (t, w) \<Longrightarrow>
     net_step env h rview channels (s, ts) (worked rview channels i w id s, ts[i := (ts ! i)[j := t]])"

inductive net_reach ::
  "('w, 'p, 'r, 'd) env \<Rightarrow> 'd http_env \<Rightarrow> ('r \<Rightarrow> redis_store) \<Rightarrow> ('p \<Rightarrow> string set) \<Rightarrow> ('d \<Rightarrow> db_tables) \<Rightarrow> ('d \<Rightarrow> db_tables) \<Rightarrow>
   (uuid \<times> uuid) set \<Rightarrow> ('w, 'p, 'r, 'd) net \<Rightarrow> bool"
  for env :: "('w, 'p, 'r, 'd) env" and h :: "'d http_env" and rview :: "'r \<Rightarrow> redis_store" and channels :: "'p \<Rightarrow> string set"
    and dview :: "'d \<Rightarrow> db_tables" and stored :: "'d \<Rightarrow> db_tables" where
  net_start: "sys_init rview dview stored s \<Longrightarrow>
     net_reach env h rview channels dview stored (memberships (stored (sy_db s))) (s, [])"
| net_next: "net_reach env h rview channels dview stored H x \<Longrightarrow> net_step env h rview channels x y \<Longrightarrow>
     net_reach env h rview channels dview stored (H \<union> memberships (stored (sy_db (fst y)))) y"

section \<open>The invariant under interleaving\<close>

text \<open>A session in progress can be resumed: it is safe under something that holds now and goes on to hold.\<close>

definition resumable ::
  "('w, 'p, 'r, 'd) env \<Rightarrow> ('r \<Rightarrow> redis_store) \<Rightarrow> ('d \<Rightarrow> db_tables) \<Rightarrow> ('d \<Rightarrow> db_tables) \<Rightarrow> (uuid \<times> uuid) set \<Rightarrow>
   ('w, 'p, 'r, 'd) world \<Rightarrow> ('w, 'p, 'r, 'd, 'a) chat_task \<Rightarrow> bool" where
  "resumable env rview dview stored H w t \<longleftrightarrow>
     (\<exists>K. stable onward K \<and> K H w \<and> safe (world_ok env rview dview stored) onward K (\<lambda>_. always) t)"

lemma resumable_onward:
  "resumable env rview dview stored H w t \<Longrightarrow> onward (H, w) (H', w') \<Longrightarrow> resumable env rview dview stored H' w' t"
  unfolding resumable_def by (blast dest: stableD)

lemma resumable_step:
  assumes "resumable env rview dview stored H w (Step k)" "world_ok env rview dview stored H w" "k w = (t, w')"
  shows "world_ok env rview dview stored H w'" "onward (H, w) (H, w')" "resumable env rview dview stored H w' t"
proof -
  obtain K where "K H w" "safe (world_ok env rview dview stored) onward K (\<lambda>_. always) (Step k)"
    using assms(1) by (auto simp: resumable_def)
  note st = safe_step [OF this(2) assms(2) this(1) assms(3)]
  from st(1) show "world_ok env rview dview stored H w'" .
  from st(2) show "onward (H, w) (H, w')" .
  from st(3) show "resumable env rview dview stored H w' t" by (simp add: resumable_def)
qed

definition pool_ok ::
  "('w, 'p, 'r, 'd) env \<Rightarrow> ('r \<Rightarrow> redis_store) \<Rightarrow> ('d \<Rightarrow> db_tables) \<Rightarrow> ('d \<Rightarrow> db_tables) \<Rightarrow> (uuid \<times> uuid) set \<Rightarrow>
   ('w, 'p, 'r, 'd) net \<Rightarrow> bool" where
  "pool_ok env rview dview stored H x \<longleftrightarrow> length (snd x) = length (nodes (fst x)) \<and>
     (\<forall>i < length (snd x). \<forall>t\<in>set (snd x ! i). resumable env rview dview stored H (at_node i (fst x)) t)"

lemma pool_okD:
  "pool_ok env rview dview stored H (s, ts) \<Longrightarrow> i < length (nodes s) \<Longrightarrow> t \<in> set (ts ! i) \<Longrightarrow>
   resumable env rview dview stored H (at_node i s) t"
  "pool_ok env rview dview stored H (s, ts) \<Longrightarrow> length ts = length (nodes s)"
  by (simp_all add: pool_ok_def)

text \<open>The sessions of every instance of the new system were somewhere before, and what they rely on still holds there.\<close>

lemma pool_okI:
  assumes "pool_ok env rview dview stored H (s, ts)" "length ts' = length (nodes s')"
    and "\<And>j t. j < length (nodes s') \<Longrightarrow> t \<in> set (ts' ! j) \<Longrightarrow> resumable env rview dview stored H' (at_node j s') t
         \<or> (\<exists>i < length (nodes s). t \<in> set (ts ! i) \<and> onward (H, at_node i s) (H', at_node j s'))"
  shows "pool_ok env rview dview stored H' (s', ts')"
  unfolding pool_ok_def fst_conv snd_conv
proof (intro conjI allI impI ballI)
  fix j t assume "j < length ts'" "t \<in> set (ts' ! j)"
  with assms(2) assms(3) [of j t] show "resumable env rview dview stored H' (at_node j s') t"
    by (metis pool_okD(1) [OF assms(1)] resumable_onward)
qed (rule assms(2))

lemma onward_refl: "onward x x"
  by (simp add: onward_def)

lemma onward_trans: "onward x y \<Longrightarrow> onward y z \<Longrightarrow> onward x z"
  by (auto simp: onward_def)

lemma at_node_broker: "w_broker (at_node i s) = n_broker (nodes s ! i)"
  by (simp add: at_node_def)

lemma worked_broker:
  "i < length (nodes s) \<Longrightarrow> j < length (nodes s) \<Longrightarrow>
   n_broker (nodes (worked rview channels i w f s) ! j) = (if j = i then w_broker w else n_broker (nodes s ! j))"
  by (simp add: worked_def relay_def)

lemma worked_onward:
  assumes "i < length (nodes s)" "j < length (nodes s)" "onward (H, at_node i s) (H, w)" "H \<subseteq> H'"
  shows "onward (H, at_node j s) (H', at_node j (worked rview channels i w f s))"
  using assms by (auto simp: onward_def at_node_broker worked_broker)

lemma same_node_onward:
  assumes "n_broker (nodes s' ! j) = n_broker (nodes s ! j)" "H \<subseteq> H'"
  shows "onward (H, at_node j s) (H', at_node j s')"
  using assms by (simp add: onward_def at_node_broker)

context deployment begin

lemma resumableI: "secure always (\<lambda>_. always) t \<Longrightarrow> resumable env rview dview stored H w t"
  unfolding resumable_def by (intro exI [of _ always]) simp

text \<open>The handlers that are not interrupted are runs of safe tasks.\<close>

lemma onward_run:
  assumes "secure always (\<lambda>_. always) t" "ok H w" "run t w = (r, w')" shows "onward (H, w) (H, w')"
  using safe_run [OF assms(1,2) TrueI onward_refl onward_trans] assms(3) by simp

lemma run_open:
  "run (bindT (authenticateT env now ws token) (\<lambda>who. case who of
        Inl (uid, name) \<Rightarrow> bindT (session_startT env now ws uid name) (\<lambda>c.
          Return (Some \<lparr>ss_conn = c, ss_user = uid, ss_name = name, ss_ended = False\<rparr>))
      | Inr ending \<Rightarrow> Return None)) = session_open env now ws token"
  by (simp add: session_open_def session_startT_def session_start_def run_simps cong del: sum.case_cong_weak prod.case_cong_weak)

lemma onward_open: "ok H w \<Longrightarrow> session_open env now ws token w = (r, w') \<Longrightarrow> onward (H, w) (H, w')"
proof (unfold run_open [symmetric], erule onward_run [rotated])
  show "secure always (\<lambda>_. always) (bindT (authenticateT env now ws token) (\<lambda>who. case who of
        Inl (uid, name) \<Rightarrow> bindT (session_startT env now ws uid name) (\<lambda>c.
          Return (Some \<lparr>ss_conn = c, ss_user = uid, ss_name = name, ss_ended = False\<rparr>))
      | Inr ending \<Rightarrow> Return None))"
    unfolding session_startT_def
    by (auto split: sum.split intro!: safe_intros secure_authenticate secure_cut secure_tell)
qed

lemma sys_step_onward:
  assumes "sys_step env h rview channels s s'" "sys_ok env rview dview stored H s" "length (nodes s') = length (nodes s)"
    and "j < length (nodes s)" "H \<subseteq> H'"
  shows "onward (H, at_node j s) (H', at_node j s')"
  using assms
proof (cases rule: sys_step.cases)
  case (sys_stop i)
  with assms(3) have "length (nodes s) \<le> i" by (cases "length (nodes s) \<le> i") auto
  with sys_stop assms show ?thesis by (intro same_node_onward) simp_all
next
  case (sys_open i now ws token res w)
  have "onward (H, at_node i s) (H, w)" by (rule onward_open [OF world_ok_at [OF assms(2) sys_open(2)] sys_open(3)])
  with sys_open assms show ?thesis by (simp add: worked_onward)
next
  case (sys_frame i x now raw res w)
  have "onward (H, at_node i s) (H, w)"
    by (rule onward_run [OF secure_frame world_ok_at [OF assms(2) sys_frame(2)]]) (use sys_frame(5) in \<open>simp add: run_simps\<close>)
  with sys_frame assms show ?thesis by (simp add: worked_onward)
next
  case (sys_close i x now res w)
  have "onward (H, at_node i s) (H, w)"
    by (rule onward_run [OF secure_cleanup world_ok_at [OF assms(2) sys_close(2)]]) (use sys_close(4) in \<open>simp add: run_simps\<close>)
  with sys_close assms show ?thesis by (simp add: worked_onward)
next
  case (sys_deliver i ch v rest b st)
  then have "node_ok env H (nodes s ! i)" using assms(2) by (auto simp: sys_ok_def)
  then have "b = n_broker (nodes s ! i)"
    using listen_delivers(1) [OF _ _ _ sys_deliver(4)] sys_deliver(3) by (auto simp: node_ok_def broker_ok_def)
  with sys_deliver assms show ?thesis by (intro same_node_onward) (auto simp: nth_list_update)
next
  case (sys_broken i e b st)
  then have "broker_ok (e_pubsub env) (n_broker (nodes s ! i))" using assms(2) by (auto simp: sys_ok_def node_ok_def)
  from broken_ok(3) [OF this sys_broken(3,4)] sys_broken assms show ?thesis
    by (auto simp: onward_def at_node_broker nth_list_update)
next
  case (sys_background i st)
  with assms show ?thesis by (intro same_node_onward) (auto simp: nth_list_update)
qed (auto intro!: same_node_onward)

lemma net_step_pool:
  assumes "net_step env h rview channels x y" "sys_ok env rview dview stored H (fst x)" "pool_ok env rview dview stored H x"
    and "H \<subseteq> H'"
  shows "pool_ok env rview dview stored H' y"
  using assms(1)
proof cases
  case (net_sys s s' ts)
  note p = assms(3) [unfolded net_sys(1)]
  have "onward (H, at_node j s) (H', at_node j s')" if "j < length (nodes s)" for j
    using sys_step_onward [OF net_sys(3) _ net_sys(4) that assms(4)] assms(2) net_sys(1) by simp
  then show ?thesis unfolding net_sys(2)
    by (intro pool_okI [OF p]) (use pool_okD(2) [OF p] net_sys(4) in auto)
next
  case (net_boot s app d ts)
  note p = assms(3) [unfolded net_boot(1)]
  show ?thesis unfolding net_boot(2)
    by (rule pool_okI [OF p]) (use pool_okD(2) [OF p] assms(4) in \<open>auto simp: nth_append less_Suc_eq intro!: same_node_onward\<close>)
next
  case (net_stop i s ts)
  note p = assms(3) [unfolded net_stop(1)]
  let ?s = "s\<lparr>nodes := take i (nodes s) @ drop (Suc i) (nodes s)\<rparr>"
  show ?thesis unfolding net_stop(2)
  proof (rule pool_okI [OF p])
    fix j t assume j: "j < length (nodes ?s)" "t \<in> set ((take i ts @ drop (Suc i) ts) ! j)"
    let ?j = "if j < i then j else Suc j"
    have "?j < length (nodes s)" "(take i ts @ drop (Suc i) ts) ! j = ts ! ?j" "onward (H, at_node ?j s) (H', at_node j ?s)"
      using j(1) net_stop(3) pool_okD(2) [OF p] assms(4) by (auto simp: nth_append onward_def at_node_broker)
    with j(2) show "resumable env rview dview stored H' (at_node j ?s) t
        \<or> (\<exists>i < length (nodes s). t \<in> set (ts ! i) \<and> onward (H, at_node i s) (H', at_node j ?s))" by metis
  qed (use pool_okD(2) [OF p] in simp)
next
  case (net_accept i s ts now finish ws token frames)
  note p = assms(3) [unfolded net_accept(1)]
  have new: "resumable env rview dview stored H' w (thenT (websocket_chatT env now finish ws token frames) (Return ()))" for w
    by (intro resumableI safe_intros secure_session)
  show ?thesis unfolding net_accept(2)
    by (rule pool_okI [OF p])
      (use new pool_okD(2) [OF p] net_accept(3) assms(4) in \<open>auto simp: nth_list_update intro: same_node_onward split: if_splits\<close>)
next
  case (net_force i s q1 c reason q2 ts)
  note p = assms(3) [unfolded net_force(1)]
  have new: "resumable env rview dview stored H' w (on_cmT (force_disconnectT (e_ws env) c reason))" for w
    by (intro resumableI secure_cut)
  show ?thesis unfolding net_force(2)
    by (rule pool_okI [OF p])
      (use new pool_okD(2) [OF p] net_force(3) assms(4) in \<open>auto simp: nth_list_update intro!: same_node_onward split: if_splits\<close>)
next
  case (net_resume i s j ts k t w)
  note p = assms(3) [unfolded net_resume(1)]
  have "Step k \<in> set (ts ! i)" using net_resume(4,5) by (metis nth_mem)
  note r = pool_okD(1) [OF p net_resume(3) this]
  have "world_ok env rview dview stored H (at_node i s)" using world_ok_at assms(2) net_resume(1,3) by simp
  note st = resumable_step [OF r this net_resume(6)]
  have same: "at_node i (worked rview channels i w id s) = w" using net_resume(3) by (simp add: at_node_def worked_def relay_def)
  have "resumable env rview dview stored H' w t" using resumable_onward [OF st(3)] assms(4) by (simp add: onward_def)
  moreover have "onward (H, at_node n s) (H', at_node n (worked rview channels i w id s))" if "n < length (nodes s)" for n
    by (rule worked_onward [OF net_resume(3) that st(2) assms(4)])
  moreover have "u = t \<or> u \<in> set (ts ! i)" if "u \<in> set ((ts ! i)[j := t])" for u
    using that set_update_subset_insert [of "ts ! i" j t] by blast
  ultimately have "resumable env rview dview stored H' (at_node n (worked rview channels i w id s)) u
        \<or> (\<exists>m < length (nodes s). u \<in> set (ts ! m) \<and> onward (H, at_node m s) (H', at_node n (worked rview channels i w id s)))"
    if "n < length (nodes s)" "u \<in> set (ts[i := (ts ! i)[j := t]] ! n)" for n u
    using that same pool_okD(2) [OF p] by (cases "n = i") (fastforce, auto)
  then show ?thesis unfolding net_resume(2)
    by (intro pool_okI [OF p]) (simp_all add: worked_def pool_okD(2) [OF p])
qed

lemma net_step_ok:
  assumes "net_step env h rview channels x y" "sys_ok env rview dview stored H (fst x)" "pool_ok env rview dview stored H x"
  shows "sys_ok env rview dview stored (H \<union> memberships (stored (sy_db (fst y)))) (fst y)"
  using assms(1)
proof cases
  case (net_sys s s' ts)
  with step_ok assms(2) show ?thesis by simp
next
  case (net_boot s app d ts)
  with step_ok [OF sys_boot [OF net_boot(3)]] assms(2) show ?thesis by simp
next
  case (net_stop i s ts)
  with step_ok [OF sys_stop] assms(2) show ?thesis by simp
next
  case (net_accept i s ts now finish ws token frames)
  with assms(2) show ?thesis by (auto intro: sys_ok_mono)
next
  case (net_force i s q1 c reason q2 ts)
  let ?st = "(n_cm (nodes s ! i))\<lparr>tasks := q1 @ q2\<rparr>"
  have n: "node_ok env H (nodes s ! i)" using assms(2) net_force(1,3) by (simp add: sys_ok_def)
  have "cm_piece (e_ws env) (e_cfg env) (n_cm (nodes s ! i)) ?st" by (rule piece_spawn) (auto simp: net_force(4))
  with n have "node_ok env H ((nodes s ! i)\<lparr>n_cm := ?st\<rparr>)"
    by (auto simp: node_ok_def manager_ok_def intro: reach_piece)
  with assms(2) net_force have "sys_ok env rview dview stored H (fst y)" by (auto intro: sys_ok_node)
  then show ?thesis by (rule sys_ok_mono) simp
next
  case (net_resume i s j ts k t w)
  note p = assms(3) [unfolded net_resume(1)]
  have "Step k \<in> set (ts ! i)" using net_resume(4,5) by (metis nth_mem)
  note r = pool_okD(1) [OF p net_resume(3) this]
  have at: "world_ok env rview dview stored H (at_node i s)" using world_ok_at assms(2) net_resume(1,3) by simp
  have "sys_ok env rview dview stored H (worked rview channels i w id s)"
    using sys_ok_worked resumable_step(1) [OF r at net_resume(6)] assms(2) net_resume by simp
  with net_resume show ?thesis by (auto intro: sys_ok_mono)
qed

lemma net_reach_ok:
  "net_reach env h rview channels dview stored H x \<Longrightarrow> sys_ok env rview dview stored H (fst x) \<and> pool_ok env rview dview stored H x"
proof (induction rule: net_reach.induct)
  case (net_start s)
  then show ?case using start_ok by (simp add: pool_ok_def sys_init_def)
next
  case (net_next H x y)
  then show ?case using net_step_ok net_step_pool by blast
qed

end

section \<open>Runs without interruption\<close>

text \<open>The system's own runs, in which a handler is not interrupted, are runs of the interleaved deployment.\<close>

lemma sys_step_length:
  assumes "sys_step env h rview channels s s'"
  shows "length (nodes s') = length (nodes s)
    \<or> (\<exists>app d. lifespan_startup (h_engine h) (e_pubsub env) (sy_db s) = (Inr app, d)
         \<and> s' = s\<lparr>nodes := nodes s @ [new_node app], sy_db := d\<rparr>)
    \<or> (\<exists>i < length (nodes s). s' = s\<lparr>nodes := take i (nodes s) @ drop (Suc i) (nodes s)\<rparr>)"
  using assms
proof cases
  case (sys_stop i)
  then show ?thesis by (cases "i < length (nodes s)") auto
qed (auto simp: worked_def)

lemma sys_reach_net:
  "sys_reach env h rview channels dview stored H s \<Longrightarrow>
   net_reach env h rview channels dview stored H (s, replicate (length (nodes s)) [])"
proof (induction rule: sys_reach.induct)
  case (sys_start s)
  then show ?case using net_start by (fastforce simp: sys_init_def)
next
  case (sys_next H s s')
  let ?idle = "\<lambda>s. (s, replicate (length (nodes s)) [])"
  have "net_step env h rview channels (?idle s) (?idle s')" using sys_step_length [OF sys_next.hyps(2)]
  proof (elim disjE exE conjE)
    assume "length (nodes s') = length (nodes s)"
    with net_sys [OF sys_next.hyps(2)] show ?thesis by simp
  next
    fix app d assume "lifespan_startup (h_engine h) (e_pubsub env) (sy_db s) = (Inr app, d)"
      "s' = s\<lparr>nodes := nodes s @ [new_node app], sy_db := d\<rparr>"
    with net_boot [of h env s app d rview channels "replicate (length (nodes s)) []"] show ?thesis
      by (simp add: replicate_append_same)
  next
    fix i assume "i < length (nodes s)" "s' = s\<lparr>nodes := take i (nodes s) @ drop (Suc i) (nodes s)\<rparr>"
    with net_stop [of i s env h rview channels "replicate (length (nodes s)) []"] show ?thesis
      by (simp add: replicate_add [symmetric])
  qed
  from net_next [OF sys_next.IH this] show ?case by simp
qed

text \<open>A session in progress can always be run to its end, and then does what it does alone.\<close>

fun ended :: "exn + 'a \<Rightarrow> ('s, 'a) task" where
  "ended (Inl e) = Throw e"
| "ended (Inr x) = Return x"

lemma resume_runs:
  assumes "i < length (nodes s)" "i < length ts" "j < length (ts ! i)" "ts ! i ! j = t" "run t (at_node i s) = (res, w)"
  shows "\<exists>s'. (net_step env h rview channels)\<^sup>*\<^sup>* (s, ts) (s', ts[i := (ts ! i)[j := ended res]])
     \<and> at_node i s' = w \<and> length (nodes s') = length (nodes s)"
  using assms
proof (induction t arbitrary: s ts rule: task.induct)
  case (Step k)
  let ?t = "fst (k (at_node i s))" and ?w = "snd (k (at_node i s))"
  let ?s = "worked rview channels i ?w id s" and ?ts = "ts[i := (ts ! i)[j := fst (k (at_node i s))]]"
  have step: "net_step env h rview channels (s, ts) (?s, ?ts)"
    by (rule net_resume [OF Step.prems(1,3,4)]) simp
  have at: "at_node i ?s = ?w" "length (nodes ?s) = length (nodes s)"
    using Step.prems(1) by (simp_all add: at_node_def worked_def relay_def)
  have "\<exists>s'. (net_step env h rview channels)\<^sup>*\<^sup>* (?s, ?ts) (s', ?ts[i := (?ts ! i)[j := ended res]])
     \<and> at_node i s' = w \<and> length (nodes s') = length (nodes ?s)"
    by (rule Step.IH [of "(?t, ?w)" ?t])
      (use Step.prems at in \<open>auto simp: prod_set_defs run_Step intro: range_eqI [of _ _ "at_node i s"]\<close>)
  with step Step.prems(2) at(2) show ?case
    by (auto intro: converse_rtranclp_into_rtranclp)
next
  case (Return x)
  then have "ts[i := (ts ! i)[j := Return x]] = ts" by (metis list_update_id)
  with Return.prems show ?case by (intro exI [of _ s]) auto
next
  case (Throw e)
  then have "ts[i := (ts ! i)[j := Throw e]] = ts" by (metis list_update_id)
  with Throw.prems show ?case by (intro exI [of _ s]) auto
qed

end
