(* ===== verification/System_Props.thy ===== *)
theory System_Props
  imports System_Run Network
begin

text \<open>
  Properties of the whole deployment, in every state it can reach from the start with its sessions
  interleaved in any way: rooms are served wherever somebody is in them and only entered by members,
  clients are only sent protocol messages, the database stays consistent, a message is relayed to and
  delivered by every instance concerned, and the endpoint's sessions are runs of the system's steps.
\<close>

section \<open>Every reachable state\<close>

abbreviation sample_net :: "(uuid \<times> uuid) set \<Rightarrow> (bool \<times> wire list, string list, redis_store, mem_db_state) net \<Rightarrow> bool" where
  "sample_net \<equiv> net_reach sample_env sample_http id set working committed"

lemma sample_nets: "\<exists>H ts. sample_net H (sample_joined, ts)" "\<exists>H ts. sample_net H (sample_opened, ts)"
  using joined_reach opened_reach sys_reach_net by blast+

lemma net_ok:
  assumes "deployment env h rview channels dview stored" "net_reach env h rview channels dview stored H (s, ts)"
  shows "sys_ok env rview dview stored H s"
  using deployment.net_reach_ok [OF assms] by simp

lemma reach_node:
  assumes "deployment env h rview channels dview stored" "net_reach env h rview channels dview stored H (s, ts)" "n \<in> set (nodes s)"
  shows "node_ok env H n"
  using net_ok [OF assms(1,2)] assms(3) by (simp add: sys_ok_def)

lemma room_entry:
  assumes "deployment env h rview channels dview stored" "net_reach env h rview channels dview stored H (s, ts)" "n \<in> set (nodes s)"
    and "uid \<in> set (get_room_user_ids rid (n_cm n))"
  shows "served (n_broker n) rid \<and> once_member H rid uid"
proof -
  have "index_within (\<lambda>rid uid. served (n_broker n) rid \<and> once_member H rid uid) (n_cm n)"
    using reach_node [OF assms(1-3)] by (simp only: node_ok_def manager_ok_def)
  then show ?thesis by (rule index_withinD) (use assms(4) in \<open>simp only: get_room_user_ids_in_room\<close>)
qed

lemma rooms_served:
  assumes "deployment env h rview channels dview stored" and "reliable_pubsub (e_pubsub env) channels"
    and "net_reach env h rview channels dview stored H (s, ts)" and "n \<in> set (nodes s)"
    and "uid \<in> set (get_room_user_ids rid (n_cm n))"
  shows "serves_room (e_ws env) (e_cfg env) channels rid (n_broker n, n_cm n)"
proof -
  have n: "node_ok env H n" by (rule reach_node [OF assms(1,3,4)])
  have "served (n_broker n) rid" using room_entry [OF assms(1,3,4,5)] by simp
  then have cb: "map_of (rb_callbacks (n_broker n)) (''room:'' @ rid) = Some (room_message_handler rid)" by (simp only: served_def)
  moreover have "subscriptions_match channels (n_broker n)"
    using n by (intro reliable_pubsub.reach_match [OF assms(2)]) (simp add: node_ok_def broker_ok_def)
  moreover have "''room:'' @ rid \<in> set (keys (rb_callbacks (n_broker n)))"
    using image_eqI [of "''room:'' @ rid" fst, OF _ map_of_SomeD [OF cb]] by (simp only: set_map fst_conv)
  ultimately show ?thesis using n
    by (auto simp: serves_room_def subscriptions_match_def channel_set_def node_ok_def manager_ok_def broker_ok_def)
qed



text \<open>
  C5. Nobody is in a room without having been a member: in every reachable state, whatever
  happened between the check and the entry, whoever an instance lists in a room was in the room's
  member list in the database at some moment before.
\<close>

theorem rooms_only_for_members:
  assumes "deployment env h rview channels dview stored" and "net_reach env h rview channels dview stored H (s, ts)"
    and "n \<in> set (nodes s)" and "uid \<in> set (get_room_user_ids rid (n_cm n))"
  shows "\<exists>r u. UUID rid = Inr r \<and> UUID uid = Inr u \<and> (r, u) \<in> H"
  using room_entry [OF assms] by (simp add: once_member_def)

theorem rooms_only_for_members_witness:
  "\<exists>H ts. sample_net H (sample_joined, ts) \<and> (UUID_of 3, UUID_of 1) \<in> H"
proof -
  obtain H ts where H: "sample_net H (sample_joined, ts)" using sample_nets(1) by blast
  from rooms_only_for_members [OF sample.deployment_axioms this, of "nodes sample_joined ! 0" ann den] sample_joined_facts sample_ids
  have "(UUID_of 3, UUID_of 1) \<in> H" by simp
  with H show ?thesis by blast
qed





section \<open>Messages\<close>

lemma handlers_okD:
  assumes "handlers_ok b" "map_of (rb_callbacks b) (''room:'' @ rid) = Some cb" shows "cb = room_message_handler rid"
  using assms unfolding handlers_ok_def by (metis same_append_eq)



text \<open>A frame with a message event that the rate limit lets through.\<close>

lemma message_frame_runs:
  assumes "database_up (e_db env) dview stored" and "redis_available (e_redis env) rview" and "redis_atomic (e_redis env) rview"
    and "UUID rid = Inr r" "UUID uid = Inr u"
    and "r \<in> ro_id ` set (chat_rooms (dview (w_db w)))" "u \<in> u_id ` set (users (dview (w_db w)))"
    and "rid \<noteq> []" "strip c \<noteq> []" "length (strip c) \<le> 5000" "rb_redis (w_broker w)"
    and "fst (check_ws_rate_limit (e_redis env) (e_float_str env) now uid (WS_RATE_LIMIT_PER_MINUTE (e_cfg env)) 60 (w_redis w)) = Inr b"
  obtains m w' where "handle_frame env k now uid name (event_frame ''message'' [(''room_id'', JStr rid), (''content'', JStr c)]) w = (Inr (), w')"
    "ms_room_id m = r" "ms_sender_id m = Some u" "ms_content m = strip c"
    "stored (w_db w') = (dview (w_db w))\<lparr>messages := messages (dview (w_db w)) @ [m]\<rparr>"
    "published (rview (w_redis w')) = published (rview (w_redis w))
       @ [(''room:'' @ rid, json_dumps (envelope ''chat'' (chat_of env rid uid name m)))]"
    "w_broker w' = w_broker w"
proof -
  let ?check = "check_ws_rate_limit (e_redis env) (e_float_str env) now uid (WS_RATE_LIMIT_PER_MINUTE (e_cfg env)) 60"
  obtain r1 where check: "?check (w_redis w) = (Inr b, r1)" using assms(12) by (metis prod.collapse)
  have quiet: "published (rview r1) = published (rview (w_redis w))"
    by (rule keepsD_eq [OF redis_atomic.keeps_log_rate_limit [OF assms(3)] refl check])
  let ?w1 = "w\<lparr>w_cm := upd_conn k (update_activity now) (w_cm w), w_redis := r1\<rparr>"
  let ?ev = "event_frame ''message'' [(''room_id'', JStr rid), (''content'', JStr c)]"
  have eq: "handle_frame env k now uid name ?ev w = handle_message env now uid name (message_event rid c) ?w1"
    by (simp add: handle_frame_def event_frame_def thenE_def bindE_def on_cm_def rate_checked_def on_redis_def onE_def check
        dispatch_event_def message_event_def)
  have w1: "r \<in> ro_id ` set (chat_rooms (dview (w_db ?w1)))" "u \<in> u_id ` set (users (dview (w_db ?w1)))" "rb_redis (w_broker ?w1)"
    using assms by simp_all
  show thesis
  proof (rule handle_message_runs [OF assms(1,2,4,5) w1(1,2) assms(8-10) w1(3), of now name])
    fix m w'
    assume run: "handle_message env now uid name (message_event rid c) ?w1 = (Inr (), w')"
      and m: "ms_room_id m = r" "ms_sender_id m = Some u" "ms_content m = strip c"
      and db: "stored (w_db w') = (dview (w_db ?w1))\<lparr>messages := messages (dview (w_db ?w1)) @ [m]\<rparr>"
      and pub: "published (rview (w_redis w')) = published (rview (w_redis ?w1))
        @ [(''room:'' @ rid, json_dumps (envelope ''chat'' (chat_of env rid uid name m)))]"
      and "w_broker w' = w_broker ?w1"
    then show thesis using quiet by (intro that [of w' m, OF _ m]) (simp_all only: eq, simp_all)
  qed
qed

text \<open>
  A message that a client sends, handled without interruption in any reachable state and on any
  instance, is stored once and sent to every instance that has somebody in the room.
\<close>

lemma message_uninterrupted:
  assumes "deployment env h rview channels dview stored" and "reliable_pubsub (e_pubsub env) channels"
    and "database_up (e_db env) dview stored" and "redis_available (e_redis env) rview"
    and "net_reach env h rview channels dview stored H (s, ts)" and "i < length (nodes s)"
    and "UUID rid = Inr r" "UUID (ss_user x) = Inr u"
    and "r \<in> ro_id ` set (chat_rooms (stored (sy_db s)))" "u \<in> u_id ` set (users (stored (sy_db s)))"
    and "rid \<noteq> []" "strip c \<noteq> []" "length (strip c) \<le> 5000"
    and "fst (check_ws_rate_limit (e_redis env) (e_float_str env) now (ss_user x) (WS_RATE_LIMIT_PER_MINUTE (e_cfg env)) 60 (sy_redis s)) = Inr b"
    and "handle_frame env (ss_conn x) now (ss_user x) (ss_name x)
          (event_frame ''message'' [(''room_id'', JStr rid), (''content'', JStr c)]) (at_node i s) = (res, w)"
    and "s' = worked rview channels i w (after_frame x res) s"
  shows "res = Inr () \<and> (\<exists>m. ms_content m = strip c \<and> ms_sender_id m = Some u \<and> ms_room_id m = r
      \<and> messages (stored (sy_db s')) = messages (stored (sy_db s)) @ [m]
      \<and> (\<forall>j < length (nodes s). get_room_user_ids rid (n_cm (nodes s ! j)) \<noteq> [] \<longrightarrow>
           n_inbox (nodes s' ! j) = n_inbox (nodes s ! j)
             @ [(''room:'' @ rid, json_dumps (envelope ''chat'' (chat_of env rid (ss_user x) (ss_name x) m)))]))"
proof -
  have sys: "sys_ok env rview dview stored H s" by (rule net_ok [OF assms(1,5)])
  then have db: "dview (sy_db s) = stored (sy_db s)" by (simp add: sys_ok_def db_ok_def)
  have "rb_redis (w_broker (at_node i s))" using sys assms(6) by (simp add: sys_ok_def node_ok_def broker_ok_def at_node_def)
  moreover have "redis_atomic (e_redis env) rview" using assms(1) by (simp add: deployment_def)
  ultimately obtain m where m: "res = Inr ()" "ms_room_id m = r" "ms_sender_id m = Some u" "ms_content m = strip c"
    "stored (w_db w) = (dview (sy_db s))\<lparr>messages := messages (dview (sy_db s)) @ [m]\<rparr>" "w_broker w = n_broker (nodes s ! i)"
    and pub: "published (rview (w_redis w)) = published (rview (sy_redis s))
       @ [(''room:'' @ rid, json_dumps (envelope ''chat'' (chat_of env rid (ss_user x) (ss_name x) m)))]"
    using assms(9-15) db
    by (elim message_frame_runs [OF assms(3,4) _ assms(7,8), of "at_node i s" c now b "ss_conn x" "ss_name x"])
      (simp_all add: at_node_def)
  let ?msg = "(''room:'' @ rid, json_dumps (envelope ''chat'' (chat_of env rid (ss_user x) (ss_name x) m)))"
  have news: "news (rview (sy_redis s)) (rview (w_redis w)) = [?msg]" by (simp add: news_def pub del: append.simps)
  have "n_inbox (nodes s' ! j) = n_inbox (nodes s ! j) @ [?msg]"
    if j: "j < length (nodes s)" "get_room_user_ids rid (n_cm (nodes s ! j)) \<noteq> []" for j
  proof -
    obtain y where "y \<in> set (get_room_user_ids rid (n_cm (nodes s ! j)))" using j(2) by (meson last_in_set)
    from rooms_served [OF assms(1,2,5) _ this] j(1) have "''room:'' @ rid \<in> subscribed channels (n_broker (nodes s ! j))"
      by (simp add: serves_room_def)
    with j(1) m(6) show ?thesis
      by (cases "i = j") (simp_all add: assms(16) worked_def relay_def news del: append.simps)
  qed
  with m db show ?thesis by (auto simp: assms(16) worked_def)
qed

lemma message_uninterrupted_sample:
  "let (res, w) = handle_frame sample_env 0 2 ann ''ann'' (event_frame ''message'' [(''room_id'', JStr den), (''content'', JStr ''hi'')])
         (at_node 0 sample_joined);
       s' = worked id set 0 w (after_frame sample_session res) sample_joined
   in res = Inr () \<and> length (messages (committed (sy_db s'))) = 1
      \<and> length (n_inbox (nodes s' ! 0)) = Suc (length (n_inbox (nodes sample_joined ! 0)))"
proof -
  let ?x = sample_session
  let ?raw = "event_frame ''message'' [(''room_id'', JStr den), (''content'', JStr ''hi'')]"
  let ?run = "handle_frame sample_env (ss_conn ?x) 2 (ss_user ?x) (ss_name ?x) ?raw (at_node 0 sample_joined)"
  let ?s = "worked id set 0 (snd ?run) (after_frame ?x (fst ?run)) sample_joined"
  obtain H ts where H: "sample_net H (sample_joined, ts)" using sample_nets(1) by blast
  have s: "UUID (ss_user ?x) = Inr (UUID_of 1)" "0 < length (nodes sample_joined)" "den \<noteq> []"
    "UUID_of 3 \<in> ro_id ` set (chat_rooms (committed (sy_db sample_joined)))"
    "UUID_of 1 \<in> u_id ` set (users (committed (sy_db sample_joined)))"
    by (simp_all add: sample_session_def sample_ids sample_joined_facts den_def sample_tables_def)
  have b: "fst (check_ws_rate_limit (e_redis sample_env) (e_float_str sample_env) 2 (ss_user ?x)
      (WS_RATE_LIMIT_PER_MINUTE (e_cfg sample_env)) 60 (sy_redis sample_joined)) = Inr True"
    using joined_admits by (simp add: sample_session_def)
  have run: "?run = (fst ?run, snd ?run)" by simp
  have ne: "get_room_user_ids den (n_cm (nodes sample_joined ! 0)) \<noteq> []" using sample_joined_facts(1) by auto
  note sent = message_uninterrupted [OF sample.deployment_axioms sample_up(3,1,2) H s(2) sample_ids(3) s(1,4,5,3) sample_message(2,3) b run refl]
  from sent obtain m where m: "messages (committed (sy_db ?s)) = messages (committed (sy_db sample_joined)) @ [m]"
    "\<forall>j < length (nodes sample_joined). get_room_user_ids den (n_cm (nodes sample_joined ! j)) \<noteq> [] \<longrightarrow>
       n_inbox (nodes ?s ! j) = n_inbox (nodes sample_joined ! j)
         @ [(''room:'' @ den, json_dumps (envelope ''chat'' (chat_of sample_env den (ss_user ?x) (ss_name ?x) m)))]"
    by blast
  from m(2) s(2) ne have "length (n_inbox (nodes ?s ! 0)) = Suc (length (n_inbox (nodes sample_joined ! 0)))"
    by (metis length_append_singleton)
  moreover have "length (messages (committed (sy_db ?s))) = 1"
    unfolding m(1) by (simp add: sample_joined_facts sample_tables_def)
  ultimately have "fst ?run = Inr () \<and> length (messages (committed (sy_db ?s))) = 1
      \<and> length (n_inbox (nodes ?s ! 0)) = Suc (length (n_inbox (nodes sample_joined ! 0)))"
    using sent by blast
  moreover have "ss_conn ?x = 0" "ss_user ?x = ann" "ss_name ?x = ''ann''" by (simp_all add: sample_session_def)
  ultimately show ?thesis unfolding split_beta Let_def by (metis (no_types))
qed

section \<open>Sessions as runs\<close>

text \<open>Instance \<open>i\<close> holds a session for this connection, user and name.\<close>

definition holds_session :: "nat \<Rightarrow> session \<Rightarrow> ('w, 'p, 'r, 'd) system \<Rightarrow> bool" where
  "holds_session i x s \<longleftrightarrow> (\<exists>e. x\<lparr>ss_ended := e\<rparr> \<in> set (n_sessions (nodes s ! i)))"

lemma session_same: "x\<lparr>ss_ended := ss_ended x\<rparr> = (x :: session)"
  by simp

lemma holds_after_frame:
  assumes "x \<in> set xs" shows "\<exists>e. x\<lparr>ss_ended := e\<rparr> \<in> set (after_frame x res xs)"
proof (cases res)
  case (Inl e)
  have "x\<lparr>ss_ended := True\<rparr> \<in> set (after_frame x res xs)" using assms by (auto simp: Inl image_iff intro!: bexI [of _ x])
  then show ?thesis by blast
next
  case (Inr u)
  with assms session_same show ?thesis by (metis after_frame.simps(1))
qed

lemma loop_runs:
  assumes "i < length (nodes s)" "x \<in> set (n_sessions (nodes s ! i))" "\<not> ss_ended x"
    and "chat_loop env (ss_conn x) (ss_user x) (ss_name x) frames (at_node i s) = (res, w)"
  shows "\<exists>s'. (sys_step env h rview channels)\<^sup>*\<^sup>* s s' \<and> at_node i s' = w \<and> length (nodes s') = length (nodes s) \<and> holds_session i x s'"
  using assms
proof (induction frames arbitrary: s)
  case Nil
  have "holds_session i x s" unfolding holds_session_def using Nil(2) session_same by metis
  with Nil show ?case by (intro exI [of _ s]) simp
next
  case (Cons f frames)
  obtain now raw where f: "f = (now, raw)" by (cases f)
  obtain r w1 where one: "handle_frame env (ss_conn x) now (ss_user x) (ss_name x) raw (at_node i s) = (r, w1)"
    by (metis prod.exhaust)
  let ?s1 = "worked rview channels i w1 (after_frame x r) s"
  have step: "sys_step env h rview channels s ?s1" by (rule sys_frame [OF Cons.prems(1-3) one])
  show ?case
  proof (cases r)
    case (Inl e)
    with Cons.prems(4) one f have "w = w1" by (simp add: thenE_def bindE_def)
    with step Cons.prems show ?thesis
      by (intro exI [of _ ?s1]) (simp add: holds_session_def holds_after_frame)
  next
    case (Inr u)
    with Cons.prems(4) one f have rest: "chat_loop env (ss_conn x) (ss_user x) (ss_name x) frames (at_node i ?s1) = (res, w)"
      using Cons.prems(1) by (simp add: thenE_def bindE_def)
    have "i < length (nodes ?s1)" "x \<in> set (n_sessions (nodes ?s1 ! i))" using Cons.prems Inr by simp_all
    from Cons.IH [OF this Cons.prems(3) rest] obtain s' where "(sys_step env h rview channels)\<^sup>*\<^sup>* ?s1 s'" "at_node i s' = w"
      "length (nodes s') = length (nodes s)" "holds_session i x s'" by auto
    with step show ?thesis by (blast intro: converse_rtranclp_into_rtranclp)
  qed
qed

text \<open>
  A session is a run of the system: what the endpoint does for a client from the token to the
  cleanup, however it ends, is the effect of a sequence of steps that handle one frame each.
\<close>

lemma session_is_run:
  assumes "i < length (nodes s)" and "websocket_chat env now finish ws token frames (at_node i s) = (res, w)"
  shows "\<exists>s'. (sys_step env h rview channels)\<^sup>*\<^sup>* s s' \<and> at_node i s' = w \<and> length (nodes s') = length (nodes s)"
proof -
  obtain r w1 where op: "session_open env now ws token (at_node i s) = (r, w1)" by (metis prod.exhaust)
  let ?s1 = "worked rview channels i w1 (opened r) s"
  have first: "sys_step env h rview channels s ?s1" by (rule sys_open [OF assms(1) op])
  show ?thesis
  proof (cases "\<exists>x. r = Inr (Some x)")
    case False
    have "w = w1"
      using assms(2) op False
      by (auto simp: websocket_chat_def session_open_def serve_def bindE_def ret_def split: prod.splits sum.splits)
    with first assms(1) show ?thesis by (intro exI [of _ ?s1]) simp
  next
    case True
    then obtain x where x: "r = Inr (Some x)" by blast
    have new: "\<not> ss_ended x" and run: "(thenE (finallyE (catchE (chat_loop env (ss_conn x) (ss_user x) (ss_name x) frames) (\<lambda>e. ret ()))
                     (session_cleanup env (ss_conn x) finish (ss_user x) (ss_name x)))
           (ret Served)) w1 = (res, w)"
      using assms(2) op x
      by (auto simp: websocket_chat_def session_open_def serve_def bindE_def ret_def split: prod.splits sum.splits)
    obtain r2 w2 where loop: "chat_loop env (ss_conn x) (ss_user x) (ss_name x) frames (at_node i ?s1) = (r2, w2)" by (metis prod.exhaust)
    have "\<exists>s'. (sys_step env h rview channels)\<^sup>*\<^sup>* ?s1 s' \<and> at_node i s' = w2 \<and> length (nodes s') = length (nodes ?s1) \<and> holds_session i x s'"
      by (rule loop_runs [OF _ _ new loop]) (simp_all add: assms(1) x)
    then obtain s2 e where s2: "(sys_step env h rview channels)\<^sup>*\<^sup>* ?s1 s2" "at_node i s2 = w2" "length (nodes s2) = length (nodes s)"
      "x\<lparr>ss_ended := e\<rparr> \<in> set (n_sessions (nodes s2 ! i))" by (auto simp: holds_session_def)
    obtain r3 w3 where fin: "session_cleanup env (ss_conn x) finish (ss_user x) (ss_name x) (at_node i s2) = (r3, w3)" by (metis prod.exhaust)
    have "w = w3" using run loop fin s2(2) assms(1)
      by (auto simp: thenE_def bindE_def finallyE_def catchE_def ret_def split: prod.splits sum.splits if_splits)
    moreover have "sys_step env h rview channels s2 (worked rview channels i w3 (remove1 (x\<lparr>ss_ended := e\<rparr>)) s2)"
      by (rule sys_close [OF _ s2(4)]) (use s2(3) assms(1) fin in simp_all)
    ultimately show ?thesis using first s2 assms(1)
      by (intro exI [of _ "worked rview channels i w3 (remove1 (x\<lparr>ss_ended := e\<rparr>)) s2"])
        (auto intro: converse_rtranclp_into_rtranclp rtranclp.rtrancl_into_rtrancl)
  qed
qed

lemma session_is_run_sample:
  "\<exists>s'. (sys_step sample_env sample_http id set)\<^sup>*\<^sup>* sample_booted s'
     \<and> at_node 0 s' = snd (websocket_chat sample_env 0 9 (False, []) (Some sample_token)
          [(1, event_frame ''join_room'' [(''room_id'', JStr den)]), (2, RawText ''{'')] (at_node 0 sample_booted))"
  using session_is_run [of 0 sample_booted sample_env 0 9 "(False, [])" "Some sample_token"
      "[(1, event_frame ''join_room'' [(''room_id'', JStr den)]), (2, RawText ''{'')]" _ _ sample_http id set, OF _ prod.collapse [symmetric]]
  by (auto simp: sample_booted_def)

end
