(* ===== verification/Schedule.thy ===== *)
theory Schedule
  imports System_Props
begin

text \<open>
  Handlers that are interrupted: what a message, cut into its steps, does to the deployment whatever
  happens between them, and that a session in progress can always be run to its end.
\<close>

section \<open>Turns\<close>

lemma turns_publish:
  assumes "redis_available (e_redis env) rview" "rb_redis (w_broker w)"
  obtains w' where "turns (broker_publishT env now ch m) [w] = (Return (), [w'])"
    "published (rview (w_redis w')) = published (rview (w_redis w)) @ [(ch, json_dumps m)]" "w_broker w' = w_broker w"
proof -
  obtain x r' where r': "redis1 (e_redis env) now (PUBLISH ch (json_dumps m)) (w_redis w) = (Inr x, r')"
    "rview r' = snd (exec1 now (PUBLISH ch (json_dumps m)) (purge now (rview (w_redis w))))"
    using redis_available.redis1_exec [OF assms(1)] by blast
  have "turns (broker_publishT env now ch m) [w] = (Return (), [w\<lparr>w_redis := r'\<rparr>])"
    using assms(2) r'(1)
    by (simp add: broker_publishT_def enter_def on_redisT_def rb_publishT_def publish_retries_def numeral_3_eq_3)
  moreover have "published (rview r') = published (rview (w_redis w)) @ [(ch, json_dumps m)]"
    unfolding r'(2) by (simp only: exec1_PUBLISH published_purge)
  ultimately show thesis by (intro that [of "w\<lparr>w_redis := r'\<rparr>"]) simp_all
qed

text \<open>The turns of a frame with a message: it is noted as activity, checked against the limit, stored and published.\<close>

lemma turns_message_frame:
  assumes "database_up (e_db env) dview stored" and "redis_available (e_redis env) rview"
    and "UUID rid = Inr r" "UUID uid = Inr u"
    and "r \<in> ro_id ` set (chat_rooms (dview (w_db w3)))" "u \<in> u_id ` set (users (dview (w_db w3)))"
    and "rid \<noteq> []" "strip c \<noteq> []" "length (strip c) \<le> 5000" "rb_redis (w_broker w4)"
    and "fst (check_ws_rate_limit (e_redis env) (e_float_str env) now uid (WS_RATE_LIMIT_PER_MINUTE (e_cfg env)) 60 (w_redis w2)) = Inr b"
  obtains m w1' w2' w3' w4' where
    "turns (handle_frameT env k now uid name (event_frame ''message'' [(''room_id'', JStr rid), (''content'', JStr c)])) [w1, w2, w3, w4]
       = (Return (), [w1', w2', w3', w4'])"
    "ms_room_id m = r" "ms_sender_id m = Some u" "ms_content m = strip c"
    "stored (w_db w3') = (dview (w_db w3))\<lparr>messages := messages (dview (w_db w3)) @ [m]\<rparr>"
    "published (rview (w_redis w4')) = published (rview (w_redis w4))
       @ [(''room:'' @ rid, json_dumps (envelope ''chat'' (chat_of env rid uid name m)))]"
    "w_broker w4' = w_broker w4"
proof -
  let ?check = "check_ws_rate_limit (e_redis env) (e_float_str env) now uid (WS_RATE_LIMIT_PER_MINUTE (e_cfg env)) 60"
  obtain r2 where "?check (w_redis w2) = (Inr b, r2)" using assms(11) by (metis prod.collapse)
  then have two: "on_redis ?check w2 = (Inr b, w2\<lparr>w_redis := r2\<rparr>)" by (simp add: on_redis_def onE_def)
  obtain m d where m: "save_and_commit env (JStr rid) uid (strip c) JNull (w_db w3) = (Inr m, d)"
    "ms_room_id m = r" "ms_sender_id m = Some u" "ms_content m = strip c"
    "stored d = (dview (w_db w3))\<lparr>messages := messages (dview (w_db w3)) @ [m]\<rparr>"
    by (rule save_and_commit_runs [OF assms(1,3,4,5,6)])
  then have three: "on_db (save_and_commit env (JStr rid) uid (strip c) JNull) w3 = (Inr m, w3\<lparr>w_db := d\<rparr>)"
    by (simp add: on_db_def onE_def)
  obtain w4' where four: "turns (broker_publishT env now (''room:'' @ rid) (envelope ''chat'' (chat_of env rid uid name m))) [w4] = (Return (), [w4'])"
    "published (rview (w_redis w4')) = published (rview (w_redis w4)) @ [(''room:'' @ rid, json_dumps (envelope ''chat'' (chat_of env rid uid name m)))]"
    "w_broker w4' = w_broker w4"
    by (rule turns_publish [OF assms(2,10)])
  have stored: "turns (handle_messageT env now uid name (message_event rid c)) [w3, w4] = (Return (), [w3\<lparr>w_db := d\<rparr>, w4'])"
    using assms(7-9) four(1)
    by (simp add: handle_messageT_def message_event_def liftT_def room_channel_def turns_act [where m = "on_db _", OF three] chat_of_def m(4))
  have "on_cm (upd_conn k (update_activity now)) w1 = (Inr (), w1\<lparr>w_cm := upd_conn k (update_activity now) (w_cm w1)\<rparr>)"
    by (simp add: on_cm_def)
  note one = turns_act [where m = "on_cm _", OF this]
  have "turns (handle_frameT env k now uid name (event_frame ''message'' [(''room_id'', JStr rid), (''content'', JStr c)])) [w1, w2, w3, w4]
       = (Return (), [w1\<lparr>w_cm := upd_conn k (update_activity now) (w_cm w1)\<rparr>, w2\<lparr>w_redis := r2\<rparr>, w3\<lparr>w_db := d\<rparr>, w4'])"
    using stored
    by (simp add: handle_frameT_def event_frame_def thenT_def [of "act (on_cm _)"] one liftT_def rate_checkedT_def
        turns_checked [where m = "on_redis _", OF two] dispatch_eventT_def message_event_def)
  from that [OF this m(2-4) _ four(2,3)] show thesis by (simp add: m(5))
qed

text \<open>What Redis is given in one turn goes to every instance that has somebody in the room at that moment.\<close>

lemma turn_relayed:
  assumes "deployment env h rview channels dview stored" and "reliable_pubsub (e_pubsub env) channels"
    and "net_reach env h rview channels dview stored H (s, ts)" and "i < length (nodes s)"
    and "published (rview (w_redis w)) = published (rview (sy_redis s)) @ [(''room:'' @ rid, p)]" and "w_broker w = n_broker (nodes s ! i)"
    and "j < length (nodes s)" "get_room_user_ids rid (n_cm (nodes s ! j)) \<noteq> []"
  shows "n_inbox (nodes (worked rview channels i w f s) ! j) = n_inbox (nodes s ! j) @ [(''room:'' @ rid, p)]"
proof -
  have news: "news (rview (sy_redis s)) (rview (w_redis w)) = [(''room:'' @ rid, p)]" by (simp add: news_def assms(5) del: append.simps)
  obtain y where "y \<in> set (get_room_user_ids rid (n_cm (nodes s ! j)))" using assms(8) by (meson last_in_set)
  from rooms_served [OF assms(1-3) _ this] assms(7) have "''room:'' @ rid \<in> subscribed channels (n_broker (nodes s ! j))"
    by (simp add: serves_room_def)
  with assms(6,7) show ?thesis
    by (cases "i = j") (simp_all add: worked_def relay_def news del: append.simps)
qed



section \<open>Sessions run to their end\<close>



end
