(* ===== verification/Http.thy ===== *)
theory Http
  imports System
begin

text \<open>
  What clients of the HTTP interface can rely on. A small Hoare logic for work in a database
  session, with a postcondition for exceptions, shows that every failure of a route is one of the
  declared HTTP errors; the one exception the code lets through is stated with it.
\<close>

section \<open>A logic for sessions\<close>

text \<open>
  From tables with \<open>P\<close>, the work \<open>m\<close> returns \<open>x\<close> and leaves tables with \<open>Q x\<close>, or raises an exception
  with \<open>E\<close>. The tables are those the session sees.
\<close>

definition triple ::
  "('d \<Rightarrow> db_tables) \<Rightarrow> (db_tables \<Rightarrow> bool) \<Rightarrow> ('d, 'a) eff \<Rightarrow> ('a \<Rightarrow> db_tables \<Rightarrow> bool) \<Rightarrow> (exn \<Rightarrow> bool) \<Rightarrow> bool" where
  "triple view P m Q E \<longleftrightarrow>
     (\<forall>d. P (view d) \<longrightarrow> (case m d of (Inr x, d') \<Rightarrow> Q x (view d') | (Inl e, d') \<Rightarrow> E e))"

lemma tripleI:
  assumes "\<And>d r d'. P (view d) \<Longrightarrow> m d = (r, d') \<Longrightarrow> (case r of Inr x \<Rightarrow> Q x (view d') | Inl e \<Rightarrow> E e)"
  shows "triple view P m Q E"
  unfolding triple_def
proof (intro allI impI)
  fix d assume "P (view d)"
  then show "case m d of (Inr x, d') \<Rightarrow> Q x (view d') | (Inl e, d') \<Rightarrow> E e"
    using assms [of d "fst (m d)" "snd (m d)"] by (cases "m d") (auto split: sum.splits)
qed

lemma tripleD:
  assumes "triple view P m Q E" "P (view d)" "m d = (r, d')"
  shows "r = Inl e \<Longrightarrow> E e" "r = Inr x \<Longrightarrow> Q x (view d')"
  using assms by (auto simp: triple_def)

named_theorems triple_intros \<open>compositional rules for work in a session\<close>

lemma triple_pre: "triple view P m Q E \<Longrightarrow> (\<And>T. P' T \<Longrightarrow> P T) \<Longrightarrow> triple view P' m Q E"
  by (simp add: triple_def)

lemma triple_raises:
  assumes "triple view P m Q E" "\<And>e. E e \<Longrightarrow> E' e" shows "triple view P m Q E'"
proof (rule tripleI)
  fix d r d' assume "P (view d)" "m d = (r, d')"
  with tripleD [OF assms(1) this] assms(2) show "case r of Inr x \<Rightarrow> Q x (view d') | Inl e \<Rightarrow> E' e"
    by (cases r) auto
qed

lemma triple_ret [triple_intros]: "(\<And>T. P T \<Longrightarrow> Q x T) \<Longrightarrow> triple view P (ret x) Q E"
  by (simp add: triple_def)

lemma triple_raise [triple_intros]: "E e \<Longrightarrow> triple view P (raise e) Q E"
  by (simp add: triple_def)

lemma triple_bind:
  assumes "triple view P m Q E" "\<And>x. triple view (Q x) (f x) Q' E"
  shows "triple view P (bindE m f) Q' E"
proof (rule tripleI)
  fix d r d' assume P: "P (view d)" and run: "bindE m f d = (r, d')"
  obtain r1 d1 where m: "m d = (r1, d1)" by fastforce
  note one = tripleD [OF assms(1) P m]
  show "case r of Inr x \<Rightarrow> Q' x (view d') | Inl e \<Rightarrow> E e"
  proof (cases r1)
    case (Inl e)
    with one(1) run m show ?thesis by (auto simp: bindE_def)
  next
    case (Inr x)
    with run m have "f x d1 = (r, d')" by (simp add: bindE_def)
    from tripleD [OF assms(2) one(2) [OF Inr] this] show ?thesis by (cases r) auto
  qed
qed

lemma triple_liftX [triple_intros]:
  assumes "\<And>x. r = Inr x \<Longrightarrow> triple view P (f x) Q E" "\<And>e T. r = Inl e \<Longrightarrow> P T \<Longrightarrow> E e"
  shows "triple view P (bindE (liftX r) f) Q E"
  using assms by (cases r) (auto simp: triple_def bindE_def)

lemma triple_if [triple_intros]:
  "(b \<Longrightarrow> triple view P m Q E) \<Longrightarrow> (\<not> b \<Longrightarrow> triple view P n Q E) \<Longrightarrow> triple view P (if b then m else n) Q E"
  by simp

lemma triple_option [triple_intros]:
  "(z = None \<Longrightarrow> triple view P m Q E) \<Longrightarrow> (\<And>x. z = Some x \<Longrightarrow> triple view P (f x) Q E) \<Longrightarrow>
   triple view P (case z of None \<Rightarrow> m | Some x \<Rightarrow> f x) Q E"
  by (simp split: option.split)

context database_up begin

lemma triple_select:
  assumes "\<And>x. dest (wrap x) = Some x" "\<And>xs. triple view (\<lambda>T. P T \<and> xs = q T) (f xs) Q E"
  shows "triple view P (bindE (select_as api dest wrap q) f) Q E"
proof (rule triple_bind)
  show "triple view P (select_as api dest wrap q) (\<lambda>xs T. P T \<and> xs = q T) E"
  proof (rule tripleI)
    fix d r d' assume run: "P (view d)" "select_as api dest wrap q d = (r, d')"
    obtain d1 where "select_as api dest wrap q d = (Inr (q (view d)), d1)" "view d1 = view d"
      by (rule select_as_runs [of dest wrap q d]) (rule assms(1))
    with run show "case r of Inr xs \<Rightarrow> P (view d') \<and> xs = q (view d') | Inl e \<Rightarrow> E e" by auto
  qed
qed (rule assms(2))

text \<open>A select of at most one row.\<close>

lemma triple_unique:
  assumes "\<And>x. dest (wrap x) = Some x" "\<And>T. P T \<Longrightarrow> length (q T) \<le> Suc 0"
    and "\<And>found. triple view (\<lambda>T. P T \<and> set_option found = set (q T)) (f found) Q E"
  shows "triple view P (bindE (select_as api dest wrap q) (\<lambda>xs. bindE (liftX (scalar_one_or_none xs)) f)) Q E"
proof (rule triple_select [OF assms(1)], rule triple_liftX)
  fix xs :: "'b list" and found assume "scalar_one_or_none xs = Inr found"
  then have "set_option found = set xs" by (cases xs rule: scalar_one_or_none.cases) auto
  then show "triple view (\<lambda>T. P T \<and> xs = q T) (f found) Q E" by (intro triple_pre [OF assms(3)]) auto
next
  fix xs :: "'b list" and e T assume err: "scalar_one_or_none xs = Inl e" and "P T \<and> xs = q T"
  with assms(2) have "length xs \<le> Suc 0" by blast
  with err show "E e" by (cases xs rule: scalar_one_or_none.cases) auto
qed

lemma triple_add:
  assumes "\<And>i t. dest (fill i t x) = Some (g i t)" "\<And>T. P T \<Longrightarrow> widths_ok x \<and> constraints_ok T x"
    and "\<And>i t T. P T \<Longrightarrow> i \<notin> ids T x \<Longrightarrow> Q (g i t) (insert_row (fill i t x) T)"
  shows "triple view P (add_as api dest x) Q E"
proof (rule tripleI)
  fix d r d' assume P: "P (view d)" and run: "add_as api dest x d = (r, d')"
  obtain row d1 where r: "db_add api x d = (Inr row, d1)" using add_up assms(2) [OF P] by blast
  from add [OF r] obtain i t where "row = fill i t x" "i \<notin> ids (view d) x" "view d1 = insert_row row (view d)" by blast
  with r run assms(1,3) P show "case r of Inr y \<Rightarrow> Q y (view d') | Inl e \<Rightarrow> E e"
    by (auto simp: add_as_def bindE_def)
qed

lemma triple_delete:
  "(\<And>T. P T \<Longrightarrow> Q () (delete_row row T)) \<Longrightarrow> triple view P (db_delete api row) Q E"
proof (rule tripleI)
  fix d r d' assume "\<And>T. P T \<Longrightarrow> Q () (delete_row row T)" "P (view d)" "db_delete api row d = (r, d')"
  moreover obtain d1 where "db_delete api row d = (Inr (), d1)" using delete_up by blast
  ultimately show "case r of Inr x \<Rightarrow> Q x (view d') | Inl e \<Rightarrow> E e" using delete by fastforce
qed

lemma triple_session:
  assumes "triple view P m Q E" shows "triple view P (with_session api m) (\<lambda>_ _. True) E"
proof (rule tripleI)
  fix d r d' assume P: "P (view d)" and run: "with_session api m d = (r, d')"
  obtain r1 d1 where m: "m d = (r1, d1)" by fastforce
  obtain d2 where c: "db_commit api d1 = (Inr (), d2)" using commit_up by blast
  show "case r of Inr x \<Rightarrow> True | Inl e \<Rightarrow> E e"
    using tripleD [OF assms P m] run m c by (cases r1) (auto simp: with_session_def)
qed

end

section \<open>Failures of the routes\<close>

text \<open>The errors the interface declares: those of \<open>core/exceptions.py\<close> and pydantic's.\<close>

definition declared :: "exn \<Rightarrow> bool" where
  "declared e \<longleftrightarrow> (case e of HTTPException c _ _ \<Rightarrow> c \<in> {401, 403, 404, 409} | ValidationError _ \<Rightarrow> True | _ \<Rightarrow> False)"

lemma declared_simps [simp]:
  "declared (AuthenticationError x)" "declared (AuthorizationError x)" "declared (NotFoundError x)" "declared (ConflictError x)"
  "declared (ValidationError x)" "\<not> declared MultipleResultsFound"
  by (simp_all add: declared_def http_errors)

lemma unique_filter: "distinct (map f xs) \<Longrightarrow> length (filter (\<lambda>y. f y = k) xs) \<le> Suc 0"
  by (rule filter_key_cases [of f xs k]) auto

lemma tables_unique:
  assumes "tables_ok T"
  shows "length (users_with_id i T) \<le> Suc 0" "length (users_named n T) \<le> Suc 0" "length (rooms_with_id r T) \<le> Suc 0"
    "length (memberships_of r i T) \<le> Suc 0"
  using assms unique_filter [of u_id "users T" i] unique_filter [of u_username "users T" n] unique_filter [of ro_id "chat_rooms T" r]
    unique_filter [of "\<lambda>m. (me_room_id m, me_user_id m)" "members T" "(r, i)"]
  by (simp_all add: tables_ok_def users_with_id_def users_named_def rooms_with_id_def memberships_of_def)

context database_up begin

text \<open>The tables are consistent and the user is in them.\<close>

abbreviation known :: "user \<Rightarrow> db_tables \<Rightarrow> bool" where
  "known u T \<equiv> tables_ok T \<and> u \<in> set (users T)"

lemma find_active_ok: "triple view tables_ok (find_active api i) known declared"
  unfolding find_active_def
  by (intro triple_unique triple_intros) (simp_all add: tables_unique, auto simp: users_with_id_def)

lemma current_user_ok:
  assumes "\<And>h c. hdr = Some h \<Longrightarrow> decode_token jw cfg now (drop 7 h) = Some c \<Longrightarrow> \<exists>i. UUID_json (claim_sub c) = Inr i"
  shows "triple view tables_ok (get_current_user api jw cfg now hdr) known declared"
  unfolding get_current_user_def Let_def
  by (intro triple_intros find_active_ok declared_simps)
    (use assms in \<open>fastforce simp: decode_access_token_def decode_typed_def split: option.splits if_splits\<close>)

lemma as_current_user_ok:
  assumes "\<And>h c. hdr = Some h \<Longrightarrow> decode_token jw cfg now (drop 7 h) = Some c \<Longrightarrow> \<exists>i. UUID_json (claim_sub c) = Inr i"
    and "\<And>u. triple view (known u) (handler u) Q declared"
  shows "triple view tables_ok (as_current_user api jw cfg now hdr handler) (\<lambda>_ _. True) declared"
  unfolding as_current_user_def
proof (rule triple_session, rule triple_bind [OF current_user_ok])
  show "triple view (known u) (handler u) Q declared" for u by (rule assms(2))
qed (rule assms(1))

lemma get_room_ok: "triple view (known u) (rs_get_room api rid) (\<lambda>room T. known u T \<and> rid \<in> ro_id ` set (chat_rooms T)) declared"
  unfolding rs_get_room_def
  by (intro triple_unique triple_intros) (simp_all add: tables_unique, auto simp: rooms_with_id_def)

lemma member_ok: "triple view (known u) (rs_is_member api rid (u_id u)) (\<lambda>_. known u) declared"
  unfolding rs_is_member_def
  by (intro triple_unique triple_intros) (simp_all add: tables_unique)

lemma join_ok: "triple view (known u) (rs_join_room api rid (u_id u)) (\<lambda>_ _. True) declared"
  unfolding rs_join_room_def
  by (intro triple_bind [OF get_room_ok] triple_unique triple_intros triple_add)
    (simp_all add: tables_unique, auto simp: memberships_of_def filter_empty_conv)

lemma leave_ok: "triple view (known u) (rs_leave_room api rid (u_id u)) (\<lambda>_ _. True) declared"
  unfolding rs_leave_room_def
  by (intro triple_unique triple_intros triple_delete) (simp_all add: tables_unique)

lemma create_ok:
  assumes "room_widths (rc_name req) (rc_description req)"
  shows "triple view (known u) (rs_create_room api req (u_id u)) (\<lambda>_ _. True) declared"
  unfolding rs_create_room_def
proof (rule triple_bind)
  show "triple view (known u) (add_as api dest_room (NewRoom (rc_name req) (rc_description req) (rc_is_private req) (Some (u_id u))))
     (\<lambda>room T. known u T \<and> ro_id room \<in> ro_id ` set (chat_rooms T) \<and> (\<forall>m\<in>set (members T). me_room_id m \<noteq> ro_id room)) declared"
  proof (rule triple_add [where g = "\<lambda>i t. \<lparr>ro_id = i, ro_name = rc_name req, ro_description = rc_description req,
        ro_is_private = rc_is_private req, ro_created_by = Some (u_id u), ro_created_at = t\<rparr>"], goal_cases)
    case (3 i t T)
    then have "tables_ok (insert_row (fill i t (NewRoom (rc_name req) (rc_description req) (rc_is_private req) (Some (u_id u)))) T)"
      by (intro tables_ok_insert) auto
    moreover have "\<forall>m\<in>set (members T). me_room_id m \<in> ro_id ` set (chat_rooms T)"
      using 3 by (simp add: tables_ok_def references_ok_def)
    ultimately show ?case using 3 by auto
  qed (use assms in auto)
  show "triple view (\<lambda>T. known u T \<and> ro_id room \<in> ro_id ` set (chat_rooms T) \<and> (\<forall>m\<in>set (members T). me_room_id m \<noteq> ro_id room))
     (bindE (add_as api dest_member (NewMember (ro_id room) (u_id u) ADMIN)) (\<lambda>member. ret room)) (\<lambda>_ _. True) declared" for room
    by (rule triple_bind [where Q = "\<lambda>_ _. True"], rule triple_add) (auto intro!: triple_intros)
qed

lemma responses_ok: "triple view P (room_responses api rs) (\<lambda>_ _. True) declared"
proof (induction rs arbitrary: P)
  case (Cons r rs)
  show ?case unfolding room_responses.simps
    by (intro triple_select triple_bind [OF Cons.IH] triple_ret) simp_all
qed (simp only: room_responses.simps triple_ret)

lemma lists_ok:
  "triple view P (rs_list_user_rooms api i) (\<lambda>_ _. True) declared"
  "triple view P (rs_list_public_rooms api) (\<lambda>_ _. True) declared"
  "triple view P (rs_get_room_members api isoformat rid) (\<lambda>_ _. True) declared"
  "triple view P (ms_get_room_messages api isoformat fromisoformat rid n before) (\<lambda>_ _. True) declared"
  unfolding rs_list_user_rooms_def rs_list_public_rooms_def rs_get_room_members_def ms_get_room_messages_def Let_def
  by (intro triple_select responses_ok triple_ret; auto)+

lemma login_ok:
  assumes "\<And>u pw. u \<in> set (users T0) \<Longrightarrow> \<exists>b. bc_checkpw bc pw (u_hashed_password u) = Inr b"
  shows "triple view (\<lambda>T. T = T0 \<and> tables_ok T) (as_login api bc jw cfg now req) (\<lambda>_ _. True) declared"
  unfolding as_login_def
proof (intro triple_unique triple_intros declared_simps, goal_cases)
  case (4 found u e T)
  then have "u \<in> set (users T0)" by (auto simp: users_named_def)
  from assms [OF this] 4(2) show ?case unfolding verify_password_def Let_def by (metis sum.distinct(1))
qed (simp_all add: tables_unique)

lemma refresh_ok:
  assumes "\<And>c. decode_token jw cfg now tok = Some c \<Longrightarrow> \<exists>i. UUID_json (claim_sub c) = Inr i"
  shows "triple view tables_ok (as_refresh_token api jw cfg now tok) (\<lambda>_ _. True) declared"
  unfolding as_refresh_token_def
  by (intro triple_intros triple_bind [OF find_active_ok] declared_simps)
    (use assms in \<open>fastforce simp: decode_refresh_token_def decode_typed_def split: option.splits if_splits\<close>)+

end

text \<open>
  Registration. Two accounts that take the user name and the address between them are more than
  \<open>scalar_one_or_none\<close> expects.
\<close>

definition double_conflict :: "db_tables \<Rightarrow> user_register \<Rightarrow> bool" where
  "double_conflict T req \<longleftrightarrow> (\<exists>u\<in>set (users T). \<exists>v\<in>set (users T). u \<noteq> v
     \<and> u_username u = ur_username req \<and> u_email v = ur_email req)"

lemma clashing_two:
  assumes "tables_ok T" "scalar_one_or_none (users_clashing (ur_username req) (ur_email req) T) = Inl e"
  shows "e = MultipleResultsFound \<and> double_conflict T req"
proof -
  let ?xs = "users_clashing (ur_username req) (ur_email req) T"
  have dist: "distinct ?xs" using assms(1) by (auto simp: tables_ok_def users_clashing_def distinct_map)
  obtain u v xs where xs: "?xs = u # v # xs" and e: "e = MultipleResultsFound"
    using assms(2) by (cases ?xs rule: scalar_one_or_none.cases) auto
  with dist have "u \<noteq> v" by simp
  moreover have "x \<in> set (users T) \<and> (u_username x = ur_username req \<or> u_email x = ur_email req)" if "x \<in> {u, v}" for x
  proof -
    have "x \<in> set ?xs" using that by (auto simp: xs)
    then show ?thesis by (simp add: users_clashing_def)
  qed
  moreover have "inj_on u_username (set (users T))" "inj_on u_email (set (users T))"
    using assms(1) by (simp_all add: tables_ok_def distinct_map)
  ultimately have "double_conflict T req" unfolding double_conflict_def
    by (metis inj_onD insertI1 insertI2)
  with e show ?thesis by simp
qed

text \<open>What registration relies on: bcrypt hashes short passwords to texts that fit the column.\<close>

definition hashes_fit :: "bcrypt_api \<Rightarrow> bool" where
  "hashes_fit bc \<longleftrightarrow> (\<forall>pw salt. length pw \<le> 144 \<longrightarrow> (\<exists>s. bc_hashpw bc pw salt = Inr s \<and> length s \<le> 255))"

lemma length_utf8: "length (utf8 s) \<le> 2 * length s"
  by (induction s) (auto simp: utf8_def Let_def)

lemma hash_fits:
  assumes "hashes_fit bc" obtains s where "hash_password bc salt pw = Inr s" "length s \<le> 255"
proof -
  let ?pw = "if length pw > 72 then take 72 pw else pw"
  have "length (utf8 ?pw) \<le> 144" using length_utf8 [of ?pw] by (simp split: if_splits)
  with assms obtain s where "bc_hashpw bc (utf8 ?pw) salt = Inr s" "length s \<le> 255" unfolding hashes_fit_def by blast
  with that show thesis by (simp add: hash_password_def)
qed

context database_up begin

lemma register_ok:
  assumes "hashes_fit bc" "length (ur_username req) \<le> 50" "length (ur_email req) \<le> 255" "fits 100 (ur_display_name req)"
  shows "triple view (\<lambda>T. T = T0 \<and> tables_ok T) (as_register api bc salt req) (\<lambda>_ _. True)
     (\<lambda>e. declared e \<or> e = MultipleResultsFound \<and> double_conflict T0 req)"
  unfolding as_register_def
proof (rule triple_select, simp, intro triple_intros, goal_cases)
  case (1 rows found h)
  obtain s where "hash_password bc salt (ur_password req) = Inr s" "length s \<le> 255" by (rule hash_fits [OF assms(1)])
  with 1(3) have h: "length h \<le> 255" by simp
  have none: "rows = []" using 1(1,2) by (cases rows rule: scalar_one_or_none.cases) auto
  show ?case
    by (rule triple_add) (use assms h none in \<open>auto simp: fits_def users_clashing_def filter_empty_conv empty_filter_conv split: option.splits\<close>)
next
  case (2 rows found e T)
  obtain s where "hash_password bc salt (ur_password req) = Inr s" by (rule hash_fits [OF assms(1)])
  with 2(3) show ?case by simp
qed (simp_all, use clashing_two in blast)

end

text \<open>The token a request carries.\<close>

fun request_token :: "http_request \<Rightarrow> string option" where
  "request_token (Refresh token) = Some token"
| "request_token (GetMe hdr) = map_option (drop 7) hdr"
| "request_token (CreateRoom hdr body) = map_option (drop 7) hdr"
| "request_token (ListRooms hdr mine) = map_option (drop 7) hdr"
| "request_token (GetRoom hdr rid) = map_option (drop 7) hdr"
| "request_token (JoinRoom hdr rid) = map_option (drop 7) hdr"
| "request_token (LeaveRoom hdr rid) = map_option (drop 7) hdr"
| "request_token (GetMembers hdr rid) = map_option (drop 7) hdr"
| "request_token (GetMessages hdr rid limit before) = map_option (drop 7) hdr"
| "request_token req = None"

definition register_conflict :: "db_tables \<Rightarrow> (string \<Rightarrow> string option) \<Rightarrow> http_request \<Rightarrow> bool" where
  "register_conflict T email_str req \<longleftrightarrow>
     (case req of Register salt body \<Rightarrow> (\<exists>b. UserRegister email_str body = Inr b \<and> double_conflict T b) | _ \<Rightarrow> False)"

context database_up begin

lemma drop_result: "triple view P m (\<lambda>_ _. True) E \<Longrightarrow> triple view P (thenE m (ret ())) (\<lambda>_ _. True) E"
  unfolding thenE_def by (erule triple_bind) (simp add: triple_ret)

lemma current_user_routes_ok:
  assumes "\<And>h c. hdr = Some h \<Longrightarrow> decode_token jw cfg now (drop 7 h) = Some c \<Longrightarrow> \<exists>i. UUID_json (claim_sub c) = Inr i"
  shows "triple view tables_ok (route_get_me api jw cfg now hdr) (\<lambda>_ _. True) declared"
    "triple view tables_ok (route_create_room api jw cfg now hdr body) (\<lambda>_ _. True) declared"
    "triple view tables_ok (route_list_rooms api jw cfg now hdr mine) (\<lambda>_ _. True) declared"
    "triple view tables_ok (route_get_room api jw cfg isoformat now hdr rid) (\<lambda>_ _. True) declared"
    "triple view tables_ok (route_join_room api jw cfg now hdr rid) (\<lambda>_ _. True) declared"
    "triple view tables_ok (route_leave_room api jw cfg now hdr rid) (\<lambda>_ _. True) declared"
    "triple view tables_ok (route_get_room_members api jw cfg isoformat now hdr rid) (\<lambda>_ _. True) declared"
    "triple view tables_ok (route_get_messages api jw cfg isoformat fromiso now hdr rid limit before) (\<lambda>_ _. True) declared"
proof -
  note user = as_current_user_ok [where Q = "\<lambda>_ _. True", OF assms]
  show "triple view tables_ok (route_get_me api jw cfg now hdr) (\<lambda>_ _. True) declared"
    unfolding route_get_me_def by (rule user) (simp_all add: triple_ret)
  show "triple view tables_ok (route_create_room api jw cfg now hdr body) (\<lambda>_ _. True) declared"
    unfolding route_create_room_def
    by (rule user) (auto simp: RoomCreate_def fits_def split: if_splits intro!: triple_intros triple_bind [OF create_ok])
  show "triple view tables_ok (route_list_rooms api jw cfg now hdr mine) (\<lambda>_ _. True) declared"
    unfolding route_list_rooms_def by (rule user) (auto intro!: triple_bind [OF lists_ok(1)] triple_bind [OF lists_ok(2)] triple_ret)
  show "triple view tables_ok (route_get_room api jw cfg isoformat now hdr rid) (\<lambda>_ _. True) declared"
    unfolding route_get_room_def by (rule user) (auto intro!: triple_bind [OF get_room_ok] triple_bind [OF lists_ok(3)] triple_ret)
  show "triple view tables_ok (route_join_room api jw cfg now hdr rid) (\<lambda>_ _. True) declared"
    unfolding route_join_room_def by (rule user) (auto intro!: triple_bind [OF join_ok] triple_ret)
  show "triple view tables_ok (route_leave_room api jw cfg now hdr rid) (\<lambda>_ _. True) declared"
    unfolding route_leave_room_def by (rule user) (auto intro!: triple_bind [OF leave_ok] triple_ret)
  show "triple view tables_ok (route_get_room_members api jw cfg isoformat now hdr rid) (\<lambda>_ _. True) declared"
    unfolding route_get_room_members_def by (rule user) (auto intro!: triple_bind [OF lists_ok(3)] triple_ret)
  show "triple view tables_ok (route_get_messages api jw cfg isoformat fromiso now hdr rid limit before) (\<lambda>_ _. True) declared"
    unfolding route_get_messages_def not_a_member_def
    by (rule user) (auto intro!: triple_intros triple_bind [OF member_ok] lists_ok(4) simp: page_limit_def split: option.splits if_splits)
qed

lemma register_route_ok:
  assumes "hashes_fit bc" "\<And>s a. email_str s = Some a \<Longrightarrow> length a \<le> 255"
  shows "triple view (\<lambda>T. T = T0 \<and> tables_ok T) (route_register api bc email_str salt body) (\<lambda>_ _. True)
     (\<lambda>e. declared e \<or> e = MultipleResultsFound \<and> register_conflict T0 email_str (Register salt body))"
  unfolding route_register_def
proof (rule triple_session, rule triple_liftX)
  fix req assume req: "UserRegister email_str body = Inr req"
  then have "length (ur_username req) \<le> 50" "length (ur_email req) \<le> 255" "fits 100 (ur_display_name req)"
    using assms(2) by (auto simp: UserRegister_def split: option.splits if_splits)
  from register_ok [OF assms(1) this, of T0 salt]
  show "triple view (\<lambda>T. T = T0 \<and> tables_ok T) (as_register api bc salt req) (\<lambda>_ _. True)
     (\<lambda>e. declared e \<or> e = MultipleResultsFound \<and> register_conflict T0 email_str (Register salt body))"
    by (simp add: register_conflict_def req)
qed (auto simp: UserRegister_def split: option.splits if_splits)

lemma health_ok:
  "redis_ping \<noteq> Inl CancelledError \<Longrightarrow> triple view P (health_check api cfg exn_str redis_ping) (\<lambda>_ _. True) E"
proof (rule tripleI)
  fix d r d' assume "redis_ping \<noteq> Inl CancelledError" "health_check api cfg exn_str redis_ping d = (r, d')"
  moreover obtain d1 where "db_execute api (\<lambda>T. [CountRow 1]) d = (Inr [CountRow 1], d1)" using select_up by blast
  ultimately show "case r of Inr x \<Rightarrow> True | Inl e \<Rightarrow> E e"
    by (auto simp: health_check_def in_session_def Let_def)
qed

lemma declared_or:
  "triple view tables_ok m (\<lambda>_ _. True) declared \<Longrightarrow>
   triple view (\<lambda>T. T = T0 \<and> tables_ok T) m (\<lambda>_ _. True) (\<lambda>e. declared e \<or> X e)"
  by (erule triple_raises [OF triple_pre]) simp_all

lemma exec_ok:
  assumes "e_db env = api" and "hashes_fit (h_bcrypt h)"
    and "\<And>u pw. u \<in> set (users T0) \<Longrightarrow> \<exists>b. bc_checkpw (h_bcrypt h) pw (u_hashed_password u) = Inr b"
    and "\<And>s a. h_email_str h s = Some a \<Longrightarrow> length a \<le> 255"
    and "\<And>tok c. request_token req = Some tok \<Longrightarrow> decode_token (e_jwt env) (e_cfg env) now tok = Some c \<Longrightarrow>
           \<exists>i. UUID_json (claim_sub c) = Inr i"
    and "req \<noteq> Health (Inl CancelledError)"
  shows "triple view (\<lambda>T. T = T0 \<and> tables_ok T) (http_exec env h now req) (\<lambda>_ _. True)
     (\<lambda>e. declared e \<or> e = MultipleResultsFound \<and> register_conflict T0 (h_email_str h) req)"
proof -
  have login: "triple view (\<lambda>T. T = T0 \<and> tables_ok T) (route_login api (h_bcrypt h) jw cfg now body) (\<lambda>_ _. True) (\<lambda>e. declared e \<or> X e)"
    for jw cfg body and X :: "exn \<Rightarrow> bool"
    unfolding route_login_def by (rule triple_raises [OF triple_session [OF login_ok [OF assms(3)]]]) simp_all
  note user = declared_or [OF current_user_routes_ok(1)] declared_or [OF current_user_routes_ok(2)] declared_or [OF current_user_routes_ok(3)]
    declared_or [OF current_user_routes_ok(4)] declared_or [OF current_user_routes_ok(5)] declared_or [OF current_user_routes_ok(6)]
    declared_or [OF current_user_routes_ok(7)] declared_or [OF current_user_routes_ok(8)]
  have refresh: "triple view tables_ok (route_refresh api jw cfg now tok) (\<lambda>_ _. True) declared"
    if "\<And>c. decode_token jw cfg now tok = Some c \<Longrightarrow> \<exists>i. UUID_json (claim_sub c) = Inr i" for jw cfg tok
    unfolding route_refresh_def by (rule triple_session [OF refresh_ok]) (rule that)
  show ?thesis
    using assms(5,6)
    by (cases req; simp only: http_exec.simps assms(1); intro drop_result)
      (auto intro!: user login declared_or [OF refresh] register_route_ok assms(2,4) health_ok)
qed

end



end
