(* ===== verification/Races.thy ===== *)
theory Races
  imports Schedule Http
begin

text \<open>
  Requests whose transactions overlap. A database session waits at every statement, and what other
  transactions have committed meanwhile is visible to the next statement (PostgreSQL's level
  \<open>READ COMMITTED\<close>). The operations that look for a row before they insert one are cut at their
  statements here: \<open>RoomService.join_room\<close>, \<open>AuthService.register\<close> and \<open>MessageService.save_message\<close> with
  the sessions they run in. Run without interruption they are the operations of the services; with other
  transactions in between they keep to one row per key, since the unique constraints of the tables
  hold, but the violated constraint is not turned into the error the operation declares.
\<close>

section \<open>Sessions and operations cut at their statements\<close>

text \<open>\<open>try: ... except Exception: clean up; raise\<close>, where nothing can be raised but exceptions.\<close>

primrec onfailT :: "('s, 'a) task \<Rightarrow> ('s, unit) task \<Rightarrow> ('s, 'a) task" where
  "onfailT (Return x) u = Return x"
| "onfailT (Throw e) u = thenT u (Throw e)"
| "onfailT (Step k) u = Step (\<lambda>s. map_prod (\<lambda>t. onfailT t u) id (k s))"

definition rollbackT :: "'d db_api \<Rightarrow> ('d, unit) task" where
  "rollbackT api = act (\<lambda>d. (Inr (), snd (db_rollback api d)))"

definition with_sessionT :: "'d db_api \<Rightarrow> ('d, 'a) task \<Rightarrow> ('d, 'a) task" where
  "with_sessionT api body =
     onfailT (bindT body (\<lambda>x. thenT (act (db_commit api)) (Return x))) (rollbackT api)"

definition in_sessionT :: "'d db_api \<Rightarrow> ('d, 'a) task \<Rightarrow> ('d, 'a) task" where
  "in_sessionT api body = finallyT body (rollbackT api)"

definition rs_join_roomT :: "'d db_api \<Rightarrow> uuid \<Rightarrow> uuid \<Rightarrow> ('d, room_member) task" where
  "rs_join_roomT api rid uid =
     bindT (act (rs_get_room api rid)) (\<lambda>room.
     bindT (act (select_members api (memberships_of rid uid))) (\<lambda>rows.
     bindT (liftT (scalar_one_or_none rows)) (\<lambda>existing.
     if existing \<noteq> None then Throw (ConflictError ''Already a member of this room'')
     else act (add_as api dest_member (NewMember rid uid MEMBER)))))"

definition route_join_roomT ::
  "'d db_api \<Rightarrow> jwt_api \<Rightarrow> settings \<Rightarrow> timestamp \<Rightarrow> string option \<Rightarrow> uuid \<Rightarrow> ('d, json) task" where
  "route_join_roomT api jw cfg now header rid =
     with_sessionT api
       (bindT (act (get_current_user api jw cfg now header)) (\<lambda>u.
        bindT (rs_join_roomT api rid (u_id u)) (\<lambda>m. Return (detail ''Successfully joined the room''))))"

definition as_registerT :: "'d db_api \<Rightarrow> bcrypt_api \<Rightarrow> string \<Rightarrow> user_register \<Rightarrow> ('d, user) task" where
  "as_registerT api bc salt req =
     bindT (act (select_users api (users_clashing (ur_username req) (ur_email req)))) (\<lambda>rows.
     bindT (liftT (scalar_one_or_none rows)) (\<lambda>existing.
     (case existing of
        Some u \<Rightarrow>
          if u_username u = ur_username req then Throw (ConflictError ''Username already taken'')
          else Throw (ConflictError ''Email already registered'')
      | None \<Rightarrow>
          bindT (liftT (hash_password bc salt (ur_password req))) (\<lambda>h.
          act (add_as api dest_user (NewUser (ur_username req) (ur_email req) h
            (case ur_display_name req of Some n \<Rightarrow> if n \<noteq> [] then Some n else Some (ur_username req)
             | None \<Rightarrow> Some (ur_username req))))))))"

definition route_registerT ::
  "'d db_api \<Rightarrow> bcrypt_api \<Rightarrow> (string \<Rightarrow> string option) \<Rightarrow> string \<Rightarrow> user_register \<Rightarrow> ('d, user) task" where
  "route_registerT api bc email_str salt body =
     with_sessionT api (bindT (liftT (UserRegister email_str body)) (\<lambda>req. as_registerT api bc salt req))"

definition ms_save_messageT ::
  "'d db_api \<Rightarrow> uuid \<Rightarrow> uuid \<Rightarrow> string \<Rightarrow> message_type \<Rightarrow> json \<Rightarrow> ('d, message) task" where
  "ms_save_messageT api rid sender content mtype key =
     (if truthy key then
        bindT (liftT (key_param key)) (\<lambda>k.
        bindT (act (select_messages api (messages_with_key k))) (\<lambda>rows.
        bindT (liftT (scalar_one_or_none rows)) (\<lambda>existing.
        (case existing of
           Some m \<Rightarrow> Return m
         | None \<Rightarrow> act (ms_insert api rid (Some sender) content mtype key)))))
      else act (ms_insert api rid (Some sender) content mtype key))"

definition save_and_commitT ::
  "('w, 'p, 'r, 'd) env \<Rightarrow> json \<Rightarrow> string \<Rightarrow> string \<Rightarrow> json \<Rightarrow> ('d, message) task" where
  "save_and_commitT env room_id user_id content idempotency_key =
     in_sessionT (e_db env)
       (bindT (liftT (UUID_json room_id)) (\<lambda>rid.
        bindT (liftT (UUID user_id)) (\<lambda>uid.
        bindT (ms_save_messageT (e_db env) rid uid content TEXT idempotency_key) (\<lambda>message.
        thenT (act (db_commit (e_db env))) (Return message)))))"

section \<open>Without interruption\<close>

lemma run_onfailT: "run (onfailT t u) s = (case run t s of (Inr x, s') \<Rightarrow> (Inr x, s') | (Inl e, s') \<Rightarrow> thenE (run u) (raise e) s')"
proof (induction t arbitrary: s)
  case (Step k)
  have "run (onfailT (fst (k s)) u) (snd (k s))
      = (case run (fst (k s)) (snd (k s)) of (Inr x, s') \<Rightarrow> (Inr x, s') | (Inl e, s') \<Rightarrow> thenE (run u) (raise e) s')"
    by (rule Step) (auto simp: prod_set_defs intro: range_eqI)
  then show ?case by (simp add: run_Step)
qed (simp_all add: run_thenT)

lemma run_with_sessionT: "run (with_sessionT api t) = with_session api (run t)"
proof
  fix d
  show "run (with_sessionT api t) d = with_session api (run t) d"
    by (cases "run t d"; cases "fst (run t d)"; cases "db_commit api (snd (run t d))"; cases "fst (db_commit api (snd (run t d)))")
      (simp_all add: with_sessionT_def with_session_def rollbackT_def run_onfailT run_simps bindE_def thenE_def)
qed

lemma run_in_sessionT: "run (in_sessionT api t) = in_session api (run t)"
proof
  fix d
  show "run (in_sessionT api t) d = in_session api (run t) d"
    by (cases "run t d"; cases "fst (run t d)")
      (simp_all add: in_sessionT_def in_session_def rollbackT_def run_simps finallyE_def)
qed

lemma run_operations:
  "run (rs_join_roomT api rid uid) = rs_join_room api rid uid"
  "run (as_registerT api bc salt req) = as_register api bc salt req"
  "run (ms_save_messageT api rid sender content mtype key) = ms_save_message api rid sender content mtype key"
  by (simp_all add: rs_join_roomT_def rs_join_room_def as_registerT_def as_register_def ms_save_messageT_def
      ms_save_message_def run_simps cong del: option.case_cong_weak if_weak_cong)

lemma run_requests:
  "run (route_join_roomT api jw cfg now hdr rid) = route_join_room api jw cfg now hdr rid"
  "run (route_registerT api bc email_str salt body) = route_register api bc email_str salt body"
  "run (save_and_commitT env room_id user_id content key) = save_and_commit env room_id user_id content key"
  by (simp_all add: route_join_roomT_def route_join_room_def as_current_user_def route_registerT_def route_register_def
      save_and_commitT_def save_and_commit_def run_with_sessionT run_in_sessionT run_operations run_simps)

section \<open>With other transactions in between\<close>

lemma undeclared_integrity [simp]: "\<not> declared (IntegrityError m)"
  by (simp add: declared_def)

lemma clashing_Nil: "users_clashing n e T = [] \<longleftrightarrow> user_constraints T n e"
  by (auto simp: users_clashing_def filter_empty_conv image_iff)

lemmas cut_defs = with_sessionT_def in_sessionT_def rollbackT_def act_def thenT_def liftT_def

context database_up begin

lemma add_as_refused:
  assumes "widths_ok x" "\<not> constraints_ok (view d) x"
  obtains m d' where "add_as api dest x d = (Inl (IntegrityError m), d')" "stored d' = stored d"
proof -
  obtain m d' where run: "db_add api x d = (Inl (IntegrityError m), d')" using add_unique [OF assms] by blast
  with add_fail [OF run] show thesis by (intro that [of m d']) (simp_all add: add_as_def bindE_def)
qed

lemma rolled_back: "view (snd (db_rollback api d)) = stored d" "stored (snd (db_rollback api d)) = stored d"
  using rollback by simp_all

lemma commit_runs: obtains d' where "db_commit api d = (Inr (), d')" "view d' = view d" "stored d' = view d"
  using commit_up commit by metis

text \<open>The turns of a request to join: current user, room, membership, insertion, and the end of the session.\<close>

lemma join_turns:
  assumes "get_current_user api jw cfg now hdr d0 = (Inr u, d0')" and "tables_ok (view d1)" "tables_ok (view d2)"
    and "rid \<in> ro_id ` set (chat_rooms (view d3))" "u_id u \<in> u_id ` set (users (view d3))"
  shows "case turns (route_join_roomT api jw cfg now hdr rid) [d0, d1, d2, d3, d4] of (t, ds) \<Rightarrow>
      (if rid \<notin> ro_id ` set (chat_rooms (view d1)) then t = Throw (NotFoundError ''Room'') \<and> length ds = 3 \<and> stored (last ds) = stored d2
       else if (rid, u_id u) \<in> memberships (view d2) then
         t = Throw (ConflictError ''Already a member of this room'') \<and> length ds = 4 \<and> stored (last ds) = stored d3
       else if (rid, u_id u) \<in> memberships (view d3) then
         (\<exists>m. t = Throw (IntegrityError m)) \<and> length ds = 5 \<and> stored (last ds) = stored d4
       else t = Return (detail ''Successfully joined the room'') \<and> length ds = 5 \<and> stored (last ds) = view d4
         \<and> memberships (view (ds ! 3)) = insert (rid, u_id u) (memberships (view d3)))"
proof (cases "rooms_with_id rid (view d1)")
  case Nil
  then have no: "rid \<notin> ro_id ` set (chat_rooms (view d1))" by (simp add: rooms_with_id_Nil)
  obtain d1' where d1': "rs_get_room api rid d1 = (Inl (NotFoundError ''Room''), d1')"
    by (rule rs_get_room_runs [OF assms(2), of rid]) (use Nil in auto)
  then have "turns (route_join_roomT api jw cfg now hdr rid) [d0, d1, d2, d3, d4]
      = (Throw (NotFoundError ''Room''), [d0', d1', snd (db_rollback api d2)])"
    using assms(1) by (simp add: route_join_roomT_def rs_join_roomT_def cut_defs)
  with no show ?thesis by (simp add: rolled_back)
next
  case (Cons r rs)
  then have room: "rid \<in> ro_id ` set (chat_rooms (view d1))" using rooms_with_id_Nil [of rid "view d1"] by auto
  obtain d1' where d1': "rs_get_room api rid d1 = (Inr r, d1')"
    by (rule rs_get_room_runs [OF assms(2), of rid]) (use Cons in auto)
  obtain d2' where d2': "select_members api (memberships_of rid (u_id u)) d2 = (Inr (memberships_of rid (u_id u) (view d2)), d2')"
    by (rule select_memberships)
  note cut = route_join_roomT_def rs_join_roomT_def cut_defs assms(1) d1' d2'
  show ?thesis
  proof (cases rule: memberships_of_cases [OF assms(3), of rid "u_id u"])
    case (2 m)
    then have "(rid, u_id u) \<in> memberships (view d2)" by (auto simp: memberships_def)
    moreover have "turns (route_join_roomT api jw cfg now hdr rid) [d0, d1, d2, d3, d4]
        = (Throw (ConflictError ''Already a member of this room''), [d0', d1', d2', snd (db_rollback api d3)])"
      by (simp add: cut 2(1))
    ultimately show ?thesis using room by (simp add: rolled_back)
  next
    case 1
    let ?x = "NewMember rid (u_id u) MEMBER"
    show ?thesis
    proof (cases "(rid, u_id u) \<in> memberships (view d3)")
      case True
      then have "widths_ok ?x" "\<not> constraints_ok (view d3) ?x" by (auto simp: memberships_def)
      then obtain m d3' where "add_as api dest_member ?x d3 = (Inl (IntegrityError m), d3')" by (rule add_as_refused)
      then have "turns (route_join_roomT api jw cfg now hdr rid) [d0, d1, d2, d3, d4]
          = (Throw (IntegrityError m), [d0', d1', d2', d3', snd (db_rollback api d4)])"
        by (simp add: cut 1(1))
      with True room 1(2) show ?thesis by (simp add: rolled_back)
    next
      case False
      obtain i t y d3' where d3': "add_as api dest_member ?x d3 = (Inr y, d3')" "view d3' = insert_row (fill i t ?x) (view d3)"
        by (rule add_as_runs [of ?x d3 dest_member]) (use assms(4,5) False in \<open>auto simp: memberships_def\<close>)
      obtain d4' where d4': "db_commit api d4 = (Inr (), d4')" "stored d4' = view d4" by (rule commit_runs)
      have "turns (route_join_roomT api jw cfg now hdr rid) [d0, d1, d2, d3, d4]
          = (Return (detail ''Successfully joined the room''), [d0', d1', d2', d3', d4'])"
        by (simp add: cut 1(1) d3' d4')
      moreover have "memberships (view d3') = insert (rid, u_id u) (memberships (view d3))"
        by (simp add: d3'(2) memberships_def)
      ultimately show ?thesis using False room 1(2) d4' by (simp add: eval_nat_numeral)
    qed
  qed
qed

text \<open>The turns of a session that saves a message under a key: look-up, insertion, commit, and the end of the session.\<close>

lemma message_turns:
  assumes "e_db env = api" "UUID_json room_id = Inr rid" "UUID user_id = Inr uid" "key \<noteq> []" "length key \<le> 100" "tables_ok (view d1)"
    and "rid \<in> ro_id ` set (chat_rooms (view d2))" "uid \<in> u_id ` set (users (view d2))"
  shows "case turns (save_and_commitT env room_id user_id content (JStr key)) [d1, d2, d3, d4] of (t, ds) \<Rightarrow>
      (if Some key \<in> ms_idempotency_key ` set (messages (view d1)) then
         length ds = 3 \<and> view (ds ! 0) = view d1 \<and> view (ds ! 1) = view d2
         \<and> (\<exists>m\<in>set (messages (view d1)). t = Return m \<and> ms_idempotency_key m = Some key)
       else if Some key \<in> ms_idempotency_key ` set (messages (view d2)) then
         length ds = 3 \<and> stored (ds ! 1) = stored d2 \<and> stored (ds ! 2) = stored d3 \<and> (\<exists>x. t = Throw (IntegrityError x))
       else length ds = 4 \<and> stored (ds ! 2) = view d3 \<and> (\<exists>m. t = Return m \<and> ms_room_id m = rid \<and> ms_sender_id m = Some uid
         \<and> ms_content m = content \<and> ms_idempotency_key m = Some key
         \<and> view (ds ! 1) = (view d2)\<lparr>messages := messages (view d2) @ [m]\<rparr>))"
proof -
  let ?save = "save_and_commitT env room_id user_id content (JStr key)"
  obtain d1' where d1': "select_messages api (messages_with_key (Some key)) d1 = (Inr (messages_with_key (Some key) (view d1)), d1')"
    "view d1' = view d1" by (rule select_with_key)
  note cut = save_and_commitT_def ms_save_messageT_def cut_defs assms(1-4) d1'
  show ?thesis
  proof (cases rule: messages_with_key_cases [OF assms(6), of key])
    case (2 m)
    obtain d2' where d2': "db_commit api d2 = (Inr (), d2')" "view d2' = view d2" by (rule commit_runs)
    have "turns ?save [d1, d2, d3, d4] = (Return m, [d1', d2', snd (db_rollback api d3)])" by (simp add: cut 2(1) d2')
    with 2 d1' d2' show ?thesis by force
  next
    case 1
    let ?x = "NewMessage rid (Some uid) content TEXT (Some key)"
    have w: "widths_ok ?x" using assms(5) by (simp add: fits_def)
    show ?thesis
    proof (cases "Some key \<in> ms_idempotency_key ` set (messages (view d2))")
      case True
      then have "\<not> constraints_ok (view d2) ?x" by auto
      then obtain x d2' where d2': "add_as api dest_message ?x d2 = (Inl (IntegrityError x), d2')" "stored d2' = stored d2"
        by (rule add_as_refused [OF w])
      have "turns ?save [d1, d2, d3, d4] = (Throw (IntegrityError x), [d1', d2', snd (db_rollback api d3)])"
        by (simp add: cut 1(1) d2' ms_insert_def bindE_def)
      with True 1(2) d2' show ?thesis by (simp add: rolled_back)
    next
      case False
      obtain i t m d2' where d2': "add_as api dest_message ?x d2 = (Inr m, d2')" "dest_message (fill i t ?x) = Some m"
        "view d2' = insert_row (fill i t ?x) (view d2)"
        by (rule add_as_runs [of ?x d2 dest_message]) (use assms(7,8) w False in auto)
      obtain d3' where d3': "db_commit api d3 = (Inr (), d3')" "stored d3' = view d3" by (rule commit_runs)
      have "turns ?save [d1, d2, d3, d4] = (Return m, [d1', d2', d3', snd (db_rollback api d4)])"
        by (simp add: cut 1(1) d2'(1) d3' ms_insert_def bindE_def)
      with False 1(2) d2' d3' show ?thesis by (auto simp: eval_nat_numeral)
    qed
  qed
qed

text \<open>The turns of a registration: look-up, insertion, and the end of the session.\<close>

lemma register_turns:
  assumes "hashes_fit bc" "\<And>s a. email_str s = Some a \<Longrightarrow> length a \<le> 255" "UserRegister email_str body = Inr req"
  shows "case turns (route_registerT api bc email_str salt body) [d1, d2, d3] of (t, ds) \<Rightarrow>
      (case users_clashing (ur_username req) (ur_email req) (view d1) of
         [] \<Rightarrow> length ds = 3 \<and>
           (if users_clashing (ur_username req) (ur_email req) (view d2) \<noteq> [] then
              (\<exists>m. t = Throw (IntegrityError m)) \<and> stored (ds ! 1) = stored d2 \<and> stored (ds ! 2) = stored d3
            else stored (ds ! 2) = view d3 \<and> (\<exists>u. t = Return u \<and> u_username u = ur_username req \<and> u_email u = ur_email req
              \<and> view (ds ! 1) = (view d2)\<lparr>users := users (view d2) @ [u]\<rparr>))
       | [u] \<Rightarrow> length ds = 2 \<and> stored (ds ! 1) = stored d2 \<and> t = Throw (ConflictError
           (if u_username u = ur_username req then ''Username already taken'' else ''Email already registered''))
       | _ \<Rightarrow> length ds = 2 \<and> stored (ds ! 1) = stored d2 \<and> t = Throw MultipleResultsFound)"
proof -
  let ?q = "users_clashing (ur_username req) (ur_email req)"
  let ?reg = "route_registerT api bc email_str salt body"
  have req: "length (ur_username req) \<le> 50" "length (ur_email req) \<le> 255" "fits 100 (ur_display_name req)"
    using assms(2,3) by (auto simp: UserRegister_def split: option.splits if_splits)
  obtain h where h: "hash_password bc salt (ur_password req) = Inr h" "length h \<le> 255" by (rule hash_fits [OF assms(1)])
  obtain d1' where d1': "select_users api ?q d1 = (Inr (?q (view d1)), d1')" by (rule select_clashing)
  note cut = route_registerT_def as_registerT_def cut_defs assms(3) h(1) d1'
  show ?thesis
  proof (cases "?q (view d1)" rule: scalar_one_or_none.cases)
    case 1
    let ?x = "NewUser (ur_username req) (ur_email req) h
       (case ur_display_name req of Some n \<Rightarrow> if n \<noteq> [] then Some n else Some (ur_username req) | None \<Rightarrow> Some (ur_username req))"
    have w: "widths_ok ?x" using req h(2) by (auto simp: fits_def split: option.splits)
    show ?thesis
    proof (cases "?q (view d2) = []")
      case False
      then have "\<not> constraints_ok (view d2) ?x" by (simp add: clashing_Nil del: user_constraints_def)
      then obtain m d2' where d2': "add_as api dest_user ?x d2 = (Inl (IntegrityError m), d2')" "stored d2' = stored d2"
        by (rule add_as_refused [OF w])
      have "turns ?reg [d1, d2, d3] = (Throw (IntegrityError m), [d1', d2', snd (db_rollback api d3)])" by (simp add: cut 1 d2')
      with 1 False d2' show ?thesis by (simp add: rolled_back)
    next
      case True
      then have "constraints_ok (view d2) ?x" by (simp only: constraints_ok.simps clashing_Nil)
      then obtain i t u d2' where d2': "add_as api dest_user ?x d2 = (Inr u, d2')" "dest_user (fill i t ?x) = Some u"
        "view d2' = insert_row (fill i t ?x) (view d2)"
        by (rule add_as_runs [OF w, of d2 dest_user]) (simp, rule that)
      obtain d3' where d3': "db_commit api d3 = (Inr (), d3')" "stored d3' = view d3" by (rule commit_runs)
      have "turns ?reg [d1, d2, d3] = (Return u, [d1', d2', d3'])" by (simp add: cut 1 d2'(1) d3')
      with 1 True d2' d3' show ?thesis by (auto simp: eval_nat_numeral)
    qed
  next
    case (2 u)
    have "turns ?reg [d1, d2, d3] = (Throw (ConflictError
           (if u_username u = ur_username req then ''Username already taken'' else ''Email already registered'')),
         [d1', snd (db_rollback api d2)])" by (simp add: cut 2)
    with 2 show ?thesis by (simp add: rolled_back)
  next
    case (3 u v us)
    have "turns ?reg [d1, d2, d3] = (Throw MultipleResultsFound, [d1', snd (db_rollback api d2)])" by (simp add: cut 3)
    with 3 show ?thesis by (simp add: rolled_back)
  qed
qed

end

text \<open>
  C15. Joining a room through the HTTP interface, whatever other transactions commit between its
  statements: the answer is the declared 404 when the room is missing at the first look, the declared 409
  when the user is a member at the second, and otherwise decided by the insertion. If the user is a member
  by then, the request fails with the database's integrity error, which is not one of the declared
  errors, and nothing is stored; if not, the user becomes a member and the commit stores it.
\<close>

theorem join_room_raced:
  assumes "database_up api view stored" and "get_current_user api jw cfg now hdr d0 = (Inr u, d0')"
    and "tables_ok (view d1)" "tables_ok (view d2)"
    and "rid \<in> ro_id ` set (chat_rooms (view d3))" "u_id u \<in> u_id ` set (users (view d3))"
  shows "case turns (route_join_roomT api jw cfg now hdr rid) [d0, d1, d2, d3, d4] of (t, ds) \<Rightarrow>
      (if rid \<notin> ro_id ` set (chat_rooms (view d1)) then t = Throw (NotFoundError ''Room'') \<and> length ds = 3 \<and> stored (last ds) = stored d2
       else if (rid, u_id u) \<in> memberships (view d2) then
         t = Throw (ConflictError ''Already a member of this room'') \<and> length ds = 4 \<and> stored (last ds) = stored d3
       else if (rid, u_id u) \<in> memberships (view d3) then
         (\<exists>m. t = Throw (IntegrityError m)) \<and> length ds = 5 \<and> stored (last ds) = stored d4
       else t = Return (detail ''Successfully joined the room'') \<and> length ds = 5 \<and> stored (last ds) = view d4
         \<and> memberships (view (ds ! 3)) = insert (rid, u_id u) (memberships (view d3)))"
  using assms by (rule database_up.join_turns)

text \<open>While a first request of the second user joins the room and commits, a second one has found no membership.\<close>

definition joined_meanwhile :: mem_db_state where
  "joined_meanwhile = (let T = insert_row (fill (UUID_of 9) 1 (NewMember (UUID_of 3) (UUID_of 2) MEMBER)) sample_tables
     in \<lparr>working = T, committed = T, db_clock = 2\<rparr>)"

theorem join_room_raced_witness:
  "case turns (route_join_roomT mem_db plain_jwt default_settings 0
        (Some (''Bearer '' @ tr_access_token (issue_tokens plain_jwt default_settings 0 (users sample_tables ! 1)))) (UUID_of 3))
      [sample_db, sample_db, sample_db, joined_meanwhile, joined_meanwhile] of
     (t, ds) \<Rightarrow> (\<exists>m. t = Throw (IntegrityError m)) \<and> length (members (committed (last ds))) = 2"
proof -
  let ?u = "users sample_tables ! 1"
  have u: "?u \<in> set (users (working sample_db))" "u_is_active ?u" "uuid_int (u_id ?u) < 2 ^ 128" "u_id ?u = UUID_of 2"
    and ok: "tables_ok (working sample_db)" using sample_ok by (simp_all add: sample_db_def sample_tables_def)
  obtain d' where user: "get_current_user mem_db plain_jwt default_settings 0
      (Some (''Bearer '' @ tr_access_token (issue_tokens plain_jwt default_settings 0 ?u))) sample_db = (Inr ?u, d')"
    by (rule current_user_issued [OF plain_jwt.jwt_axioms mem_db.database_up_axioms ok u(1-3), of 0 default_settings 0])
      (simp_all add: default_settings_def)
  have now: "UUID_of 3 \<in> ro_id ` set (chat_rooms (working joined_meanwhile))" "u_id ?u \<in> u_id ` set (users (working joined_meanwhile))"
    "(UUID_of 3, u_id ?u) \<in> memberships (working joined_meanwhile)" "length (members (committed joined_meanwhile)) = 2"
    "UUID_of 3 \<in> ro_id ` set (chat_rooms (working sample_db))" "(UUID_of 3, u_id ?u) \<notin> memberships (working sample_db)"
    by (simp_all add: joined_meanwhile_def Let_def sample_db_def sample_tables_def memberships_def)
  from join_room_raced [OF mem_db.database_up_axioms user ok ok now(1,2), of joined_meanwhile] now
  show ?thesis by (simp add: split_beta)
qed


text \<open>The first copy of a message is committed after the retry has looked for it.\<close>

definition sent_meanwhile :: mem_db_state where
  "sent_meanwhile = (let T = insert_row (fill (UUID_of 9) 1 (NewMessage (UUID_of 3) (Some (UUID_of 1)) ''hi'' TEXT (Some ''k1''))) sample_tables
     in \<lparr>working = T, committed = T, db_clock = 2\<rparr>)"



definition registered_meanwhile :: mem_db_state where
  "registered_meanwhile = (let T = insert_row (fill (UUID_of 9) 1 (NewUser ''cyd'' ''c@x.org'' ''h'' None)) sample_tables
     in \<lparr>working = T, committed = T, db_clock = 2\<rparr>)"


end
