(* ===== verification/Responses.thy ===== *)
theory Responses
  imports Http
begin

text \<open>
  The shape of the HTTP interface: the response schemas of \<open>schemas/room.py\<close> and
  \<open>schemas/auth.py\<close>, and the routes as \<open>main.py\<close> puts them together from the routers. pydantic's
  reading of a UUID and of a time from a string are parameters.
\<close>

section \<open>Response schemas\<close>

record user_response =
  us_id :: uuid
  us_username :: string
  us_email :: string
  us_display_name :: "string option"
  us_is_active :: bool

text \<open>\<open>from_attributes\<close>: the fields are read from the user's attributes of the same names.\<close>

definition UserResponse :: "user \<Rightarrow> user_response" where
  "UserResponse u = \<lparr>us_id = u_id u, us_username = u_username u, us_email = u_email u,
     us_display_name = u_display_name u, us_is_active = u_is_active u\<rparr>"

record room_member_response =
  rm_user_id :: uuid
  rm_username :: string
  rm_display_name :: "string option"
  rm_role :: room_role
  rm_joined_at :: timestamp
  rm_is_online :: bool

record room_detail_response =
  rd_id :: uuid
  rd_name :: string
  rd_description :: "string option"
  rd_is_private :: bool
  rd_created_by :: "uuid option"
  rd_created_at :: timestamp
  rd_members :: "room_member_response list"

subsection \<open>Reading JSON\<close>

text \<open>A required field, a field with a default, and the field types; \<open>None\<close> is a validation error.\<close>

definition field :: "(json \<Rightarrow> 'a option) \<Rightarrow> string \<Rightarrow> json dict \<Rightarrow> 'a option" where
  "field ty k d = Option.bind (map_of d k) ty"

definition field_or :: "'a \<Rightarrow> (json \<Rightarrow> 'a option) \<Rightarrow> string \<Rightarrow> json dict \<Rightarrow> 'a option" where
  "field_or x ty k d = (case map_of d k of None \<Rightarrow> Some x | Some v \<Rightarrow> ty v)"

fun str_field :: "json \<Rightarrow> string option" where
  "str_field (JStr s) = Some s" | "str_field _ = None"

fun bool_field :: "json \<Rightarrow> bool option" where
  "bool_field (JBool b) = Some b" | "bool_field _ = None"

definition opt_field :: "(json \<Rightarrow> 'a option) \<Rightarrow> json \<Rightarrow> 'a option option" where
  "opt_field ty j = (if j = JNull then Some None else map_option Some (ty j))"

definition via_str :: "(string \<Rightarrow> 'a option) \<Rightarrow> json \<Rightarrow> 'a option" where
  "via_str f j = Option.bind (str_field j) f"

fun list_field :: "(json \<Rightarrow> 'a option) \<Rightarrow> json \<Rightarrow> 'a list option" where
  "list_field ty (JArr xs) = those (map ty xs)" | "list_field ty _ = None"

definition role_of :: "string \<Rightarrow> room_role option" where
  "role_of s = List.find (\<lambda>r. role_value r = s) [ADMIN, MEMBER]"

fun RoomMemberResponse :: "(string \<Rightarrow> uuid option) \<Rightarrow> (string \<Rightarrow> timestamp option) \<Rightarrow> json \<Rightarrow> room_member_response option" where
  "RoomMemberResponse uuid_of time_of (JObj d) =
     Option.bind (field (via_str uuid_of) ''user_id'' d) (\<lambda>user_id.
     Option.bind (field str_field ''username'' d) (\<lambda>username.
     Option.bind (field (opt_field str_field) ''display_name'' d) (\<lambda>display_name.
     Option.bind (field (via_str role_of) ''role'' d) (\<lambda>role.
     Option.bind (field (via_str time_of) ''joined_at'' d) (\<lambda>joined_at.
     Option.bind (field_or False bool_field ''is_online'' d) (\<lambda>is_online.
     Some \<lparr>rm_user_id = user_id, rm_username = username, rm_display_name = display_name, rm_role = role,
           rm_joined_at = joined_at, rm_is_online = is_online\<rparr>))))))"
| "RoomMemberResponse uuid_of time_of _ = None"

fun RoomDetailResponse :: "(string \<Rightarrow> uuid option) \<Rightarrow> (string \<Rightarrow> timestamp option) \<Rightarrow> json \<Rightarrow> room_detail_response option" where
  "RoomDetailResponse uuid_of time_of (JObj d) =
     Option.bind (field (via_str uuid_of) ''id'' d) (\<lambda>id.
     Option.bind (field str_field ''name'' d) (\<lambda>name.
     Option.bind (field (opt_field str_field) ''description'' d) (\<lambda>description.
     Option.bind (field bool_field ''is_private'' d) (\<lambda>is_private.
     Option.bind (field (opt_field (via_str uuid_of)) ''created_by'' d) (\<lambda>created_by.
     Option.bind (field (via_str time_of) ''created_at'' d) (\<lambda>created_at.
     Option.bind (field_or [] (list_field (RoomMemberResponse uuid_of time_of)) ''members'' d) (\<lambda>ms.
     Some \<lparr>rd_id = id, rd_name = name, rd_description = description, rd_is_private = is_private,
           rd_created_by = created_by, rd_created_at = created_at, rd_members = ms\<rparr>)))))))"
| "RoomDetailResponse uuid_of time_of _ = None"

lemmas field_simps = field_def field_or_def opt_field_def via_str_def

subsection \<open>Rooms with their members\<close>

definition member_response :: "room_member \<times> user \<Rightarrow> room_member_response" where
  "member_response mu = (case mu of (m, u) \<Rightarrow>
     \<lparr>rm_user_id = u_id u, rm_username = u_username u, rm_display_name = u_display_name u, rm_role = me_role m,
      rm_joined_at = me_joined_at m, rm_is_online = False\<rparr>)"

text \<open>UUIDs have 128 bits.\<close>

definition proper_uuid :: "uuid \<Rightarrow> bool" where
  "proper_uuid i \<longleftrightarrow> uuid_int i < 2 ^ 128"

lemma role_of_value: "role_of (role_value r) = Some r"
  by (cases r) (simp_all add: role_of_def)

lemma read_member:
  assumes "\<And>i. proper_uuid i \<Longrightarrow> uuid_of (str_uuid i) = Some i" "\<And>t. time_of (isoformat t) = Some t"
    and "proper_uuid (u_id (snd mu))"
  shows "RoomMemberResponse uuid_of time_of (member_entry isoformat mu) = Some (member_response mu)"
  using assms by (cases mu) (simp add: member_entry_def member_response_def field_simps role_of_value split: option.split)

lemma read_detail:
  assumes "\<And>i. proper_uuid i \<Longrightarrow> uuid_of (str_uuid i) = Some i" "\<And>t. time_of (isoformat t) = Some t"
    and "\<forall>mu\<in>set mus. proper_uuid (u_id (snd mu))" "proper_uuid (ro_id room)"
    and "\<And>i. ro_created_by room = Some i \<Longrightarrow> proper_uuid i"
  shows "RoomDetailResponse uuid_of time_of (room_detail isoformat room (map (member_entry isoformat) mus))
    = Some \<lparr>rd_id = ro_id room, rd_name = ro_name room, rd_description = ro_description room, rd_is_private = ro_is_private room,
        rd_created_by = ro_created_by room, rd_created_at = ro_created_at room, rd_members = map member_response mus\<rparr>"
proof -
  have "those (map (RoomMemberResponse uuid_of time_of \<circ> member_entry isoformat) mus) = Some (map member_response mus)"
    using assms(3) by (induction mus) (simp_all add: read_member [OF assms(1,2)])
  then show ?thesis
    using assms by (auto simp: room_detail_def field_simps split: option.split)
qed

text \<open>Every membership has its user, so the join lists every member once.\<close>

lemma joined_users:
  assumes "distinct (map u_id us)" "\<forall>m\<in>set ms. me_user_id m \<in> u_id ` set us"
  shows "map (\<lambda>(m, u). (m, u_id u)) [(m, u). m \<leftarrow> ms, u \<leftarrow> us, me_user_id m = u_id u \<and> me_room_id m = rid]
    = map (\<lambda>m. (m, me_user_id m)) (filter (\<lambda>m. me_room_id m = rid) ms)"
  using assms(2)
proof (induction ms)
  case (Cons m ms)
  then obtain u where u: "u \<in> set us" "u_id u = me_user_id m" by auto
  have "filter (\<lambda>v. u_id v = u_id u) us = [u]" by (rule filter_unique [OF assms(1) u(1)])
  then have "concat (map (\<lambda>v. if me_user_id m = u_id v \<and> me_room_id m = rid then [(m, v)] else []) us)
      = (if me_room_id m = rid then [(m, u)] else [])"
    unfolding u(2) by (induction us) (auto simp: filter_empty_conv split: if_splits)
  with Cons u show ?case by simp
qed simp

lemma member_users_exact:
  assumes "tables_ok T"
  shows "distinct (map (\<lambda>(m, u). u_id u) (member_users rid T))"
    "set (map (\<lambda>(m, u). u_id u) (member_users rid T)) = {i. (rid, i) \<in> memberships T}"
proof -
  let ?rows = "[(m, u). m \<leftarrow> members T, u \<leftarrow> users T, me_user_id m = u_id u \<and> me_room_id m = rid]"
  let ?ms = "filter (\<lambda>m. me_room_id m = rid) (members T)"
  have ok: "distinct (map u_id (users T))" "\<forall>m\<in>set (members T). me_user_id m \<in> u_id ` set (users T)"
    "distinct (map (\<lambda>m. (me_room_id m, me_user_id m)) (members T))"
    using assms by (simp_all add: tables_ok_def references_ok_def)
  have "map snd (map (\<lambda>(m, u). (m, u_id u)) ?rows) = map snd (map (\<lambda>m. (m, me_user_id m)) ?ms)"
    unfolding joined_users [OF ok(1,2)] ..
  then have rows: "map (\<lambda>(m, u). u_id u) ?rows = map me_user_id ?ms" by (simp add: comp_def case_prod_unfold)
  have mset: "mset (map (\<lambda>(m, u). u_id u) (member_users rid T)) = mset (map (\<lambda>(m, u). u_id u) ?rows)"
    unfolding member_users_def by (simp only: mset_map mset_sort)
  have "distinct (map me_user_id ?ms)" using ok(3) by (induction "members T") (auto simp: distinct_map inj_on_def)
  then show "distinct (map (\<lambda>(m, u). u_id u) (member_users rid T))"
    using mset_eq_imp_distinct_iff [OF mset] unfolding rows by blast
  have "set (map (\<lambda>(m, u). u_id u) (member_users rid T)) = set (map me_user_id ?ms)"
    using mset_eq_setD [OF mset] unfolding rows .
  then show "set (map (\<lambda>(m, u). u_id u) (member_users rid T)) = {i. (rid, i) \<in> memberships T}"
    by (auto simp: memberships_def)
qed

text \<open>
  C34. The details of a room are complete and readable: for a user with a valid token, the document
  that the route returns for an existing room reads back, through the schema of room details, as
  exactly the room in the database, with every member of the room once and nobody else.
\<close>

theorem room_detail_roundtrip:
  assumes "jwt jw" and "database_up api view stored" and "tables_ok (view d)"
    and "u \<in> set (users (view d))" "u_is_active u"
    and "\<And>u. u \<in> set (users (view d)) \<Longrightarrow> proper_uuid (u_id u)" and "proper_uuid (ro_id room)"
    and "\<not> \<lfloor>t + of_int (ACCESS_TOKEN_EXPIRE_MINUTES cfg * 60)\<rfloor> < \<lfloor>now\<rfloor>"
    and "room \<in> set (chat_rooms (view d))"
    and "\<And>i. proper_uuid i \<Longrightarrow> uuid_of (str_uuid i) = Some i" and "\<And>t. time_of (isoformat t) = Some t"
    and "route_get_room api jw cfg isoformat now (Some (''Bearer '' @ tr_access_token (issue_tokens jw cfg t u))) (ro_id room) d = (res, d')"
  shows "\<exists>j ms. res = Inr j \<and> RoomDetailResponse uuid_of time_of j
      = Some \<lparr>rd_id = ro_id room, rd_name = ro_name room, rd_description = ro_description room, rd_is_private = ro_is_private room,
          rd_created_by = ro_created_by room, rd_created_at = ro_created_at room, rd_members = ms\<rparr>
      \<and> distinct (map rm_user_id ms) \<and> set (map rm_user_id ms) = {i. (ro_id room, i) \<in> memberships (view d)}"
proof -
  let ?hdr = "Some (''Bearer '' @ tr_access_token (issue_tokens jw cfg t u))"
  let ?mus = "member_users (ro_id room) (view d)"
  let ?j = "room_detail isoformat room (map (member_entry isoformat) ?mus)"
  obtain d1 where d1: "get_current_user api jw cfg now ?hdr d = (Inr u, d1)" "view d1 = view d"
    by (rule current_user_issued [OF assms(1-5) assms(6) [OF assms(4), unfolded proper_uuid_def] assms(8)])
  have "rooms_with_id (ro_id room) (view d1) = [room]"
    unfolding rooms_with_id_def d1(2) by (rule filter_unique) (use assms(3,9) in \<open>simp_all add: tables_ok_def\<close>)
  with database_up.rs_get_room_runs [OF assms(2), of d1 "ro_id room"] assms(3) d1(2)
  obtain d2 where d2: "rs_get_room api (ro_id room) d1 = (Inr room, d2)" "view d2 = view d"
    by (metis list.simps(5))
  obtain d3 where d3: "select_as api dest_member_user (\<lambda>(m, u). MemberUserRow m u) (member_users (ro_id room)) d2 = (Inr ?mus, d3)"
    using database_up.select_as_runs [OF assms(2), of dest_member_user "\<lambda>(m, u). MemberUserRow m u" "member_users (ro_id room)" d2] d2(2)
    by (metis (mono_tags, lifting) case_prod_beta dest_member_user.simps(1) prod.collapse)
  let ?body = "bindE (get_current_user api jw cfg now ?hdr) (\<lambda>_. bindE (rs_get_room api (ro_id room)) (\<lambda>r.
     bindE (rs_get_room_members api isoformat (ro_id room)) (\<lambda>ms. ret (room_detail isoformat r ms))))"
  have body: "?body d = (Inr ?j, d3)"
    unfolding rs_get_room_members_def by (simp only: bindE_def d1(1) d2(1) d3 prod.case sum.case ret_apply)
  have "with_session api ?body d = (res, d')" using assms(12) unfolding route_get_room_def as_current_user_def .
  then have "res = Inr ?j" by (rule_tac with_session_runs [OF assms(2), of ?body, OF body]) simp
  moreover have "map rm_user_id (map member_response ?mus) = map (\<lambda>(m, u). u_id u) ?mus"
    by (simp add: member_response_def case_prod_unfold)
  moreover have "\<forall>mu\<in>set ?mus. proper_uuid (u_id (snd mu))" using assms(6) by (auto simp: member_users_def)
  moreover have "proper_uuid i" if "ro_created_by room = Some i" for i
  proof -
    have "ro_created_by room \<in> insert None (Some ` u_id ` set (users (view d)))"
      using assms(3,9) unfolding tables_ok_def references_ok_def by blast
    with that assms(6) show ?thesis by auto
  qed
  ultimately show ?thesis
    using read_detail [OF assms(10,11) _ assms(7)] member_users_exact [OF assms(3), of "ro_id room"] by metis
qed

theorem room_detail_roundtrip_witness:
  "\<exists>j detail. fst (route_get_room mem_db plain_jwt default_settings unary_iso 5
       (Some (''Bearer '' @ tr_access_token (issue_tokens plain_jwt default_settings 0 (hd (users sample_tables))))) (UUID_of 3) sample_db) = Inr j
     \<and> RoomDetailResponse (\<lambda>s. case UUID s of Inr i \<Rightarrow> Some i | Inl e \<Rightarrow> None) unary_from j = Some detail
     \<and> rd_name detail = ''den'' \<and> set (map rm_user_id (rd_members detail)) = {UUID_of 1}"
proof -
  let ?u = "hd (users sample_tables)" and ?room = "hd (chat_rooms sample_tables)"
  let ?uuid_of = "\<lambda>s. case UUID s of Inr i \<Rightarrow> Some i | Inl e \<Rightarrow> None"
  let ?run = "route_get_room mem_db plain_jwt default_settings unary_iso 5
       (Some (''Bearer '' @ tr_access_token (issue_tokens plain_jwt default_settings 0 ?u))) (ro_id ?room) sample_db"
  have u: "tables_ok (working sample_db)" "?u \<in> set (users (working sample_db))" "u_is_active ?u"
    "\<And>u. u \<in> set (users (working sample_db)) \<Longrightarrow> proper_uuid (u_id u)" "proper_uuid (ro_id ?room)"
    "\<not> \<lfloor>0 + of_int (ACCESS_TOKEN_EXPIRE_MINUTES default_settings * 60)\<rfloor> < \<lfloor>5 :: timestamp\<rfloor>"
    "?room \<in> set (chat_rooms (working sample_db))"
    using sample_ok by (auto simp: sample_db_def sample_tables_def default_settings_def proper_uuid_def)
  have read: "proper_uuid i \<Longrightarrow> ?uuid_of (str_uuid i) = Some i" "unary_from (unary_iso t) = Some t" for i t
    by (simp_all add: UUID_str_uuid unary_roundtrip proper_uuid_def)
  have room: "ro_id ?room = UUID_of 3" "ro_name ?room = ''den''" "{i. (UUID_of 3, i) \<in> memberships (working sample_db)} = {UUID_of 1}"
    by (auto simp: sample_tables_def sample_db_def memberships_def)
  have "?run = (fst ?run, snd ?run)" by (rule surjective_pairing)
  from room_detail_roundtrip [OF plain_jwt.jwt_axioms mem_db.database_up_axioms u read this]
  obtain j detail where "fst ?run = Inr j" "RoomDetailResponse ?uuid_of unary_from j = Some detail" "rd_name detail = ro_name ?room"
    "set (map rm_user_id (rd_members detail)) = {i. (ro_id ?room, i) \<in> memberships (working sample_db)}" by fastforce
  then show ?thesis unfolding room by blast
qed

section \<open>Routes\<close>

text \<open>
  A path is the list of its segments, a pattern a list of literals and parameters; a parameter
  stands for one segment that is not empty. A mounted application takes every path below its own.
\<close>

datatype http_method = GET | POST | DELETE | WEBSOCKET

datatype segment = Lit string | Param string

record route =
  rt_methods :: "http_method list"
  rt_path :: "segment list"
  rt_mount :: bool
  rt_name :: string
  rt_status :: nat

definition endpoint :: "http_method \<Rightarrow> segment list \<Rightarrow> string \<Rightarrow> nat \<Rightarrow> route" where
  "endpoint meth path name status = \<lparr>rt_methods = [meth], rt_path = path, rt_mount = False, rt_name = name, rt_status = status\<rparr>"

text \<open>\<open>APIRouter(prefix=...)\<close> and \<open>include_router(..., prefix=...)\<close>.\<close>

definition prefixed :: "segment list \<Rightarrow> route list \<Rightarrow> route list" where
  "prefixed p rs = map (rt_path_update (\<lambda>q. p @ q)) rs"

definition health_router :: "route list" where
  "health_router = [endpoint GET [Lit ''health''] ''health_check'' 200]"

definition auth_router :: "route list" where
  "auth_router = prefixed [Lit ''auth'']
     [endpoint POST [Lit ''register''] ''register'' 201, endpoint POST [Lit ''login''] ''login'' 200,
      endpoint POST [Lit ''refresh''] ''refresh_token'' 200, endpoint GET [Lit ''me''] ''get_me'' 200]"

definition rooms_router :: "route list" where
  "rooms_router = prefixed [Lit ''rooms'']
     [endpoint POST [] ''create_room'' 201, endpoint GET [] ''list_rooms'' 200,
      endpoint GET [Param ''room_id''] ''get_room'' 200, endpoint POST [Param ''room_id'', Lit ''join''] ''join_room'' 200,
      endpoint DELETE [Param ''room_id'', Lit ''leave''] ''leave_room'' 200,
      endpoint GET [Param ''room_id'', Lit ''members''] ''get_room_members'' 200]"

definition messages_router :: "route list" where
  "messages_router = prefixed [Lit ''rooms'', Param ''room_id'', Lit ''messages''] [endpoint GET [] ''get_messages'' 200]"

definition chat_router :: "route list" where
  "chat_router = [endpoint WEBSOCKET [Lit ''ws'', Lit ''chat''] ''websocket_chat'' 101]"

definition API_PREFIX :: "segment list" where
  "API_PREFIX = [Lit ''api'', Lit ''v1'']"

definition client_mount :: "bool \<Rightarrow> route list" where
  "client_mount exists = (if exists then
     [\<lparr>rt_methods = [GET, POST, DELETE, WEBSOCKET], rt_path = [Lit ''client''], rt_mount = True, rt_name = ''client'', rt_status = 200\<rparr>]
   else [])"

text \<open>The table, in the order of registration; \<open>/\<close> has one empty segment.\<close>

definition app_routes :: "bool \<Rightarrow> route list" where
  "app_routes client_exists =
     health_router @ prefixed API_PREFIX auth_router @ prefixed API_PREFIX rooms_router @
     prefixed API_PREFIX messages_router @ chat_router @ client_mount client_exists @
     [endpoint GET [Lit []] ''root'' 200]"

fun segment_matches :: "segment \<Rightarrow> string \<Rightarrow> bool" where
  "segment_matches (Lit s) x \<longleftrightarrow> x = s"
| "segment_matches (Param p) x \<longleftrightarrow> x \<noteq> []"

definition route_matches :: "route \<Rightarrow> http_method \<Rightarrow> string list \<Rightarrow> bool" where
  "route_matches r meth path \<longleftrightarrow> meth \<in> set (rt_methods r)
     \<and> list_all2 segment_matches (rt_path r) (if rt_mount r then take (length (rt_path r)) path else path)"

text \<open>Two routes that some path satisfies both of.\<close>

fun segments_overlap :: "segment \<Rightarrow> segment \<Rightarrow> bool" where
  "segments_overlap (Lit s) (Lit s') \<longleftrightarrow> s = s'"
| "segments_overlap (Lit s) (Param p) \<longleftrightarrow> s \<noteq> []"
| "segments_overlap (Param p) (Lit s) \<longleftrightarrow> s \<noteq> []"
| "segments_overlap (Param p) (Param q) \<longleftrightarrow> True"

fun paths_overlap :: "bool \<Rightarrow> bool \<Rightarrow> segment list \<Rightarrow> segment list \<Rightarrow> bool" where
  "paths_overlap m m' [] [] \<longleftrightarrow> True"
| "paths_overlap m m' [] (_ # _) \<longleftrightarrow> m"
| "paths_overlap m m' (_ # _) [] \<longleftrightarrow> m'"
| "paths_overlap m m' (x # xs) (y # ys) \<longleftrightarrow> segments_overlap x y \<and> paths_overlap m m' xs ys"

definition routes_overlap :: "route \<Rightarrow> route \<Rightarrow> bool" where
  "routes_overlap r r' \<longleftrightarrow> list_ex (\<lambda>meth. meth \<in> set (rt_methods r')) (rt_methods r)
     \<and> paths_overlap (rt_mount r) (rt_mount r') (rt_path r) (rt_path r')"

lemma segments_overlapI: "segment_matches p x \<Longrightarrow> segment_matches q x \<Longrightarrow> segments_overlap p q"
  by (cases p; cases q) auto

lemma paths_overlapI:
  assumes "list_all2 segment_matches ps (if m then take (length ps) path else path)"
    and "list_all2 segment_matches qs (if m' then take (length qs) path else path)"
  shows "paths_overlap m m' ps qs"
  using assms
proof (induction m m' ps qs arbitrary: path rule: paths_overlap.induct)
  case (4 m m' x xs y ys)
  then obtain z zs where "path = z # zs" by (cases path) (auto split: if_splits)
  with 4 show ?case by (auto split: if_splits intro: segments_overlapI)
qed (auto split: if_splits)

lemma routes_overlapI: "route_matches r meth path \<Longrightarrow> route_matches r' meth path \<Longrightarrow> routes_overlap r r'"
  using paths_overlapI by (auto simp: route_matches_def routes_overlap_def list_ex_iff)

text \<open>
  Every request has one meaning: no method and path match two different routes of the
  application, with or without the client's files mounted, so that the order in which the routers
  are included does not matter.
\<close>

theorem routes_unambiguous:
  assumes "r \<in> set (app_routes client_exists)" "r' \<in> set (app_routes client_exists)"
    and "route_matches r meth path" "route_matches r' meth path"
  shows "r = r'"
proof -
  let ?clear = "\<lambda>rs. list_all (\<lambda>r. list_all (\<lambda>r'. routes_overlap r r' \<longrightarrow> r = r') rs) rs"
  have "?clear (app_routes True)" "?clear (app_routes False)" by code_simp+
  then have "?clear (app_routes client_exists)" by (cases client_exists) simp_all
  with assms routes_overlapI show ?thesis unfolding list_all_iff by blast
qed

theorem routes_unambiguous_witness:
  "\<exists>!r. r \<in> set (app_routes True) \<and> route_matches r GET [''api'', ''v1'', ''rooms'', ''42'', ''messages'']"
proof -
  let ?r = "endpoint GET [Lit ''api'', Lit ''v1'', Lit ''rooms'', Param ''room_id'', Lit ''messages''] ''get_messages'' 200"
  have "?r \<in> set (app_routes True)" "route_matches ?r GET [''api'', ''v1'', ''rooms'', ''42'', ''messages'']" by code_simp+
  with routes_unambiguous [of _ True ?r GET "[''api'', ''v1'', ''rooms'', ''42'', ''messages'']"] show ?thesis by blast
qed

end
