(* ===== verification/Migrations.thy ===== *)
theory Migrations
  imports Config
begin

text \<open>
  The migration script \<open>alembic/env.py\<close>: the offline mode, which writes SQL for a URL, and the online
  mode, which runs the migrations over a connection of an asynchronous engine. Alembic's context and
  SQLAlchemy's engine are the fields of \<open>migration_api\<close> on a state \<open>'m\<close>; the locale \<open>online_migrations\<close> states
  what the script relies on.
\<close>

section \<open>The script\<close>

datatype configure_args =
    ForUrl "string option" bool "(string \<times> string) list"
  | ForConnection

record 'm migration_api =
  mg_config_file_name :: "string option"
  mg_fileConfig :: "string \<Rightarrow> ('m, unit) eff"
  mg_get_main_option :: "string \<Rightarrow> string option"
  mg_get_section :: "string list"
  mg_is_offline_mode :: bool
  mg_configure :: "configure_args \<Rightarrow> ('m, unit) eff"
  mg_begin :: "('m, unit) eff"
  mg_end :: "exn option \<Rightarrow> ('m, unit) eff"
  mg_run_migrations :: "('m, unit) eff"
  mg_engine_from_config :: "string list \<Rightarrow> string \<Rightarrow> ('m, unit) eff"
  mg_connect :: "('m, unit) eff"
  mg_disconnect :: "exn option \<Rightarrow> ('m, unit) eff"
  mg_dispose :: "('m, unit) eff"

text \<open>The \<open>with\<close> statement: what is left is told about the exception of the body, which goes on after it.\<close>

definition withE :: "('s, unit) eff \<Rightarrow> (exn option \<Rightarrow> ('s, unit) eff) \<Rightarrow> ('s, 'a) eff \<Rightarrow> ('s, 'a) eff" where
  "withE enter leave body = thenE enter (\<lambda>s.
     (case body s of
        (Inr x, s1) \<Rightarrow> thenE (leave None) (ret x) s1
      | (Inl e, s1) \<Rightarrow> thenE (leave (Some e)) (raise e) s1))"

definition run_migrations_offline :: "'m migration_api \<Rightarrow> ('m, unit) eff" where
  "run_migrations_offline api =
     thenE (mg_configure api (ForUrl (mg_get_main_option api ''sqlalchemy.url'') True [(''paramstyle'', ''named'')]))
     (withE (mg_begin api) (mg_end api) (mg_run_migrations api))"

definition do_run_migrations :: "'m migration_api \<Rightarrow> ('m, unit) eff" where
  "do_run_migrations api =
     thenE (mg_configure api ForConnection)
     (withE (mg_begin api) (mg_end api) (mg_run_migrations api))"

definition run_async_migrations :: "'m migration_api \<Rightarrow> ('m, unit) eff" where
  "run_async_migrations api =
     thenE (mg_engine_from_config api (mg_get_section api) ''sqlalchemy.'')
     (thenE (withE (mg_connect api) (mg_disconnect api) (do_run_migrations api))
     (mg_dispose api))"

definition run_migrations_online :: "'m migration_api \<Rightarrow> ('m, unit) eff" where
  "run_migrations_online api = run_async_migrations api"

text \<open>The module itself: logging is configured when there is a file for it, then the mode decides.\<close>

definition env_main :: "'m migration_api \<Rightarrow> ('m, unit) eff" where
  "env_main api =
     thenE (case mg_config_file_name api of None \<Rightarrow> ret () | Some f \<Rightarrow> mg_fileConfig api f)
     (if mg_is_offline_mode api then run_migrations_offline api else run_migrations_online api)"

section \<open>What the script relies on\<close>

text \<open>
  \<open>revision\<close> is the stored state of the schema, \<open>pending\<close> the one inside the transaction, \<open>upgrade\<close> what
  all migrations together do to it, and \<open>pools\<close> the number of engines that are not disposed. The mode
  is online: offline, the context writes SQL instead.
\<close>

locale online_migrations =
  fixes api :: "'m migration_api" and revision :: "'m \<Rightarrow> 'v" and pending :: "'m \<Rightarrow> 'v" and pools :: "'m \<Rightarrow> nat"
    and upgrade :: "'v \<Rightarrow> 'v"
  assumes online: "\<not> mg_is_offline_mode api"
    and file_config: "mg_fileConfig api f m = (r, m') \<Longrightarrow> revision m' = revision m \<and> pools m' = pools m"
    and configure: "mg_configure api a m = (r, m') \<Longrightarrow> revision m' = revision m \<and> pools m' = pools m"
    and begins: "mg_begin api m = (r, m') \<Longrightarrow>
      revision m' = revision m \<and> pools m' = pools m \<and> (r = Inr () \<longrightarrow> pending m' = revision m)"
    and runs: "mg_run_migrations api m = (r, m') \<Longrightarrow>
      revision m' = revision m \<and> pools m' = pools m \<and> (r = Inr () \<longrightarrow> pending m' = upgrade (pending m))"
    and commits: "mg_end api None m = (r, m') \<Longrightarrow>
      pools m' = pools m \<and> revision m' = (if r = Inr () then pending m else revision m)"
    and rolls_back: "mg_end api (Some e) m = (r, m') \<Longrightarrow> revision m' = revision m \<and> pools m' = pools m"
    and engine: "mg_engine_from_config api section p m = (r, m') \<Longrightarrow>
      revision m' = revision m \<and> pools m' = (if r = Inr () then Suc (pools m) else pools m)"
    and connects: "mg_connect api m = (r, m') \<Longrightarrow> revision m' = revision m \<and> pools m' = pools m"
    and disconnects: "mg_disconnect api x m = (r, m') \<Longrightarrow> revision m' = revision m \<and> pools m' = pools m"
    and disposes: "mg_dispose api m = (r, m') \<Longrightarrow>
      revision m' = revision m \<and> pools m' = (if r = Inr () then pools m - 1 else pools m)"
begin

text \<open>The transaction is all or nothing.\<close>

lemma transaction:
  assumes "withE (mg_begin api) (mg_end api) (mg_run_migrations api) m = (r, m')"
  shows "pools m' = pools m \<and> revision m' = (if r = Inr () then upgrade (revision m) else revision m)"
proof -
  obtain rb mb where b: "mg_begin api m = (rb, mb)" by fastforce
  obtain rr mr where run: "mg_run_migrations api mb = (rr, mr)" by fastforce
  obtain re me where e: "mg_end api (case rr of Inl e \<Rightarrow> Some e | Inr _ \<Rightarrow> None) mr = (re, me)" by fastforce
  note facts = begins [OF b] runs [OF run]
  show ?thesis
  proof (cases rb)
    case (Inl x)
    with assms b facts show ?thesis by (auto simp: withE_def thenE_def bindE_def)
  next
    case (Inr u)
    show ?thesis
    proof (cases rr)
      case (Inl x)
      with assms b run e Inr facts rolls_back [of x mr] show ?thesis
        by (auto simp: withE_def thenE_def bindE_def split: sum.splits)
    next
      case (Inr v)
      with assms b run e \<open>rb = Inr u\<close> facts commits [of mr] show ?thesis
        by (auto simp: withE_def thenE_def bindE_def split: sum.splits)
    qed
  qed
qed

lemma do_run:
  assumes "do_run_migrations api m = (r, m')"
  shows "pools m' = pools m \<and> revision m' = (if r = Inr () then upgrade (revision m) else revision m)"
proof -
  obtain rc mc where c: "mg_configure api ForConnection m = (rc, mc)" by fastforce
  from assms c configure [OF c] transaction [of mc r m'] show ?thesis
    by (cases rc) (auto simp: do_run_migrations_def thenE_def bindE_def)
qed

lemma connected:
  assumes "withE (mg_connect api) (mg_disconnect api) (do_run_migrations api) m = (r, m')"
  shows "pools m' = pools m" "revision m' = revision m \<or> revision m' = upgrade (revision m)"
    "r = Inr () \<Longrightarrow> revision m' = upgrade (revision m)"
proof -
  obtain rb mb where b: "mg_connect api m = (rb, mb)" by fastforce
  obtain rr mr where run: "do_run_migrations api mb = (rr, mr)" by fastforce
  obtain re me where e: "mg_disconnect api (case rr of Inl e \<Rightarrow> Some e | Inr _ \<Rightarrow> None) mr = (re, me)" by fastforce
  note facts = connects [OF b] do_run [OF run] disconnects [OF e]
  have "(rb \<noteq> Inr () \<and> r \<noteq> Inr () \<and> m' = mb) \<or> (m' = me \<and> (r = Inr () \<longrightarrow> rr = Inr ()))"
    using assms b run e
    by (cases rb; cases rr; cases re) (auto simp: withE_def thenE_def bindE_def)
  with facts show "pools m' = pools m" "revision m' = revision m \<or> revision m' = upgrade (revision m)"
    "r = Inr () \<Longrightarrow> revision m' = upgrade (revision m)" by (auto split: if_splits)
qed

lemma online_run:
  assumes "run_migrations_online api m = (r, m')"
  shows "r = Inr () \<and> revision m' = upgrade (revision m) \<and> pools m' = pools m
    \<or> r \<noteq> Inr () \<and> revision m' = revision m \<and> pools m' = pools m
    \<or> r \<noteq> Inr () \<and> revision m' \<in> {revision m, upgrade (revision m)} \<and> pools m' = Suc (pools m)"
proof -
  obtain rg mg where g: "mg_engine_from_config api (mg_get_section api) ''sqlalchemy.'' m = (rg, mg)" by fastforce
  obtain rw mw where w: "withE (mg_connect api) (mg_disconnect api) (do_run_migrations api) mg = (rw, mw)" by fastforce
  obtain rd md where d: "mg_dispose api mw = (rd, md)" by fastforce
  note facts = engine [OF g] connected [OF w] disposes [OF d]
  have "(rg \<noteq> Inr () \<and> r \<noteq> Inr () \<and> m' = mg) \<or> (rg = Inr () \<and> rw \<noteq> Inr () \<and> r \<noteq> Inr () \<and> m' = mw)
      \<or> (rg = Inr () \<and> rw = Inr () \<and> r = rd \<and> m' = md)"
    using assms g w d
    by (cases rg; cases rw) (auto simp: run_migrations_online_def run_async_migrations_def thenE_def bindE_def)
  with facts show ?thesis by (auto split: if_splits)
qed

lemma main_run:
  assumes "env_main api m = (r, m')"
  shows "r = Inr () \<and> revision m' = upgrade (revision m) \<and> pools m' = pools m
    \<or> r \<noteq> Inr () \<and> revision m' = revision m \<and> pools m' = pools m
    \<or> r \<noteq> Inr () \<and> revision m' \<in> {revision m, upgrade (revision m)} \<and> pools m' = Suc (pools m)"
proof (cases "mg_config_file_name api")
  case None
  with assms online online_run show ?thesis by (simp add: env_main_def thenE_def bindE_def)
next
  case (Some f)
  obtain rf mf where f: "mg_fileConfig api f m = (rf, mf)" by fastforce
  show ?thesis
  proof (cases rf)
    case (Inl e)
    with assms Some f file_config [OF f] show ?thesis by (auto simp: env_main_def thenE_def bindE_def)
  next
    case (Inr u)
    with assms Some f online have "run_migrations_online api mf = (r, m')" by (simp add: env_main_def thenE_def bindE_def)
    from online_run [OF this] file_config [OF f] show ?thesis by simp
  qed
qed

end

section \<open>A database to migrate\<close>

text \<open>The schema is the list of migrations applied; the script to run fails at the first one that is not valid.\<close>

record mem_schema =
  applied :: "string list"
  in_transaction :: "string list"
  engines :: nat

definition mem_migrations :: "string list \<Rightarrow> bool \<Rightarrow> mem_schema migration_api" where
  "mem_migrations script valid = \<lparr>mg_config_file_name = Some ''alembic.ini'', mg_fileConfig = (\<lambda>f. ret ()), mg_get_main_option = (\<lambda>k. None),
     mg_get_section = [], mg_is_offline_mode = False, mg_configure = (\<lambda>a. ret ()),
     mg_begin = (\<lambda>m. (Inr (), m\<lparr>in_transaction := applied m\<rparr>)),
     mg_end = (\<lambda>x m. (Inr (), case x of None \<Rightarrow> m\<lparr>applied := in_transaction m\<rparr> | Some e \<Rightarrow> m)),
     mg_run_migrations = (\<lambda>m. if valid then (Inr (), m\<lparr>in_transaction := in_transaction m @ script\<rparr>)
        else (Inl (DatabaseError ''syntax''), m\<lparr>in_transaction := in_transaction m @ take 1 script\<rparr>)),
     mg_engine_from_config = (\<lambda>s p m. (Inr (), m\<lparr>engines := Suc (engines m)\<rparr>)),
     mg_connect = ret (), mg_disconnect = (\<lambda>x. ret ()),
     mg_dispose = (\<lambda>m. (Inr (), m\<lparr>engines := engines m - 1\<rparr>))\<rparr>"

interpretation mem_migrations: online_migrations "mem_migrations script valid" applied in_transaction engines "\<lambda>v. v @ script"
  by unfold_locales (auto simp: mem_migrations_def split: if_splits option.splits)

text \<open>
  C39. Migrations are all or nothing: whatever fails while the script runs in online mode, the stored
  schema is afterwards either the old one or the fully migrated one, and it is the migrated one when the
  script succeeds. Then the engine is disposed of; a failure after its creation leaves it open.
\<close>

theorem migrations_atomic:
  assumes "online_migrations api revision pending pools upgrade" and "env_main api m = (res, m')"
  shows "(if res = Inr () then revision m' = upgrade (revision m) \<and> pools m' = pools m
      else revision m' = revision m \<and> pools m' = pools m
        \<or> revision m' \<in> {revision m, upgrade (revision m)} \<and> pools m' = Suc (pools m))"
  using online_migrations.main_run [OF assms] by auto

theorem migrations_atomic_witness:
  "let run = env_main (mem_migrations [''rooms'', ''users''] False) \<lparr>applied = [''init''], in_transaction = [], engines = 0\<rparr>
   in isl (fst run) \<and> engines (snd run) = 1 \<and> applied (snd run) \<in> {[''init''], [''init'', ''rooms'', ''users'']}"
proof -
  let ?run = "env_main (mem_migrations [''rooms'', ''users''] False) \<lparr>applied = [''init''], in_transaction = [], engines = 0\<rparr>"
  have "?run = (fst ?run, snd ?run)" by (rule surjective_pairing)
  note claim = migrations_atomic [OF mem_migrations.online_migrations_axioms this]
  have "isl (fst ?run)" "engines (snd ?run) = 1" by code_simp+
  with claim show ?thesis by (cases "fst ?run") auto
qed

end
