(* ===== verification/Spec2Isabelle.thy ===== *)
theory Spec2Isabelle
  imports Races Responses Migrations
begin

text \<open>
  NexusChat: a distributed chat server, verified as a shallow embedding of its Python code.

  \<^bold>\<open>The program.\<close> Clients talk to one of several instances over HTTP (accounts, rooms, history) and
  over a WebSocket (joining rooms, messages, typing). Every instance keeps its own connections in
  memory; all instances share one PostgreSQL database and one Redis server. A message that arrives
  on a WebSocket is rate limited, stored in the database and published on the Redis channel of its
  room; every instance that has somebody in the room is subscribed to that channel, reads the
  message in its listener task and puts it into the send queue of each connection in the room.
  Presence and typing indicators live in Redis.

  \<^bold>\<open>How it is modelled.\<close> An operation of the program is a function of type \<open>('s, 'a) eff\<close>: from a
  state to a result or an exception together with the new state (\<open>Prelude\<close>); \<open>bindE\<close>, \<open>catchE\<close>,
  \<open>finallyE\<close> and \<open>forE\<close> are \<open>await\<close> in sequence, \<open>try\<close>, \<open>finally\<close> and \<open>for\<close>. Exceptions are values of
  \<open>exn\<close>. Third-party code is a parameter with a locale for what the program relies on: the
  WebSocket (\<open>socket_log\<close>, \<open>reliable_socket\<close>), the Redis server (\<open>redis_server\<close>, \<open>redis_available\<close>,
  \<open>redis_atomic\<close>), its Pub/Sub client (\<open>pubsub\<close>, \<open>reliable_pubsub\<close>), the database (\<open>database\<close>,
  \<open>database_up\<close>), tokens (\<open>jwt\<close>) and password hashes (\<open>bcrypt\<close>). Each locale is interpreted on an
  executable stand-in, on which the witnesses run. Times are rationals.

  \<^bold>\<open>Concurrency.\<close> Every instance is one event loop: a coroutine runs until it awaits something. The
  WebSocket endpoint is therefore modelled twice, as an effect (\<open>ChatEndpoint\<close>) and cut at its awaits
  as a task (\<open>ChatTasks\<close>), and both are proved to be the same when nothing comes between. One step of a
  task is one command or transaction sent to Redis, one database session, one part of a method of the
  connection manager between two awaits (\<open>ManagerTasks\<close>) or one call of the Pub/Sub client. The properties of
  the deployment are about all interleavings of such steps. The lock of the manager is not represented:
  what is shown for all schedules holds for those it allows. HTTP requests, the delivery of one message
  by the listener and a reconnection are single steps of the deployment. The operations that look for a
  row before they insert one are cut at their statements as well (\<open>Races\<close>), with arbitrary changes of
  the tables by other transactions in between.

  \<^bold>\<open>The theories\<close>, with the files they model below \<open>src/app/\<close>:

  \<^item> \<open>Prelude\<close>, \<open>Json\<close>, \<open>Uuid\<close>: effects and their rules, dictionaries and ordered sets; JSON values
    with \<open>get\<close>, \<open>dumps\<close> and \<open>loads\<close>; \<open>uuid.UUID\<close> with all spellings it accepts.
  \<^item> \<open>Config\<close>, \<open>WsSchema\<close>: \<open>config.py\<close>, \<open>core/exceptions.py\<close>, \<open>schemas/ws.py\<close>.
  \<^item> \<open>Connections\<close>: \<open>messaging/connection_manager.py\<close>. Connection objects are on a heap, because the
    endpoint and the manager share them; a forced disconnect is scheduled in \<open>tasks\<close> and runs later.
    \<open>Connections_Inv\<close>, \<open>Connections_Machine\<close> and \<open>Connections_Props\<close> give the invariant of every
    reachable state, the exact effect of a broadcast, the refinement of an abstract membership
    relation, and bounds, order and delivery of the send queues.
  \<^item> \<open>Redis\<close>: the documented commands on a store with deadlines, alone and in transactions.
    \<open>RateLimiter\<close>, \<open>Presence\<close>, \<open>Typing\<close> (\<open>core/rate_limiter.py\<close>, \<open>services/presence_service.py\<close>,
    \<open>services/typing_service.py\<close>): each operation, and the equality of any run of them with a
    specification over the plain history of requests.
  \<^item> \<open>Broker\<close>, \<open>Broker_Props\<close>: \<open>messaging/base.py\<close>, \<open>redis_broker.py\<close>, \<open>kafka_broker.py\<close>. Publishing with
    retries and dead letters, subscriptions, the listener as a machine over what \<open>listen()\<close> gives.
    The locale \<open>broker_contract\<close> is the abstract class, interpreted for both brokers.
  \<^item> \<open>Database\<close>: \<open>models/\<close>, \<open>db/base.py\<close>, \<open>db/session.py\<close>: rows, constraints, sessions. \<open>RoomService\<close>,
    \<open>MessageService\<close>, \<open>Auth\<close>, \<open>Auth_Props\<close>, \<open>Routes\<close> (\<open>services/\<close>, \<open>schemas/\<close>, \<open>core/security.py\<close>, \<open>api/deps.py\<close>,
    \<open>api/routes/\<close>): every service operation and every route; membership, idempotency, pagination,
    registration and tokens.
  \<^item> \<open>ChatEndpoint\<close>, \<open>Chat_Props\<close>, \<open>Chat_Rate\<close>: \<open>api/websocket/chat.py\<close>: who is admitted, what each event
    does, the cleanup; and that the rate limit is exact although the handlers of admitted frames
    work on the same Redis server.
  \<^item> \<open>App\<close>: \<open>main.py\<close> and the rest of \<open>db/session.py\<close>: start-up, serving and shutdown.
  \<^item> \<open>Http\<close>, \<open>Responses\<close>: a Hoare logic for database sessions, with which every failure of every route is
    shown to be a declared error; the response schemas of \<open>schemas/\<close> and the table of routes of \<open>main.py\<close>.
  \<^item> \<open>Migrations\<close>: \<open>alembic/env.py\<close>, with the locale \<open>online_migrations\<close> for Alembic's context.
  \<^item> \<open>Integrity\<close>: every service operation and route keeps the tables consistent, also when it fails.
  \<^item> \<open>System\<close>: the whole deployment as a step relation over any number of instances, with Redis
    relaying what is published to those subscribed at that moment. \<open>System_Inv\<close> is its invariant and
    the preservation by every step (locale \<open>deployment\<close>), \<open>System_Run\<close> a concrete run.
  \<^item> \<open>Tasks\<close>: tasks of the event loop and a rely-guarantee logic for them (\<open>safe\<close>). \<open>ManagerTasks\<close>: \<open>connect\<close>,
    \<open>disconnect\<close> and \<open>_force_disconnect\<close> of the manager as tasks; the locale \<open>manager_invariant\<close> gives what they
    keep at each interruption. \<open>ChatTasks\<close>: the endpoint as tasks. \<open>Interleave\<close>: every session keeps the invariant at each of its steps and relies on nothing
    that others undo. \<open>Network\<close>: the deployment with sessions interrupted anywhere, and its invariant.
    \<open>System_Props\<close>: what follows in every reachable state: rooms are served and entered by members only,
    clients get protocol messages only, the database is consistent, a message an instance receives
    reaches every connection in the room. \<open>Schedule\<close>: a message handled in pieces is stored and sent to
    every instance concerned, whatever happens in between, and every session can be run to its end.
  \<^item> \<open>Races\<close>: joining a room, registering and saving a message under a key with other transactions between
    their statements: there is never a second row, but the loser of a race gets the database's error.

  \<^bold>\<open>Bounds.\<close> Loops over data are structural recursions. \<open>publish_loop\<close> makes the three attempts of the
  code. \<open>fetch_pages\<close>, a client that follows cursors, has fuel; one request more than the room has
  rows is proved to be enough, whatever the time stamps. The listener and the frame loop do not
  end by themselves and are given the sequence of what they receive. \<open>process_send_queue\<close> runs until
  it would wait.

  \<^bold>\<open>Where the code falls short\<close> of what it means to do is stated as lemmas too, next to the
  component: for instance that the cleanup of a replaced session removes the new connection
  (\<open>Connections_Props\<close>), that sending does not ask for membership, that an unusual spelling of a room
  id splits a room (\<open>Chat_Props\<close>), that simultaneous messages can be skipped at a page boundary
  (\<open>MessageService\<close>), and that a retry which overlaps with the first copy of a message ends the session
  (\<open>Races\<close>).

  \<^bold>\<open>Not modelled.\<close> Overlapping transactions of operations that do not look before they insert; the
  cancellation of a task while it waits; logging; what FastAPI, pydantic, SQLAlchemy, Alembic and redis-py do
  inside; the construction of the FastAPI object, its CORS middleware and the options of the engine; the
  browser client and the deployment files.
\<close>

end
